theory Spec2Isabelle
  imports Complex_Main
begin

section \<open>JavaScript values used by the shade generator\<close>

text \<open>
  The shade generator (\<^verbatim>\<open>shade-generator.js\<close>) computes with JavaScript numbers.
  A number is modelled as a real or \<open>NaN\<close>: arithmetic on reals is exact, \<open>NaN\<close> is
  absorbing, and every comparison with \<open>NaN\<close> is false. Rounding error of IEEE doubles,
  signed zeros and overflow to an infinity are not modelled; a division by zero (none
  occurs in the source, all divisors are non-zero constants) gives \<open>NaN\<close>. The model
  therefore agrees with the source, up to rounding, as long as no intermediate result
  leaves the range of a double; the results below that depend on magnitudes are stated
  for bounded numbers.
\<close>

datatype jsnum = Num real | NaN

instantiation jsnum :: "{plus, minus, times, inverse, uminus, ord}"
begin

definition plus_jsnum :: "jsnum \<Rightarrow> jsnum \<Rightarrow> jsnum" where
  "a + b = (case a of Num x \<Rightarrow> (case b of Num y \<Rightarrow> Num (x + y) | NaN \<Rightarrow> NaN) | NaN \<Rightarrow> NaN)"

definition minus_jsnum :: "jsnum \<Rightarrow> jsnum \<Rightarrow> jsnum" where
  "a - b = (case a of Num x \<Rightarrow> (case b of Num y \<Rightarrow> Num (x - y) | NaN \<Rightarrow> NaN) | NaN \<Rightarrow> NaN)"

definition times_jsnum :: "jsnum \<Rightarrow> jsnum \<Rightarrow> jsnum" where
  "a * b = (case a of Num x \<Rightarrow> (case b of Num y \<Rightarrow> Num (x * y) | NaN \<Rightarrow> NaN) | NaN \<Rightarrow> NaN)"

definition divide_jsnum :: "jsnum \<Rightarrow> jsnum \<Rightarrow> jsnum" where
  "a div b = (case a of Num x \<Rightarrow>
                (case b of Num y \<Rightarrow> (if y = 0 then NaN else Num (x / y)) | NaN \<Rightarrow> NaN)
              | NaN \<Rightarrow> NaN)"

definition inverse_jsnum :: "jsnum \<Rightarrow> jsnum" where
  "inverse a = (case a of Num x \<Rightarrow> (if x = 0 then NaN else Num (inverse x)) | NaN \<Rightarrow> NaN)"

definition uminus_jsnum :: "jsnum \<Rightarrow> jsnum" where
  "- a = (case a of Num x \<Rightarrow> Num (- x) | NaN \<Rightarrow> NaN)"

definition less_jsnum :: "jsnum \<Rightarrow> jsnum \<Rightarrow> bool" where
  "a < b = (case a of Num x \<Rightarrow> (case b of Num y \<Rightarrow> x < y | NaN \<Rightarrow> False) | NaN \<Rightarrow> False)"

definition less_eq_jsnum :: "jsnum \<Rightarrow> jsnum \<Rightarrow> bool" where
  "a \<le> b = (case a of Num x \<Rightarrow> (case b of Num y \<Rightarrow> x \<le> y | NaN \<Rightarrow> False) | NaN \<Rightarrow> False)"

instance ..

end

text \<open>The functions of \<^verbatim>\<open>Math\<close> the source calls. \<^verbatim>\<open>Math.round\<close> rounds a tie upwards.\<close>

definition Math_max :: "jsnum \<Rightarrow> jsnum \<Rightarrow> jsnum" where
  "Math_max a b = (case a of Num x \<Rightarrow> (case b of Num y \<Rightarrow> Num (max x y) | NaN \<Rightarrow> NaN) | NaN \<Rightarrow> NaN)"

definition Math_min :: "jsnum \<Rightarrow> jsnum \<Rightarrow> jsnum" where
  "Math_min a b = (case a of Num x \<Rightarrow> (case b of Num y \<Rightarrow> Num (min x y) | NaN \<Rightarrow> NaN) | NaN \<Rightarrow> NaN)"

definition Math_round :: "jsnum \<Rightarrow> jsnum" where
  "Math_round a = (case a of Num x \<Rightarrow> Num (of_int \<lfloor>x + 1 / 2\<rfloor>) | NaN \<Rightarrow> NaN)"

definition Math_cbrt :: "jsnum \<Rightarrow> jsnum" where
  "Math_cbrt a = (case a of Num x \<Rightarrow> Num (root 3 x) | NaN \<Rightarrow> NaN)"

definition Math_sqrt :: "jsnum \<Rightarrow> jsnum" where
  "Math_sqrt a = (case a of Num x \<Rightarrow> (if x < 0 then NaN else Num (sqrt x)) | NaN \<Rightarrow> NaN)"

definition Math_pow :: "jsnum \<Rightarrow> jsnum \<Rightarrow> jsnum" where
  "Math_pow a b = (case a of Num x \<Rightarrow>
                     (case b of Num y \<Rightarrow> (if x < 0 \<and> y \<notin> \<int> then NaN else Num (x powr y)) | NaN \<Rightarrow> NaN)
                   | NaN \<Rightarrow> NaN)"

definition Math_cos :: "jsnum \<Rightarrow> jsnum" where
  "Math_cos a = (case a of Num x \<Rightarrow> Num (cos x) | NaN \<Rightarrow> NaN)"

definition Math_sin :: "jsnum \<Rightarrow> jsnum" where
  "Math_sin a = (case a of Num x \<Rightarrow> Num (sin x) | NaN \<Rightarrow> NaN)"

definition Math_PI :: jsnum where
  "Math_PI = Num pi"

definition atan2_real :: "real \<Rightarrow> real \<Rightarrow> real" where
  "atan2_real y x =
     (if 0 < x then arctan (y / x)
      else if x < 0 then (if 0 \<le> y then arctan (y / x) + pi else arctan (y / x) - pi)
      else if 0 < y then pi / 2
      else if y < 0 then - (pi / 2)
      else 0)"

definition Math_atan2 :: "jsnum \<Rightarrow> jsnum \<Rightarrow> jsnum" where
  "Math_atan2 a b = (case a of Num y \<Rightarrow> (case b of Num x \<Rightarrow> Num (atan2_real y x) | NaN \<Rightarrow> NaN) | NaN \<Rightarrow> NaN)"

text \<open>The remainder operator \<^verbatim>\<open>%\<close> takes the sign of the dividend.\<close>

definition js_rem :: "jsnum \<Rightarrow> jsnum \<Rightarrow> jsnum" where
  "js_rem a b = (case a of Num x \<Rightarrow>
                   (case b of Num y \<Rightarrow>
                      (if y = 0 then NaN
                       else Num (x - y * (sgn (x / y) * of_int \<lfloor>\<bar>x / y\<bar>\<rfloor>)))
                    | NaN \<Rightarrow> NaN)
                 | NaN \<Rightarrow> NaN)"

text \<open>
  Values that reach the generator from a theme configuration. An object is its list of
  own properties; functions, symbols and arrays are not modelled.
\<close>

datatype jsval =
    JUndefined
  | JNull
  | JBool bool
  | JNumber jsnum
  | JString string
  | JObject "(string \<times> jsval) list"

fun truthy :: "jsval \<Rightarrow> bool" where
  "truthy JUndefined = False"
| "truthy JNull = False"
| "truthy (JBool b) = b"
| "truthy (JNumber n) = (case n of Num x \<Rightarrow> x \<noteq> 0 | NaN \<Rightarrow> False)"
| "truthy (JString s) = (s \<noteq> [])"
| "truthy (JObject ps) = True"

fun is_object :: "jsval \<Rightarrow> bool" where
  "is_object (JObject ps) = True"
| "is_object v = False"

fun is_string :: "jsval \<Rightarrow> bool" where
  "is_string (JString s) = True"
| "is_string v = False"

definition lookup_prop :: "(string \<times> jsval) list \<Rightarrow> string \<Rightarrow> jsval" where
  "lookup_prop ps k = (case map_of ps k of Some v \<Rightarrow> v | None \<Rightarrow> JUndefined)"

fun get_prop :: "jsval \<Rightarrow> string \<Rightarrow> jsval" where
  "get_prop (JObject ps) k = lookup_prop ps k"
| "get_prop v k = JUndefined"

text \<open>A destructuring default applies when the property is missing or \<^verbatim>\<open>undefined\<close>.\<close>

definition with_default :: "jsval \<Rightarrow> jsval \<Rightarrow> jsval" where
  "with_default v d = (if v = JUndefined then d else v)"

section \<open>Strings\<close>

text \<open>
  A string is a list of 8-bit characters. White space is the ASCII white space and the
  no-break space; \<^verbatim>\<open>toLowerCase\<close> maps the letters A to Z.
\<close>

definition white_space :: string where
  "white_space = [CHR 0x09, CHR 0x0A, CHR 0x0B, CHR 0x0C, CHR 0x0D, CHR '' '', CHR 0xA0]"

definition digits10 :: string where
  "digits10 = ''0123456789''"

definition digits36 :: string where
  "digits36 = ''0123456789abcdefghijklmnopqrstuvwxyz''"

definition upper_case :: string where
  "upper_case = ''ABCDEFGHIJKLMNOPQRSTUVWXYZ''"

definition lower_case :: string where
  "lower_case = ''abcdefghijklmnopqrstuvwxyz''"

definition lower_char :: "char \<Rightarrow> char" where
  "lower_char c = (case map_of (zip upper_case lower_case) c of Some d \<Rightarrow> d | None \<Rightarrow> c)"

definition toLowerCase :: "string \<Rightarrow> string" where
  "toLowerCase s = map lower_char s"

definition trimStart :: "string \<Rightarrow> string" where
  "trimStart s = dropWhile (\<lambda>c. c \<in> set white_space) s"

definition trim :: "string \<Rightarrow> string" where
  "trim s = rev (trimStart (rev (trimStart s)))"

definition startsWith :: "string \<Rightarrow> string \<Rightarrow> bool" where
  "startsWith s p = (take (length p) s = p)"

definition padStart :: "nat \<Rightarrow> char \<Rightarrow> string \<Rightarrow> string" where
  "padStart n c s = replicate (n - length s) c @ s"

text \<open>The position of a character in a digit alphabet, when it is below the radix.\<close>

fun index_of :: "char \<Rightarrow> string \<Rightarrow> nat option" where
  "index_of c [] = None"
| "index_of c (d # ds) = (if c = d then Some 0 else map_option Suc (index_of c ds))"

definition digit_value :: "nat \<Rightarrow> char \<Rightarrow> nat option" where
  "digit_value radix c =
     (case index_of (lower_char c) digits36 of
        Some v \<Rightarrow> (if v < radix then Some v else None)
      | None \<Rightarrow> None)"

fun leading_digits :: "nat \<Rightarrow> string \<Rightarrow> nat list" where
  "leading_digits radix [] = []"
| "leading_digits radix (c # cs) =
     (case digit_value radix c of Some v \<Rightarrow> v # leading_digits radix cs | None \<Rightarrow> [])"

definition digits_value :: "nat \<Rightarrow> nat list \<Rightarrow> nat" where
  "digits_value radix vs = foldl (\<lambda>acc v. acc * radix + v) 0 vs"

text \<open>The values of the characters of a run of decimal digits.\<close>

definition dec :: "string \<Rightarrow> nat list" where
  "dec ds = map (\<lambda>c. the (digit_value 10 c)) ds"

text \<open>
  \<^verbatim>\<open>parseInt(s, radix)\<close>; radix 0 stands for a missing radix. White space and a sign
  are skipped, a \<^verbatim>\<open>0x\<close> prefix selects radix 16 when the radix is missing or 16, and
  the longest run of digits is read; no digit at all gives \<open>NaN\<close>.
\<close>

definition parseInt :: "string \<Rightarrow> nat \<Rightarrow> jsnum" where
  "parseInt s radix =
     (let s1 = trimStart s;
          negative = startsWith s1 ''-'';
          s2 = (if startsWith s1 ''+'' \<or> startsWith s1 ''-'' then tl s1 else s1);
          strip = (radix = 0 \<or> radix = 16) \<and> startsWith (toLowerCase (take 2 s2)) ''0x'';
          r = (if strip \<or> radix = 16 then 16 else if radix = 0 then 10 else radix);
          s3 = (if strip then drop 2 s2 else s2);
          vs = leading_digits r s3
      in if vs = [] then NaN
         else if negative then Num (- real (digits_value r vs))
         else Num (real (digits_value r vs)))"

text \<open>
  \<^verbatim>\<open>parseFloat\<close> on the strings the source passes to it, which are runs of digits and
  dots matched by \<^verbatim>\<open>[0-9.]+\<close>: the longest prefix \<^verbatim>\<open>digits[.digits]\<close> is read, and a
  prefix without any digit gives \<open>NaN\<close>. The value is the decimal that is written, where
  JavaScript takes the double nearest to it (an infinity for a run of more than 308
  digits).
\<close>

definition parseFloat :: "string \<Rightarrow> jsnum" where
  "parseFloat s =
     (let ip = leading_digits 10 s;
          rest = drop (length ip) s;
          fp = (if startsWith rest ''.'' then leading_digits 10 (tl rest) else [])
      in if ip = [] \<and> fp = [] then NaN
         else Num (real (digits_value 10 ip) + real (digits_value 10 fp) / 10 ^ length fp))"

text \<open>\<^verbatim>\<open>ToInt32\<close>, for the bitwise operators: \<open>NaN\<close> becomes 0, other numbers wrap.\<close>

definition toInt32 :: "jsnum \<Rightarrow> int" where
  "toInt32 a = (case a of
                  NaN \<Rightarrow> 0
                | Num x \<Rightarrow> (let n = (sgn \<lfloor>x\<rfloor> * \<lfloor>\<bar>x\<bar>\<rfloor>) mod 2 ^ 32
                            in if 2 ^ 31 \<le> n then n - 2 ^ 32 else n))"

text \<open>\<^verbatim>\<open>(num >> k) & 255\<close> on a 32-bit two's complement integer.\<close>

definition shift_and_255 :: "int \<Rightarrow> nat \<Rightarrow> jsnum" where
  "shift_and_255 n k = Num (of_int ((n div 2 ^ k) mod 256))"

fun nat_digits :: "nat \<Rightarrow> nat \<Rightarrow> string" where
  "nat_digits radix n =
     (if n < radix \<or> radix < 2 then [digits36 ! (n mod 36)]
      else nat_digits radix (n div radix) @ [digits36 ! (n mod radix)])"

text \<open>
  The text of a number \<open>x \<ge> 10\<^sup>2\<^sup>1\<close>, which JavaScript prints with an exponent: the decimal
  digits of \<open>x\<close>, at most 17 of them (a double has no more) and without trailing zeros, a
  dot after the first digit if more follow, and \<^verbatim>\<open>e+\<close> with the decimal exponent.
\<close>

definition exponent_text :: "real \<Rightarrow> string" where
  "exponent_text x =
     (let e = length (nat_digits 10 (nat \<lfloor>x\<rfloor>)) - 1;
          m = nat \<lfloor>x / 10 ^ (e - 16) + 1 / 2\<rfloor>;
          e1 = (if 10 ^ 17 \<le> m then e + 1 else e);
          m1 = (if 10 ^ 17 \<le> m then m div 10 else m);
          ds = rev (dropWhile (\<lambda>c. c = CHR ''0'') (rev (nat_digits 10 m1)))
      in hd ds # (if tl ds = [] then [] else ''.'' @ tl ds) @ ''e+'' @ nat_digits 10 e1)"

text \<open>
  \<^verbatim>\<open>x.toFixed(d)\<close>: a sign for a negative \<open>x\<close>; then, for a magnitude below \<open>10\<^sup>2\<^sup>1\<close>, the
  decimal with \<open>d\<close> fraction digits nearest to it, the larger on a tie, and from \<open>10\<^sup>2\<^sup>1\<close>
  on the text with an exponent.
\<close>

definition toFixed :: "jsnum \<Rightarrow> nat \<Rightarrow> string" where
  "toFixed a d =
     (case a of
        NaN \<Rightarrow> ''NaN''
      | Num x \<Rightarrow>
          (if 10 ^ 21 \<le> \<bar>x\<bar> then (if x < 0 then ''-'' else []) @ exponent_text \<bar>x\<bar>
           else
             (let n = nat \<lfloor>\<bar>x\<bar> * 10 ^ d + 1 / 2\<rfloor>;
                  ds = padStart (d + 1) CHR ''0'' (nat_digits 10 n);
                  k = length ds - d
              in (if x < 0 then ''-'' else []) @ take k ds @
                 (if d = 0 then [] else ''.'' @ drop k ds))))"

text \<open>
  \<^verbatim>\<open>n.toString(16)\<close> for the integers the source passes to it, the rounded channels of
  \<^verbatim>\<open>oklchToRgb\<close>; the hexadecimal fraction that JavaScript prints for a number that is not
  an integer is not modelled.
\<close>

definition toString16 :: "jsnum \<Rightarrow> string" where
  "toString16 a =
     (case a of
        NaN \<Rightarrow> ''NaN''
      | Num x \<Rightarrow> (if x < 0 then ''-'' else []) @ nat_digits 16 (nat \<lfloor>\<bar>x\<bar>\<rfloor>))"

section \<open>Regular expressions\<close>

text \<open>
  The fragment of JavaScript regular expressions the source uses: literals, greedy
  repetition of a character class, optional parts, capturing groups and the anchors.
  \<open>matches\<close> lists every way a pattern matches at a position, in the order a backtracking
  matcher tries them (longest repetition first); each result holds the captures of the
  groups, in the order of their opening parentheses, and the input left.
\<close>

datatype regex =
    Lit string
  | Rep string nat "nat option"
  | Opt regex
  | Grp regex
  | Cat regex regex
  | Bol
  | Eol

fun groups :: "regex \<Rightarrow> nat" where
  "groups (Lit s) = 0"
| "groups (Rep cls lo hi) = 0"
| "groups (Opt r) = groups r"
| "groups (Grp r) = Suc (groups r)"
| "groups (Cat r1 r2) = groups r1 + groups r2"
| "groups Bol = 0"
| "groups Eol = 0"

type_synonym match_state = "nat \<times> string"

type_synonym match_result = "string option list \<times> match_state"

fun matches :: "regex \<Rightarrow> match_state \<Rightarrow> match_result list" where
  "matches (Lit p) (i, s) =
     (if startsWith s p then [([], (i + length p, drop (length p) s))] else [])"
| "matches (Rep cls lo hi) (i, s) =
     (let n = length (takeWhile (\<lambda>c. c \<in> set cls) s);
          m = (case hi of None \<Rightarrow> n | Some h \<Rightarrow> min n h)
      in map (\<lambda>k. ([], (i + k, drop k s))) (filter (\<lambda>k. lo \<le> k) (rev [0..<Suc m])))"
| "matches (Opt r) st = matches r st @ [(replicate (groups r) None, st)]"
| "matches (Grp r) (i, s) =
     map (\<lambda>(caps, (j, rest)). (Some (take (j - i) s) # caps, (j, rest))) (matches r (i, s))"
| "matches (Cat r1 r2) st =
     concat (map (\<lambda>(caps1, st1). map (\<lambda>(caps2, st2). (caps1 @ caps2, st2)) (matches r2 st1))
                 (matches r1 st))"
| "matches Bol (i, s) = (if i = 0 then [([], (i, s))] else [])"
| "matches Eol (i, s) = (if s = [] then [([], (i, s))] else [])"

text \<open>The match a backtracking matcher finds first at a position, if there is one.\<close>

definition first_match :: "regex \<Rightarrow> match_state \<Rightarrow> match_result option" where
  "first_match re st = (case matches re st of [] \<Rightarrow> None | m # ms \<Rightarrow> Some m)"

text \<open>
  \<^verbatim>\<open>str.match(re)\<close> and \<^verbatim>\<open>re.test(str)\<close> without the global flag: the first match
  at the leftmost position that has one; the result is the list of captures.
\<close>

fun search_from :: "regex \<Rightarrow> nat \<Rightarrow> string \<Rightarrow> string option list option" where
  "search_from re i [] = (case matches re (i, []) of [] \<Rightarrow> None | m # ms \<Rightarrow> Some (fst m))"
| "search_from re i (c # cs) =
     (case matches re (i, c # cs) of
        [] \<Rightarrow> search_from re (Suc i) cs
      | m # ms \<Rightarrow> Some (fst m))"

definition regex_match :: "regex \<Rightarrow> string \<Rightarrow> string option list option" where
  "regex_match re s = search_from re 0 s"

definition regex_test :: "regex \<Rightarrow> string \<Rightarrow> bool" where
  "regex_test re s = (regex_match re s \<noteq> None)"

text \<open>The text of capture \<open>k\<close> (from 1); a group that took no part is undefined.\<close>

definition capture :: "string option list \<Rightarrow> nat \<Rightarrow> string option" where
  "capture caps k = (if 0 < k \<and> k \<le> length caps then caps ! (k - 1) else None)"

definition capture_text :: "string option list \<Rightarrow> nat \<Rightarrow> string" where
  "capture_text caps k = (case capture caps k of Some t \<Rightarrow> t | None \<Rightarrow> [])"

text \<open>The character classes and the patterns of the source.\<close>

definition cls_space :: string where
  "cls_space = white_space"

definition cls_num :: string where
  "cls_num = ''0123456789.''"

definition cls_sep :: string where
  "cls_sep = white_space @ '',''"

definition cls_hex_i :: string where
  "cls_hex_i = ''0123456789abcdefABCDEF''"

definition star :: "string \<Rightarrow> regex" where
  "star cls = Rep cls 0 None"

definition plus :: "string \<Rightarrow> regex" where
  "plus cls = Rep cls 1 None"

fun cat :: "regex list \<Rightarrow> regex" where
  "cat [] = Lit []"
| "cat [r] = r"
| "cat (r # rs) = Cat r (cat rs)"

text \<open>\<^verbatim>\<open>/oklch\(\s*([0-9.]+)(%?)\s+([0-9.]+)\s+([0-9.]+)(deg)?\s*\)/\<close>\<close>

definition re_oklch :: regex where
  "re_oklch = cat [Lit ''oklch('', star cls_space, Grp (plus cls_num), Grp (Opt (Lit ''%'')),
                   plus cls_space, Grp (plus cls_num), plus cls_space, Grp (plus cls_num),
                   Opt (Grp (Lit ''deg'')), star cls_space, Lit '')'']"

text \<open>\<^verbatim>\<open>/rgba?\(\s*([0-9.]+)[\s,]+([0-9.]+)[\s,]+([0-9.]+)/\<close>\<close>

definition re_rgb :: regex where
  "re_rgb = cat [Lit ''rgb'', Opt (Lit ''a''), Lit ''('', star cls_space, Grp (plus cls_num),
                 plus cls_sep, Grp (plus cls_num), plus cls_sep, Grp (plus cls_num)]"

text \<open>\<^verbatim>\<open>/hsla?\(\s*([0-9.]+)(deg)?[\s,]+([0-9.]+)%[\s,]+([0-9.]+)%/\<close>\<close>

definition re_hsl :: regex where
  "re_hsl = cat [Lit ''hsl'', Opt (Lit ''a''), Lit ''('', star cls_space, Grp (plus cls_num),
                 Opt (Grp (Lit ''deg'')), plus cls_sep, Grp (plus cls_num), Lit ''%'',
                 plus cls_sep, Grp (plus cls_num), Lit ''%'']"

text \<open>\<^verbatim>\<open>/^[0-9a-f]{3,8}$/i\<close>\<close>

definition re_hex :: regex where
  "re_hex = cat [Bol, Rep cls_hex_i 3 (Some 8), Eol]"

section \<open>Colours and errors\<close>

text \<open>The \<^verbatim>\<open>{ l, c, h }\<close> and \<^verbatim>\<open>{ r, g, b }\<close> objects of the source.\<close>

record oklch =
  ok_l :: jsnum
  ok_c :: jsnum
  ok_h :: jsnum

record rgb =
  rgb_r :: jsnum
  rgb_g :: jsnum
  rgb_b :: jsnum

text \<open>
  What the source throws: the five \<^verbatim>\<open>Error\<close>s of the parser, and the \<^verbatim>\<open>TypeError\<close> of
  reading a property of \<^verbatim>\<open>undefined\<close>.
\<close>

datatype error =
    InvalidColor
  | UnsupportedFormat
  | InvalidOklch
  | InvalidRgb
  | InvalidHsl
  | TypeError

section \<open>Reference tables\<close>

definition SHADE_LEVELS :: "nat list" where
  "SHADE_LEVELS = [50, 100, 200, 300, 400, 500, 600, 700, 800, 900, 950]"

text \<open>A key that a table does not hold reads as \<^verbatim>\<open>undefined\<close>, which is \<open>NaN\<close> in arithmetic.\<close>

definition LIGHTNESS_MAP :: "nat \<Rightarrow> jsnum" where
  "LIGHTNESS_MAP level =
     (if level = 50 then Num 0.97
      else if level = 100 then Num 0.93
      else if level = 200 then Num 0.87
      else if level = 300 then Num 0.78
      else if level = 400 then Num 0.68
      else if level = 500 then Num 0.55
      else if level = 600 then Num 0.48
      else if level = 700 then Num 0.40
      else if level = 800 then Num 0.32
      else if level = 900 then Num 0.24
      else if level = 950 then Num 0.14
      else NaN)"

definition CHROMA_SCALE :: "nat \<Rightarrow> jsnum" where
  "CHROMA_SCALE level =
     (if level = 50 then Num 0.15
      else if level = 100 then Num 0.25
      else if level = 200 then Num 0.40
      else if level = 300 then Num 0.65
      else if level = 400 then Num 0.85
      else if level = 500 then Num 1.0
      else if level = 600 then Num 0.95
      else if level = 700 then Num 0.85
      else if level = 800 then Num 0.75
      else if level = 900 then Num 0.60
      else if level = 950 then Num 0.45
      else NaN)"

definition LIGHT_HALF_RANGE :: jsnum where
  "LIGHT_HALF_RANGE = LIGHTNESS_MAP 50 - LIGHTNESS_MAP 500"

definition DARK_HALF_RANGE :: jsnum where
  "DARK_HALF_RANGE = LIGHTNESS_MAP 500 - LIGHTNESS_MAP 950"

text \<open>The loop that fills \<^verbatim>\<open>RELATIVE_POSITION\<close> leaves level 500 out.\<close>

definition RELATIVE_POSITION :: "nat \<Rightarrow> jsnum" where
  "RELATIVE_POSITION level =
     (if level \<in> set SHADE_LEVELS \<and> level < 500
        then (LIGHTNESS_MAP level - LIGHTNESS_MAP 500) / LIGHT_HALF_RANGE
      else if level \<in> set SHADE_LEVELS \<and> 500 < level
        then (LIGHTNESS_MAP 500 - LIGHTNESS_MAP level) / DARK_HALF_RANGE
      else NaN)"

record mode_config =
  hueShift_light :: jsnum
  hueShift_dark :: jsnum
  chromaBoost :: jsnum
  lightEndChroma :: jsnum
  darkEndChroma :: jsnum

definition config_fixed :: mode_config where
  "config_fixed = \<lparr>hueShift_light = Num 0, hueShift_dark = Num 0, chromaBoost = Num 1.0,
                    lightEndChroma = Num 0.15, darkEndChroma = Num 0.45\<rparr>"

definition config_natural :: mode_config where
  "config_natural = \<lparr>hueShift_light = Num 5, hueShift_dark = Num (- 15), chromaBoost = Num 1.1,
                      lightEndChroma = Num 0.20, darkEndChroma = Num 0.40\<rparr>"

definition config_vivid :: mode_config where
  "config_vivid = \<lparr>hueShift_light = Num 3, hueShift_dark = Num (- 10), chromaBoost = Num 1.4,
                    lightEndChroma = Num 0.35, darkEndChroma = Num 0.55\<rparr>"

text \<open>
  \<^verbatim>\<open>MODE_CONFIG\<close> is an object literal, so \<^verbatim>\<open>MODE_CONFIG[mode]\<close> finds its three own
  properties and, through the prototype chain, the members every object inherits from
  \<^verbatim>\<open>Object.prototype\<close>. An inherited member is a function (or the prototype object):
  it is truthy and has no \<^verbatim>\<open>hueShift\<close>.
\<close>

datatype mode_entry = ModeConfig mode_config | Inherited

definition Object_prototype_members :: "string list" where
  "Object_prototype_members =
     [''constructor'', ''__proto__'', ''hasOwnProperty'', ''isPrototypeOf'',
      ''propertyIsEnumerable'', ''toLocaleString'', ''toString'', ''valueOf'',
      ''__defineGetter__'', ''__defineSetter__'', ''__lookupGetter__'', ''__lookupSetter__'']"

definition MODE_CONFIG :: "string \<Rightarrow> mode_entry option" where
  "MODE_CONFIG k =
     (if k = ''fixed'' then Some (ModeConfig config_fixed)
      else if k = ''natural'' then Some (ModeConfig config_natural)
      else if k = ''vivid'' then Some (ModeConfig config_vivid)
      else if k \<in> set Object_prototype_members then Some Inherited
      else None)"

section \<open>Parsing\<close>

definition srgbToLinear :: "jsnum \<Rightarrow> jsnum" where
  "srgbToLinear c =
     (if c \<le> Num 0.04045 then c / Num 12.92
      else Math_pow ((c + Num 0.055) / Num 1.055) (Num 2.4))"

definition linearToSrgb :: "jsnum \<Rightarrow> jsnum" where
  "linearToSrgb c =
     (if c \<le> Num 0.0031308 then Num 12.92 * c
      else Num 1.055 * Math_pow c (Num 1 / Num 2.4) - Num 0.055)"

definition rgbValuesToOklch :: "jsnum \<Rightarrow> jsnum \<Rightarrow> jsnum \<Rightarrow> oklch" where
  "rgbValuesToOklch r0 g0 b0 =
     (let r = srgbToLinear (r0 / Num 255);
          g = srgbToLinear (g0 / Num 255);
          b = srgbToLinear (b0 / Num 255);
          lms_l = Num 0.4122214708 * r + Num 0.5363325363 * g + Num 0.0514459929 * b;
          lms_m = Num 0.2119034982 * r + Num 0.6806995451 * g + Num 0.1073969566 * b;
          lms_s = Num 0.0883024619 * r + Num 0.2817188376 * g + Num 0.6299787005 * b;
          l = Math_cbrt lms_l;
          m = Math_cbrt lms_m;
          s = Math_cbrt lms_s;
          L = Num 0.2104542553 * l + Num 0.7936177850 * m - Num 0.0040720468 * s;
          a = Num 1.9779984951 * l - Num 2.4285922050 * m + Num 0.4505937099 * s;
          bLab = Num 0.0259040371 * l + Num 0.7827717662 * m - Num 0.8086757660 * s;
          C = Math_sqrt (a * a + bLab * bLab);
          H0 = Math_atan2 bLab a * (Num 180 / Math_PI);
          H = (if H0 < Num 0 then H0 + Num 360 else H0)
      in \<lparr>ok_l = L, ok_c = C, ok_h = H\<rparr>)"

definition parseOklch :: "string \<Rightarrow> error + oklch" where
  "parseOklch str =
     (case regex_match re_oklch str of
        None \<Rightarrow> Inl InvalidOklch
      | Some m \<Rightarrow>
          (let l0 = parseFloat (capture_text m 1);
               l = (if capture m 2 = Some ''%'' then l0 / Num 100 else l0);
               c = parseFloat (capture_text m 3);
               h = parseFloat (capture_text m 4)
           in Inr \<lparr>ok_l = l, ok_c = c, ok_h = h\<rparr>))"

text \<open>\<^verbatim>\<open>hex.replace('#', '')\<close> removes the first \<^verbatim>\<open>#\<close> only.\<close>

definition hexToRgb :: "string \<Rightarrow> rgb" where
  "hexToRgb hex =
     (let h0 = remove1 CHR ''#'' hex;
          h1 = (if length h0 = 3
                then [h0 ! 0, h0 ! 0, h0 ! 1, h0 ! 1, h0 ! 2, h0 ! 2] else h0);
          h2 = (if length h1 = 4
                then [h1 ! 0, h1 ! 0, h1 ! 1, h1 ! 1, h1 ! 2, h1 ! 2, h1 ! 3, h1 ! 3] else h1);
          num = toInt32 (parseInt (take 6 h2) 16)
      in \<lparr>rgb_r = shift_and_255 num 16, rgb_g = shift_and_255 num 8, rgb_b = shift_and_255 num 0\<rparr>)"

definition hexToOklch :: "string \<Rightarrow> oklch" where
  "hexToOklch hex = (let c = hexToRgb hex in rgbValuesToOklch (rgb_r c) (rgb_g c) (rgb_b c))"

definition rgbToOklch :: "string \<Rightarrow> error + oklch" where
  "rgbToOklch str =
     (case regex_match re_rgb str of
        None \<Rightarrow> Inl InvalidRgb
      | Some m \<Rightarrow>
          Inr (rgbValuesToOklch (parseFloat (capture_text m 1)) (parseFloat (capture_text m 2))
                 (parseFloat (capture_text m 3))))"

definition hueToRgb :: "jsnum \<Rightarrow> jsnum \<Rightarrow> jsnum \<Rightarrow> jsnum" where
  "hueToRgb p q t0 =
     (let t1 = (if t0 < Num 0 then t0 + Num 1 else t0);
          t = (if Num 1 < t1 then t1 - Num 1 else t1)
      in if t < Num 1 / Num 6 then p + (q - p) * Num 6 * t
         else if t < Num 1 / Num 2 then q
         else if t < Num 2 / Num 3 then p + (q - p) * (Num 2 / Num 3 - t) * Num 6
         else p)"

definition hslToRgb :: "jsnum \<Rightarrow> jsnum \<Rightarrow> jsnum \<Rightarrow> rgb" where
  "hslToRgb h s l =
     (let hue = h / Num 360
      in if s = Num 0 then \<lparr>rgb_r = l, rgb_g = l, rgb_b = l\<rparr>
         else (let q = (if l < Num 0.5 then l * (Num 1 + s) else l + s - l * s);
                   p = Num 2 * l - q
               in \<lparr>rgb_r = hueToRgb p q (hue + Num 1 / Num 3),
                   rgb_g = hueToRgb p q hue,
                   rgb_b = hueToRgb p q (hue - Num 1 / Num 3)\<rparr>))"

definition hslToOklch :: "string \<Rightarrow> error + oklch" where
  "hslToOklch str =
     (case regex_match re_hsl str of
        None \<Rightarrow> Inl InvalidHsl
      | Some m \<Rightarrow>
          (let h = parseFloat (capture_text m 1);
               s = parseFloat (capture_text m 3) / Num 100;
               l = parseFloat (capture_text m 4) / Num 100;
               c = hslToRgb h s l
           in Inr (rgbValuesToOklch (rgb_r c * Num 255) (rgb_g c * Num 255) (rgb_b c * Num 255))))"

definition parseColor :: "jsval \<Rightarrow> error + oklch" where
  "parseColor color =
     (if \<not> truthy color \<or> \<not> is_string color then Inl InvalidColor
      else (case color of
              JString text \<Rightarrow>
                (let trimmed = toLowerCase (trim text)
                 in if startsWith trimmed ''oklch('' then parseOklch trimmed
                    else if startsWith trimmed ''#'' then Inr (hexToOklch trimmed)
                    else if startsWith trimmed ''rgb'' then rgbToOklch trimmed
                    else if startsWith trimmed ''hsl'' then hslToOklch trimmed
                    else if regex_test re_hex trimmed then Inr (hexToOklch (''#'' @ trimmed))
                    else Inl UnsupportedFormat)
            | _ \<Rightarrow> Inl InvalidColor))"

definition isValidColor :: "jsval \<Rightarrow> bool" where
  "isValidColor color = (case parseColor color of Inl e \<Rightarrow> False | Inr c \<Rightarrow> True)"

section \<open>Conversion to RGB and gamut mapping\<close>

text \<open>
  \<^verbatim>\<open>oklchToRgb\<close> in three parts: the linear RGB channels, the gamma curve with the clamp
  and the scaling to 0..255 (the value each channel has before \<^verbatim>\<open>Math.round\<close>), and the
  rounding.
\<close>

definition oklchToLinearRgb :: "jsnum \<Rightarrow> jsnum \<Rightarrow> jsnum \<Rightarrow> rgb" where
  "oklchToLinearRgb l c h =
     (let hRad = h * (Math_PI / Num 180);
          a = c * Math_cos hRad;
          bLab = c * Math_sin hRad;
          lms_l = l + Num 0.3963377774 * a + Num 0.2158037573 * bLab;
          lms_m = l - Num 0.1055613458 * a - Num 0.0638541728 * bLab;
          lms_s = l - Num 0.0894841775 * a - Num 1.2914855480 * bLab;
          lCubed = lms_l * lms_l * lms_l;
          mCubed = lms_m * lms_m * lms_m;
          sCubed = lms_s * lms_s * lms_s
      in \<lparr>rgb_r = Num 4.0767416621 * lCubed - Num 3.3077115913 * mCubed + Num 0.2309699292 * sCubed,
          rgb_g = Num (- 1.2684380046) * lCubed + Num 2.6097574011 * mCubed - Num 0.3413193965 * sCubed,
          rgb_b = Num (- 0.0041960863) * lCubed - Num 0.7034186147 * mCubed + Num 1.7076147010 * sCubed\<rparr>)"

definition srgb_channel :: "jsnum \<Rightarrow> jsnum" where
  "srgb_channel x = Math_max (Num 0) (Math_min (Num 1) (linearToSrgb x)) * Num 255"

definition oklchToRgb :: "jsnum \<Rightarrow> jsnum \<Rightarrow> jsnum \<Rightarrow> rgb" where
  "oklchToRgb l c h =
     (let lin = oklchToLinearRgb l c h
      in \<lparr>rgb_r = Math_round (srgb_channel (rgb_r lin)),
          rgb_g = Math_round (srgb_channel (rgb_g lin)),
          rgb_b = Math_round (srgb_channel (rgb_b lin))\<rparr>)"

definition inGamut :: "jsnum \<Rightarrow> jsnum \<Rightarrow> jsnum \<Rightarrow> bool" where
  "inGamut r g b =
     (Num (- 0.5) \<le> r \<and> r \<le> Num 255.5 \<and> Num (- 0.5) \<le> g \<and> g \<le> Num 255.5 \<and>
      Num (- 0.5) \<le> b \<and> b \<le> Num 255.5)"

text \<open>
  The binary search of \<^verbatim>\<open>findMaxChroma\<close>: the state is \<open>(minC, maxC, bestC)\<close>, the step is
  the body of the \<^verbatim>\<open>for\<close> loop, and the loop counts \<open>i\<close> from 0 while \<open>i < 8\<close>.
\<close>

type_synonym search_state = "jsnum \<times> jsnum \<times> jsnum"

definition findMaxChroma_step :: "jsnum \<Rightarrow> jsnum \<Rightarrow> search_state \<Rightarrow> search_state" where
  "findMaxChroma_step l h st =
     (case st of (minC, maxC, bestC) \<Rightarrow>
        (let midC = (minC + maxC) / Num 2;
             c = oklchToRgb l midC h
         in if inGamut (rgb_r c) (rgb_g c) (rgb_b c) then (midC, maxC, midC)
            else (minC, midC, bestC)))"

function findMaxChroma_loop :: "jsnum \<Rightarrow> jsnum \<Rightarrow> nat \<Rightarrow> search_state \<Rightarrow> search_state" where
  "findMaxChroma_loop l h i st =
     (if i < 8 then findMaxChroma_loop l h (Suc i) (findMaxChroma_step l h st) else st)"
  by pat_completeness auto
termination
  by (relation "measure (\<lambda>(l, h, i, st). 8 - i)") auto

definition findMaxChroma :: "jsnum \<Rightarrow> jsnum \<Rightarrow> jsnum \<Rightarrow> jsnum" where
  "findMaxChroma l h idealC =
     (case findMaxChroma_loop l h 0 (Num 0, idealC, Num 0) of (minC, maxC, bestC) \<Rightarrow> bestC)"

section \<open>Curves and formatting\<close>

definition quadBezier :: "jsnum \<Rightarrow> jsnum \<Rightarrow> jsnum \<Rightarrow> jsnum \<Rightarrow> jsnum" where
  "quadBezier a control b t =
     (let mt = Num 1 - t in mt * mt * a + Num 2 * mt * t * control + t * t * b)"

definition lerp :: "jsnum \<Rightarrow> jsnum \<Rightarrow> jsnum \<Rightarrow> jsnum" where
  "lerp a b t = a + (b - a) * t"

definition normalizeHue :: "jsnum \<Rightarrow> jsnum" where
  "normalizeHue h = (let h1 = js_rem h (Num 360) in if h1 < Num 0 then h1 + Num 360 else h1)"

definition isWarmColor :: "jsnum \<Rightarrow> bool" where
  "isWarmColor h = ((Num 0 \<le> h \<and> h < Num 120) \<or> Num 300 < h)"

definition formatOklch :: "jsnum \<Rightarrow> jsnum \<Rightarrow> jsnum \<Rightarrow> string" where
  "formatOklch l c h =
     ''oklch('' @ toFixed (l * Num 100) 1 @ ''% '' @ toFixed c 4 @ '' '' @ toFixed h 1 @ '')''"

definition toHex :: "jsnum \<Rightarrow> string" where
  "toHex n = padStart 2 CHR ''0'' (toString16 n)"

definition formatHex :: "jsnum \<Rightarrow> jsnum \<Rightarrow> jsnum \<Rightarrow> string" where
  "formatHex r g b = ''#'' @ toHex r @ toHex g @ toHex b"

definition formatHexFromOklch :: "oklch \<Rightarrow> string" where
  "formatHexFromOklch col =
     (let c = oklchToRgb (ok_l col) (ok_c col) (ok_h col)
      in formatHex (rgb_r c) (rgb_g c) (rgb_b c))"

section \<open>Shade generation\<close>

text \<open>A ramp is the object the generator fills: shade level to colour text.\<close>

type_synonym shade_ramp = "nat \<rightharpoonup> string"

text \<open>The target lightness of a level in \<^verbatim>\<open>generateFixedShades\<close>.\<close>

definition fixed_targetL :: "bool \<Rightarrow> oklch \<Rightarrow> nat \<Rightarrow> jsnum" where
  "fixed_targetL smart base level =
     (if smart then
        (if level < 500
         then ok_l base + RELATIVE_POSITION level * (LIGHTNESS_MAP 50 - ok_l base)
         else ok_l base - RELATIVE_POSITION level * (ok_l base - LIGHTNESS_MAP 950))
      else LIGHTNESS_MAP level)"

text \<open>
  The lightness \<^verbatim>\<open>generateFixedShades\<close> formats at a level when \<^verbatim>\<open>exactMatch\<close> is not
  \<^verbatim>\<open>false\<close>: the input's own at level 500, the redistributed target at the other levels.
\<close>

definition shade_lightness :: "oklch \<Rightarrow> nat \<Rightarrow> jsnum" where
  "shade_lightness base level =
     (if level = 500 then ok_l base else fixed_targetL True base level)"

text \<open>The body of the loop of \<^verbatim>\<open>generateFixedShades\<close>: the text stored at a level.\<close>

definition fixed_shade :: "oklch \<Rightarrow> string \<Rightarrow> jsval \<Rightarrow> bool \<Rightarrow> nat \<Rightarrow> string" where
  "fixed_shade base originalColor format smart level =
     (if smart \<and> level = 500 then
        (if format = JString ''hex''
         then (if startsWith originalColor ''#'' then originalColor else formatHexFromOklch base)
         else formatOklch (ok_l base) (ok_c base) (ok_h base))
      else
        (let targetL = fixed_targetL smart base level;
             chromaScale = CHROMA_SCALE level;
             targetC = ok_c base * chromaScale;
             safeC = findMaxChroma targetL (ok_h base) targetC
         in if format = JString ''hex''
            then (let c = oklchToRgb targetL safeC (ok_h base)
                  in formatHex (rgb_r c) (rgb_g c) (rgb_b c))
            else formatOklch targetL safeC (ok_h base)))"

definition generateFixedShades :: "oklch \<Rightarrow> string \<Rightarrow> jsval \<Rightarrow> jsval \<Rightarrow> shade_ramp" where
  "generateFixedShades base originalColor format exactMatch =
     (let smart = (exactMatch \<noteq> JBool False)
      in fold (\<lambda>level shades. shades(level \<mapsto> fixed_shade base originalColor format smart level))
           SHADE_LEVELS Map.empty)"

text \<open>
  The body of the loop of \<^verbatim>\<open>generateEnhancedShades\<close>, for index \<open>i\<close> and its level;
  \<open>lightEnd\<close>, \<open>darkEnd\<close> and \<open>peakChroma\<close> are computed before the loop.
\<close>

definition enhanced_shade ::
  "oklch \<Rightarrow> string \<Rightarrow> jsval \<Rightarrow> jsval \<Rightarrow> oklch \<Rightarrow> oklch \<Rightarrow> jsnum \<Rightarrow> nat \<Rightarrow> nat \<Rightarrow> string" where
  "enhanced_shade base originalColor format exactMatch lightEnd darkEnd peakChroma i level =
     (if exactMatch \<noteq> JBool False \<and> level = 500 then
        (if format = JString ''hex''
         then (if startsWith originalColor ''#'' then originalColor else formatHexFromOklch base)
         else formatOklch (ok_l base) (ok_c base) (ok_h base))
      else
        (let target =
               (if i \<le> 5 then
                  (let t = Num (real i) / Num 5;
                       controlC = (ok_c lightEnd + peakChroma) / Num 2
                   in \<lparr>ok_l = lerp (ok_l lightEnd) (ok_l base) t,
                       ok_c = quadBezier (ok_c lightEnd) controlC peakChroma t,
                       ok_h = lerp (ok_h lightEnd) (ok_h base) t\<rparr>)
                else
                  (let t = (Num (real i) - Num 5) / Num 5;
                       controlC = (peakChroma + ok_c darkEnd) / Num 2
                   in \<lparr>ok_l = lerp (ok_l base) (ok_l darkEnd) t,
                       ok_c = quadBezier peakChroma controlC (ok_c darkEnd) t,
                       ok_h = lerp (ok_h base) (ok_h darkEnd) t\<rparr>));
             targetL = ok_l target;
             targetC = ok_c target;
             targetH = normalizeHue (ok_h target);
             safeC = findMaxChroma targetL targetH targetC
         in if format = JString ''hex''
            then (let c = oklchToRgb targetL safeC targetH
                  in formatHex (rgb_r c) (rgb_g c) (rgb_b c))
            else formatOklch targetL safeC targetH))"

text \<open>
  \<^verbatim>\<open>generateEnhancedShades\<close> reads \<^verbatim>\<open>config.hueShift.light\<close> first: on an inherited
  member \<^verbatim>\<open>config.hueShift\<close> is \<^verbatim>\<open>undefined\<close> and the read throws a \<^verbatim>\<open>TypeError\<close>.
\<close>

definition generateEnhancedShades ::
  "oklch \<Rightarrow> string \<Rightarrow> jsval \<Rightarrow> mode_entry \<Rightarrow> jsval \<Rightarrow> error + shade_ramp" where
  "generateEnhancedShades base originalColor format config exactMatch =
     (case config of
        Inherited \<Rightarrow> Inl TypeError
      | ModeConfig cfg \<Rightarrow>
          (let isWarm = isWarmColor (ok_h base);
               hueShiftLight = (if isWarm then hueShift_light cfg else - hueShift_light cfg);
               hueShiftDark = (if isWarm then hueShift_dark cfg else - hueShift_dark cfg);
               lightEnd = \<lparr>ok_l = LIGHTNESS_MAP 50, ok_c = ok_c base * lightEndChroma cfg,
                           ok_h = normalizeHue (ok_h base + hueShiftLight)\<rparr>;
               darkEnd = \<lparr>ok_l = LIGHTNESS_MAP 950, ok_c = ok_c base * darkEndChroma cfg,
                          ok_h = normalizeHue (ok_h base + hueShiftDark)\<rparr>;
               peakChroma = ok_c base * chromaBoost cfg
           in Inr (fold (\<lambda>(i, level) shades.
                           shades(level \<mapsto> enhanced_shade base originalColor format exactMatch
                                              lightEnd darkEnd peakChroma i level))
                     (zip [0..<length SHADE_LEVELS] SHADE_LEVELS) Map.empty)))"

text \<open>
  \<^verbatim>\<open>MODE_CONFIG[mode]\<close> for the \<open>mode\<close> of the options: a mode that is not a string is
  converted to a property key (digits, \<^verbatim>\<open>null\<close>, \<^verbatim>\<open>true\<close>, \<^verbatim>\<open>[object Object]\<close>), which
  names no member.
\<close>

definition mode_entry_of :: "jsval \<Rightarrow> mode_entry option" where
  "mode_entry_of mode = (case mode of JString k \<Rightarrow> MODE_CONFIG k | _ \<Rightarrow> None)"

definition string_of :: "jsval \<Rightarrow> string" where
  "string_of v = (case v of JString s \<Rightarrow> s | _ \<Rightarrow> [])"

text \<open>
  \<^verbatim>\<open>generateShades(color, options)\<close>; \<open>options\<close> is the list of properties of the options
  object. After \<^verbatim>\<open>parseColor\<close> has returned, \<open>color\<close> is a string.
\<close>

definition generateShades :: "jsval \<Rightarrow> (string \<times> jsval) list \<Rightarrow> error + shade_ramp" where
  "generateShades color options =
     (let format = with_default (lookup_prop options ''format'') (JString ''oklch'');
          mode = with_default (lookup_prop options ''mode'') (JString ''fixed'');
          exactMatch = lookup_prop options ''exactMatch''
      in case parseColor color of
           Inl e \<Rightarrow> Inl e
         | Inr base \<Rightarrow>
             (let config = (case mode_entry_of mode of Some e \<Rightarrow> e
                            | None \<Rightarrow> ModeConfig config_fixed)
              in if mode = JString ''fixed''
                 then Inr (generateFixedShades base (string_of color) format exactMatch)
                 else generateEnhancedShades base (string_of color) format config exactMatch))"

section \<open>Palettes\<close>

text \<open>An entry of the result: a generated ramp, or the caller's object passed through.\<close>

datatype palette = Shades shade_ramp | PassThrough jsval

definition has_numeric_key :: "jsval \<Rightarrow> bool" where
  "has_numeric_key v =
     (case v of JObject ps \<Rightarrow> list_ex (\<lambda>k. parseInt k 0 \<noteq> NaN) (map fst ps) | _ \<Rightarrow> False)"

text \<open>\<^verbatim>\<open>const { base, ...colorOptions } = colorConfig\<close>\<close>

definition rest_without_base :: "jsval \<Rightarrow> (string \<times> jsval) list" where
  "rest_without_base v =
     (case v of JObject ps \<Rightarrow> filter (\<lambda>kv. fst kv \<noteq> ''base'') ps | _ \<Rightarrow> [])"

text \<open>
  \<^verbatim>\<open>{ ...options, ...colorOptions }\<close>: a lookup finds the first entry of a key, so the
  properties of \<open>colorOptions\<close> come first.
\<close>

definition spread :: "(string \<times> jsval) list \<Rightarrow> (string \<times> jsval) list \<Rightarrow> (string \<times> jsval) list" where
  "spread options colorOptions = colorOptions @ options"

text \<open>The body of the loop of \<^verbatim>\<open>generatePalettes\<close> for one entry of \<open>colors\<close>.\<close>

definition palette_entry ::
  "(string \<times> jsval) list \<Rightarrow> string \<times> jsval \<Rightarrow> (string \<rightharpoonup> palette) \<Rightarrow> error + (string \<rightharpoonup> palette)" where
  "palette_entry options entry palettes =
     (case entry of (name, colorConfig) \<Rightarrow>
        (if is_object colorConfig \<and> \<not> truthy (get_prop colorConfig ''base'') \<and>
            has_numeric_key colorConfig
         then Inr (palettes(name \<mapsto> PassThrough colorConfig))
         else if is_object colorConfig \<and> truthy (get_prop colorConfig ''base'')
         then (case generateShades (get_prop colorConfig ''base'')
                      (spread options (rest_without_base colorConfig)) of
                 Inl e \<Rightarrow> Inl e
               | Inr shades \<Rightarrow> Inr (palettes(name \<mapsto> Shades shades)))
         else if is_string colorConfig
         then (case generateShades colorConfig options of
                 Inl e \<Rightarrow> Inl e
               | Inr shades \<Rightarrow> Inr (palettes(name \<mapsto> Shades shades)))
         else Inr palettes))"

fun palettes_loop ::
  "(string \<times> jsval) list \<Rightarrow> (string \<times> jsval) list \<Rightarrow> (string \<rightharpoonup> palette) \<Rightarrow> error + (string \<rightharpoonup> palette)" where
  "palettes_loop options [] palettes = Inr palettes"
| "palettes_loop options (entry # entries) palettes =
     (case palette_entry options entry palettes of
        Inl e \<Rightarrow> Inl e
      | Inr palettes' \<Rightarrow> palettes_loop options entries palettes')"

definition generatePalettes ::
  "(string \<times> jsval) list \<Rightarrow> (string \<times> jsval) list \<Rightarrow> error + (string \<rightharpoonup> palette)" where
  "generatePalettes colors options = palettes_loop options colors Map.empty"

definition getShadeLevels :: "nat list" where
  "getShadeLevels = SHADE_LEVELS"

section \<open>Predicates on colour text\<close>

text \<open>Three to eight hexadecimal digits, of either case, and nothing else.\<close>

definition hex_digits_3_to_8 :: "string \<Rightarrow> bool" where
  "hex_digits_3_to_8 t = (3 \<le> length t \<and> length t \<le> 8 \<and> list_all (\<lambda>c. c \<in> set cls_hex_i) t)"

text \<open>
  The notations as the specification lists them: hex of exactly 3, 4, 6 or 8 hex digits,
  with or without a leading \<^verbatim>\<open>#\<close>, and the \<^verbatim>\<open>rgb()\<close>/\<^verbatim>\<open>rgba()\<close>, \<^verbatim>\<open>hsl()\<close>/\<^verbatim>\<open>hsla()\<close> and
  \<^verbatim>\<open>oklch()\<close> forms (a text with that prefix that holds a match of the form's pattern).
\<close>

definition spec_hex_text :: "string \<Rightarrow> bool" where
  "spec_hex_text t =
     (let ds = (if startsWith t ''#'' then drop 1 t else t)
      in (length ds = 3 \<or> length ds = 4 \<or> length ds = 6 \<or> length ds = 8) \<and>
         list_all (\<lambda>c. c \<in> set cls_hex_i) ds)"

definition spec_recognized :: "string \<Rightarrow> bool" where
  "spec_recognized t =
     (spec_hex_text t \<or>
      (startsWith t ''rgb'' \<and> regex_match re_rgb t \<noteq> None) \<or>
      (startsWith t ''hsl'' \<and> regex_match re_hsl t \<noteq> None) \<or>
      (startsWith t ''oklch('' \<and> regex_match re_oklch t \<noteq> None))"

text \<open>The hex output format: \<^verbatim>\<open>#\<close> and six lower-case hexadecimal digits.\<close>

definition is_hex6 :: "string \<Rightarrow> bool" where
  "is_hex6 s =
     (case s of
        [] \<Rightarrow> False
      | c # ds \<Rightarrow> c = CHR ''#'' \<and> length ds = 6 \<and> list_all (\<lambda>d. d \<in> set ''0123456789abcdef'') ds)"

section \<open>Arithmetic on numbers\<close>

lemma Num_plus [simp]: "Num x + Num y = Num (x + y)"
  by (simp add: plus_jsnum_def)

lemma Num_minus [simp]: "Num x - Num y = Num (x - y)"
  by (simp add: minus_jsnum_def)

lemma Num_times [simp]: "Num x * Num y = Num (x * y)"
  by (simp add: times_jsnum_def)

lemma Num_divide [simp]: "y \<noteq> 0 \<Longrightarrow> Num x / Num y = Num (x / y)"
  by (simp add: divide_jsnum_def)

lemma Num_uminus [simp]: "- Num x = Num (- x)"
  by (simp add: uminus_jsnum_def)

lemma Num_less [simp]: "(Num x < Num y) = (x < y)"
  by (simp add: less_jsnum_def)

lemma Num_le [simp]: "(Num x \<le> Num y) = (x \<le> y)"
  by (simp add: less_eq_jsnum_def)

lemma NaN_arith [simp]:
  "NaN + a = NaN" "a + NaN = NaN" "NaN - a = NaN" "a - NaN = NaN"
  "NaN * a = NaN" "a * NaN = NaN" "NaN / a = NaN" "a / NaN = NaN" "- NaN = NaN"
  by (simp_all add: plus_jsnum_def minus_jsnum_def times_jsnum_def divide_jsnum_def
      uminus_jsnum_def split: jsnum.splits)

lemma NaN_compare [simp]:
  "\<not> NaN < a" "\<not> a < NaN" "\<not> NaN \<le> a" "\<not> a \<le> NaN"
  by (simp_all add: less_jsnum_def less_eq_jsnum_def split: jsnum.splits)

section \<open>The gamut search\<close>

text \<open>
  \<^verbatim>\<open>oklchToRgb\<close> clamps every channel into \<open>[0, 1]\<close> before it scales and rounds, so the
  channels it returns are integers from 0 to 255 and \<^verbatim>\<open>inGamut\<close> holds of them whatever
  the chroma is. The search therefore moves \<open>minC\<close> up in each of its eight steps.
\<close>

lemma linearToSrgb_Num:
  "linearToSrgb (Num x) =
     Num (if x \<le> 0.0031308 then 12.92 * x else 1.055 * x powr (1 / 2.4) - 0.055)"
  by (simp add: linearToSrgb_def Math_pow_def)

lemma linearToSrgb_NaN [simp]: "linearToSrgb NaN = NaN"
  by (simp add: linearToSrgb_def Math_pow_def)

lemma srgb_channel_Num: "\<exists>y. srgb_channel (Num x) = Num y \<and> 0 \<le> y \<and> y \<le> 255"
proof -
  obtain z where z: "linearToSrgb (Num x) = Num z"
    using linearToSrgb_Num by simp
  show ?thesis
    by (simp add: srgb_channel_def z Math_max_def Math_min_def)
qed

lemma srgb_channel_NaN [simp]: "srgb_channel NaN = NaN"
  by (simp add: srgb_channel_def Math_max_def Math_min_def)

lemma round_channel_Num:
  "\<exists>n. Math_round (srgb_channel (Num x)) = Num (real n) \<and> n \<le> 255"
proof -
  obtain y where y: "srgb_channel (Num x) = Num y" "0 \<le> y" "y \<le> 255"
    using srgb_channel_Num by blast
  have "0 \<le> \<lfloor>y + 1 / 2\<rfloor>" using y by simp
  moreover have "\<lfloor>y + 1 / 2\<rfloor> \<le> 255" using y by (simp add: floor_le_iff)
  ultimately have "real (nat \<lfloor>y + 1 / 2\<rfloor>) = of_int \<lfloor>y + 1 / 2\<rfloor>" "nat \<lfloor>y + 1 / 2\<rfloor> \<le> 255"
    by linarith+
  then show ?thesis
    using y by (intro exI[of _ "nat \<lfloor>y + 1 / 2\<rfloor>"]) (simp add: Math_round_def)
qed

lemma oklchToLinearRgb_Num:
  "\<exists>r g b. oklchToLinearRgb (Num l) (Num c) (Num h) = \<lparr>rgb_r = Num r, rgb_g = Num g, rgb_b = Num b\<rparr>"
  by (simp add: oklchToLinearRgb_def Math_PI_def Math_cos_def Math_sin_def Let_def)


lemma oklchToRgb_Num:
  "\<exists>r g b. oklchToRgb (Num l) (Num c) (Num h) =
             \<lparr>rgb_r = Num (real r), rgb_g = Num (real g), rgb_b = Num (real b)\<rparr> \<and>
           r \<le> 255 \<and> g \<le> 255 \<and> b \<le> 255"
proof -
  obtain x y z where lin:
    "oklchToLinearRgb (Num l) (Num c) (Num h) = \<lparr>rgb_r = Num x, rgb_g = Num y, rgb_b = Num z\<rparr>"
    using oklchToLinearRgb_Num by blast
  obtain r where r: "Math_round (srgb_channel (Num x)) = Num (real r)" "r \<le> 255"
    using round_channel_Num by blast
  obtain g where g: "Math_round (srgb_channel (Num y)) = Num (real g)" "g \<le> 255"
    using round_channel_Num by blast
  obtain b where b: "Math_round (srgb_channel (Num z)) = Num (real b)" "b \<le> 255"
    using round_channel_Num by blast
  show ?thesis
    using r g b by (simp add: oklchToRgb_def lin)
qed

lemma inGamut_oklchToRgb_Num:
  "inGamut (rgb_r (oklchToRgb (Num l) (Num c) (Num h))) (rgb_g (oklchToRgb (Num l) (Num c) (Num h)))
     (rgb_b (oklchToRgb (Num l) (Num c) (Num h)))"
proof -
  obtain r g b where
    "oklchToRgb (Num l) (Num c) (Num h) =
       \<lparr>rgb_r = Num (real r), rgb_g = Num (real g), rgb_b = Num (real b)\<rparr>"
    "r \<le> 255" "g \<le> 255" "b \<le> 255"
    using oklchToRgb_Num by blast
  then show ?thesis
    by (simp add: inGamut_def)
qed

lemma oklchToRgb_NaN:
  "l = NaN \<or> c = NaN \<or> h = NaN \<Longrightarrow>
     oklchToRgb l c h = \<lparr>rgb_r = NaN, rgb_g = NaN, rgb_b = NaN\<rparr>"
  by (auto simp: oklchToRgb_def oklchToLinearRgb_def Let_def Math_cos_def Math_sin_def
      Math_round_def)

lemma findMaxChroma_step_Num:
  "findMaxChroma_step (Num l) (Num h) (Num a, Num b, best) =
     (Num ((a + b) / 2), Num b, Num ((a + b) / 2))"
  using inGamut_oklchToRgb_Num [of l "(a + b) / 2" h]
  by (simp add: findMaxChroma_step_def Let_def)

lemma findMaxChroma_step_NaN:
  "l = NaN \<or> h = NaN \<Longrightarrow>
     findMaxChroma_step l h (a, b, best) = (a, (a + b) / Num 2, best)"
proof -
  assume "l = NaN \<or> h = NaN"
  then have "l = NaN \<or> (a + b) / Num 2 = NaN \<or> h = NaN"
    by blast
  then have "oklchToRgb l ((a + b) / Num 2) h = \<lparr>rgb_r = NaN, rgb_g = NaN, rgb_b = NaN\<rparr>"
    by (rule oklchToRgb_NaN)
  then show ?thesis
    by (simp add: findMaxChroma_step_def Let_def inGamut_def)
qed

lemma findMaxChroma_loop_funpow:
  "findMaxChroma_loop l h i st = (findMaxChroma_step l h ^^ (8 - i)) st"
proof (induction l h i st rule: findMaxChroma_loop.induct)
  case (1 l h i st)
  show ?case
  proof (cases "i < 8")
    case True
    then have "8 - i = Suc (8 - Suc i)" by simp
    with 1 True show ?thesis
      by (simp add: funpow_swap1 del: findMaxChroma_loop.simps)
         (subst findMaxChroma_loop.simps, simp add: funpow_swap1)
  next
    case False
    then show ?thesis by simp
  qed
qed

lemma funpow_step_Num:
  "(findMaxChroma_step (Num l) (Num h) ^^ n) (Num a, Num b, Num c) =
     (Num (b - (b - a) / 2 ^ n), Num b, Num (if n = 0 then c else b - (b - a) / 2 ^ n))"
proof (induction n)
  case 0
  then show ?case by simp
next
  case (Suc n)
  show ?case
    by (simp add: Suc findMaxChroma_step_Num field_simps)
qed

lemma funpow_step_NaN:
  "l = NaN \<or> h = NaN \<Longrightarrow>
     snd (snd ((findMaxChroma_step l h ^^ n) (a, b, best))) = best"
proof (induction n arbitrary: a b)
  case 0
  then show ?case by simp
next
  case (Suc n)
  then show ?case
    by (simp add: funpow_swap1 findMaxChroma_step_NaN)
qed

lemma findMaxChroma_Num:
  "findMaxChroma (Num l) (Num h) (Num d) = Num (d * 255 / 256)"
  by (simp add: findMaxChroma_def findMaxChroma_loop_funpow funpow_step_Num
      del: findMaxChroma_loop.simps)

lemma findMaxChroma_NaN:
  assumes "l = NaN \<or> h = NaN"
  shows "findMaxChroma l h d = Num 0"
proof -
  have "snd (snd ((findMaxChroma_step l h ^^ 8) (Num 0, d, Num 0))) = Num 0"
    using assms by (rule funpow_step_NaN)
  then show ?thesis
    by (cases "(findMaxChroma_step l h ^^ 8) (Num 0, d, Num 0)")
       (simp add: findMaxChroma_def findMaxChroma_loop_funpow del: findMaxChroma_loop.simps)
qed


text \<open>
  For a desired chroma \<open>d \<ge> 0\<close> and any lightness and hue, \<^verbatim>\<open>findMaxChroma\<close> is the result
  of exactly eight steps of the binary search started at \<open>(0, d, 0)\<close>, and it returns a
  number \<open>c\<close> with \<open>0 \<le> c \<le> d\<close>.
\<close>

theorem findMaxChroma_range:
  assumes "0 \<le> d"
  shows "findMaxChroma l h (Num d) =
           snd (snd ((findMaxChroma_step l h ^^ 8) (Num 0, Num d, Num 0))) \<and>
         (\<exists>c. findMaxChroma l h (Num d) = Num c \<and> 0 \<le> c \<and> c \<le> d)"
proof
  show "findMaxChroma l h (Num d) =
          snd (snd ((findMaxChroma_step l h ^^ 8) (Num 0, Num d, Num 0)))"
    by (cases "(findMaxChroma_step l h ^^ 8) (Num 0, Num d, Num 0)")
       (simp add: findMaxChroma_def findMaxChroma_loop_funpow del: findMaxChroma_loop.simps)
next
  show "\<exists>c. findMaxChroma l h (Num d) = Num c \<and> 0 \<le> c \<and> c \<le> d"
  proof (cases "l = NaN \<or> h = NaN")
    case True
    then have "findMaxChroma l h (Num d) = Num 0"
      by (rule findMaxChroma_NaN)
    with assms show ?thesis by simp
  next
    case False
    then obtain l' h' where lh: "l = Num l'" "h = Num h'"
      by (cases l; cases h) auto
    have "findMaxChroma l h (Num d) = Num (d * 255 / 256)"
      by (simp add: lh findMaxChroma_Num)
    moreover have "0 \<le> d * 255 / 256" "d * 255 / 256 \<le> d"
      using assms by simp_all
    ultimately show ?thesis by blast
  qed
qed

theorem findMaxChroma_range_witness:
  "(0::real) \<le> 1 / 5 \<and>
   findMaxChroma (Num (1 / 2)) (Num 30) (Num (1 / 5)) =
     snd (snd ((findMaxChroma_step (Num (1 / 2)) (Num 30) ^^ 8) (Num 0, Num (1 / 5), Num 0))) \<and>
   (\<exists>c. findMaxChroma (Num (1 / 2)) (Num 30) (Num (1 / 5)) = Num c \<and> 0 \<le> c \<and> c \<le> 1 / 5)"
proof -
  have pos: "(0::real) \<le> 1 / 5" by simp
  show ?thesis
    using findMaxChroma_range [OF pos, of "Num (1 / 2)" "Num 30"] pos by blast
qed

lemma sixteen_quarter: "(16::real) powr (1 / 4) = 2"
proof -
  have "(2::real) powr 4 = 16"
    by simp
  then have "(16::real) powr (1 / 4) = (2 powr 4) powr (1 / 4)"
    by simp
  also have "\<dots> = 2 powr (4 * (1 / 4))"
    by (rule powr_powr)
  finally show ?thesis
    by simp
qed

lemma linearToSrgb_above:
  assumes "16 \<le> x"
  shows "\<exists>y. linearToSrgb (Num x) = Num y \<and> 2 \<le> y"
proof -
  have "(16::real) powr (1 / 4) \<le> 16 powr (1 / 2.4)"
    by (rule powr_mono) simp_all
  moreover have "(16::real) powr (1 / 2.4) \<le> x powr (1 / 2.4)"
    using assms by (intro powr_mono2) simp_all
  ultimately have "2 \<le> x powr (1 / 2.4)"
    using sixteen_quarter by simp
  then have "2 \<le> 1.055 * x powr (1 / 2.4) - 0.055"
    by simp
  moreover have "linearToSrgb (Num x) = Num (1.055 * x powr (1 / 2.4) - 0.055)"
    using assms by (simp add: linearToSrgb_Num)
  ultimately show ?thesis
    by blast
qed

text \<open>
  Claim C9 fails in its last part: the chroma that \<^verbatim>\<open>findMaxChroma\<close> returns need not be
  in the sRGB gamut. \<^verbatim>\<open>inGamut\<close> is applied to the channels that \<^verbatim>\<open>oklchToRgb\<close> has already
  clamped into \<open>[0, 1]\<close>, scaled and rounded, so it holds of every chroma. For lightness 0.5,
  hue 0 and a desired chroma of 10 the search returns 1275/128 (255/256 of what was
  asked); the linear red channel of that colour is some \<open>r\<close> whose gamma-encoded value scaled
  to 0..255, the channel before the clamp and the rounding, is above 255.5; the channel
  that \<^verbatim>\<open>inGamut\<close> sees is 255.
\<close>

theorem findMaxChroma_out_of_gamut:
  "findMaxChroma (Num (1 / 2)) (Num 0) (Num 10) = Num (1275 / 128) \<and>
   (\<exists>r v. rgb_r (oklchToLinearRgb (Num (1 / 2)) (Num (1275 / 128)) (Num 0)) = Num r \<and>
      linearToSrgb (Num r) * Num 255 = Num v \<and> 255.5 < v) \<and>
   rgb_r (oklchToRgb (Num (1 / 2)) (Num (1275 / 128)) (Num 0)) = Num 255 \<and>
   inGamut (rgb_r (oklchToRgb (Num (1 / 2)) (Num (1275 / 128)) (Num 0)))
     (rgb_g (oklchToRgb (Num (1 / 2)) (Num (1275 / 128)) (Num 0)))
     (rgb_b (oklchToRgb (Num (1 / 2)) (Num (1275 / 128)) (Num 0)))"
proof -
  define r :: real where
    "r = 24110782557462065343185284102912516440451793 / 67108864000000000000000000000000000000000"
  have red: "rgb_r (oklchToLinearRgb (Num (1 / 2)) (Num (1275 / 128)) (Num 0)) = Num r"
    by (simp add: oklchToLinearRgb_def Math_PI_def Math_cos_def Math_sin_def Let_def r_def)
  have "16 \<le> r"
    by (simp add: r_def)
  then obtain y where y: "linearToSrgb (Num r) = Num y" "2 \<le> y"
    using linearToSrgb_above by blast
  have scaled: "linearToSrgb (Num r) * Num 255 = Num (y * 255)" "255.5 < y * 255"
    using y by simp_all
  have "srgb_channel (Num r) = Num 255"
    using y by (simp add: srgb_channel_def Math_max_def Math_min_def)
  then have rounded: "rgb_r (oklchToRgb (Num (1 / 2)) (Num (1275 / 128)) (Num 0)) = Num 255"
    by (simp add: oklchToRgb_def Let_def red Math_round_def)
  have found: "findMaxChroma (Num (1 / 2)) (Num 0) (Num 10) = Num (1275 / 128)"
    by (simp add: findMaxChroma_Num)
  show ?thesis
    using found red scaled rounded inGamut_oklchToRgb_Num [of "1 / 2" "1275 / 128" 0] by blast
qed

section \<open>Evaluation and the shape of a ramp\<close>

text \<open>
  The recursive equations of the loops are unfolded on demand only. The lists below are
  the definitions that evaluate the string functions, the patterns and the number
  parsers on a literal.
\<close>

declare nat_digits.simps [simp del]
declare findMaxChroma_loop.simps [simp del]

lemmas string_eval =
  trim_def trimStart_def toLowerCase_def lower_char_def upper_case_def lower_case_def
  white_space_def startsWith_def

lemmas regex_eval =
  regex_match_def regex_test_def capture_def capture_text_def
  re_oklch_def re_rgb_def re_hsl_def re_hex_def star_def plus_def
  cls_space_def cls_num_def cls_sep_def cls_hex_i_def white_space_def startsWith_def

lemmas number_eval =
  parseFloat_def digit_value_def digits36_def digits_value_def lower_char_def upper_case_def
  lower_case_def startsWith_def Let_def

text \<open>
  Both generators store one entry per element of \<^verbatim>\<open>SHADE_LEVELS\<close>: the ramp is defined
  exactly on the eleven levels, and the entry of a level is the text the loop body
  computes for it.
\<close>

lemma level_pairs:
  "zip [0..<length SHADE_LEVELS] SHADE_LEVELS =
     [(0, 50), (1, 100), (2, 200), (3, 300), (4, 400), (5, 500), (6, 600), (7, 700), (8, 800),
      (9, 900), (10, 950)]"
  by (simp add: SHADE_LEVELS_def upt_rec)

lemma fold_update_lookup:
  "fold (\<lambda>k m. m(k \<mapsto> f k)) ks m0 k = (if k \<in> set ks then Some (f k) else m0 k)"
  by (induction ks arbitrary: m0) auto

lemma generateFixedShades_at:
  "generateFixedShades base originalColor format exactMatch level =
     (if level \<in> set SHADE_LEVELS
      then Some (fixed_shade base originalColor format (exactMatch \<noteq> JBool False) level)
      else None)"
  by (simp add: generateFixedShades_def fold_update_lookup)

lemma dom_generateFixedShades:
  "dom (generateFixedShades base originalColor format exactMatch) = set SHADE_LEVELS"
  by (auto simp: generateFixedShades_at dom_def)

lemma generateEnhancedShades_Inherited:
  "generateEnhancedShades base originalColor format Inherited exactMatch = Inl TypeError"
  by (simp add: generateEnhancedShades_def)

lemma generateEnhancedShades_at:
  assumes "(i, level) \<in> set (zip [0..<length SHADE_LEVELS] SHADE_LEVELS)"
  shows "\<exists>ramp. generateEnhancedShades base originalColor format (ModeConfig cfg) exactMatch = Inr ramp \<and>
           ramp level = Some (enhanced_shade base originalColor format exactMatch
             \<lparr>ok_l = LIGHTNESS_MAP 50, ok_c = ok_c base * lightEndChroma cfg,
               ok_h = normalizeHue (ok_h base +
                 (if isWarmColor (ok_h base) then hueShift_light cfg else - hueShift_light cfg))\<rparr>
             \<lparr>ok_l = LIGHTNESS_MAP 950, ok_c = ok_c base * darkEndChroma cfg,
               ok_h = normalizeHue (ok_h base +
                 (if isWarmColor (ok_h base) then hueShift_dark cfg else - hueShift_dark cfg))\<rparr>
             (ok_c base * chromaBoost cfg) i level)"
  using assms unfolding level_pairs
  by (auto simp: generateEnhancedShades_def level_pairs Let_def)

lemma generateEnhancedShades_dom:
  "\<exists>ramp. generateEnhancedShades base originalColor format (ModeConfig cfg) exactMatch = Inr ramp \<and>
          dom ramp = set SHADE_LEVELS"
  by (auto simp: generateEnhancedShades_def level_pairs Let_def SHADE_LEVELS_def)


lemma parseColor_hash:
  "parseColor (JString ''#3b82f6'') = Inr (hexToOklch ''#3b82f6'')"
  by (simp add: parseColor_def string_eval)

text \<open>
  Claim C7 says that \<^verbatim>\<open>generateShades\<close> returns a ramp with exactly the eleven levels for
  every mode string. A mode that names a member inherited from \<^verbatim>\<open>Object.prototype\<close> makes
  \<^verbatim>\<open>MODE_CONFIG[mode]\<close> truthy, the fallback \<^verbatim>\<open>|| MODE_CONFIG.fixed\<close> does not apply, and
  \<^verbatim>\<open>generateEnhancedShades\<close> throws on \<^verbatim>\<open>config.hueShift.light\<close>: at the mode
  \<^verbatim>\<open>constructor\<close> the call returns no ramp.
\<close>

theorem generateShades_inherited_mode:
  "generateShades (JString ''#3b82f6'') [(''mode'', JString ''constructor'')] = Inl TypeError"
  by (simp add: generateShades_def parseColor_hash lookup_prop_def with_default_def
      mode_entry_of_def MODE_CONFIG_def Object_prototype_members_def
      generateEnhancedShades_Inherited)

text \<open>
  For every other mode (the three configured ones, any other string, a missing mode),
  every format and every \<^verbatim>\<open>exactMatch\<close>, a colour that parses gives a ramp whose keys are
  exactly the eleven shade levels.
\<close>

theorem generateShades_levels:
  assumes "parseColor color = Inr base"
    and "lookup_prop options ''mode'' \<notin> JString ` set Object_prototype_members"
  shows "\<exists>ramp. generateShades color options = Inr ramp \<and> dom ramp = set SHADE_LEVELS"
proof (cases "with_default (lookup_prop options ''mode'') (JString ''fixed'') = JString ''fixed''")
  case True
  then show ?thesis
    using assms(1) by (simp add: generateShades_def Let_def dom_generateFixedShades)
next
  case False
  define mode where "mode = with_default (lookup_prop options ''mode'') (JString ''fixed'')"
  have "mode_entry_of mode \<noteq> Some Inherited"
    using assms(2) False
    by (auto simp: mode_def with_default_def mode_entry_of_def MODE_CONFIG_def
        split: jsval.splits if_splits)
  then obtain cfg where
    "(case mode_entry_of mode of Some e \<Rightarrow> e | None \<Rightarrow> ModeConfig config_fixed) = ModeConfig cfg"
    by (cases "mode_entry_of mode") (auto intro: mode_entry.exhaust)
  then show ?thesis
    using assms(1) False generateEnhancedShades_dom [of base "string_of color" _ cfg]
    by (simp add: generateShades_def Let_def mode_def)
qed

theorem generateShades_levels_witness:
  "parseColor (JString ''#3b82f6'') = Inr (hexToOklch ''#3b82f6'') \<and>
   lookup_prop [(''mode'', JString ''vivid'')] ''mode'' \<notin> JString ` set Object_prototype_members \<and>
   (\<exists>ramp. generateShades (JString ''#3b82f6'') [(''mode'', JString ''vivid'')] = Inr ramp \<and>
      dom ramp = set SHADE_LEVELS)"
proof -
  have m: "lookup_prop [(''mode'', JString ''vivid'')] ''mode'' \<notin>
             JString ` set Object_prototype_members"
    by (simp add: lookup_prop_def Object_prototype_members_def)
  show ?thesis
    using generateShades_levels [OF parseColor_hash m] parseColor_hash m by simp
qed



lemma parseColor_oklch_sample:
  "parseColor (JString ''oklch(0.5 0.1 200)'') =
     Inr \<lparr>ok_l = Num (1 / 2), ok_c = Num (1 / 10), ok_h = Num 200\<rparr>"
  by (simp add: parseColor_def parseOklch_def string_eval regex_eval number_eval)


lemma level_100: "100 \<in> set SHADE_LEVELS"
  by (simp add: SHADE_LEVELS_def)

lemma fixed_sample_100:
  "fixed_shade \<lparr>ok_l = Num (1 / 2), ok_c = Num (1 / 10), ok_h = Num 200\<rparr> oc (JString ''oklch'')
     True 100 = formatOklch (Num (1943 / 2100)) (Num (51 / 2048)) (Num 200)"
  by (simp add: fixed_shade_def fixed_targetL_def RELATIVE_POSITION_def LIGHTNESS_MAP_def
      CHROMA_SCALE_def LIGHT_HALF_RANGE_def level_100 findMaxChroma_Num Let_def)

lemma format_sample_fixed:
  "formatOklch (Num (1943 / 2100)) (Num (51 / 2048)) (Num 200) = ''oklch(92.5% 0.0249 200.0)''"
  by code_simp

lemma normalizeHue_200: "normalizeHue (Num 200) = Num 200"
  by (simp add: normalizeHue_def js_rem_def Let_def)

lemma enhanced_sample_100:
  "enhanced_shade \<lparr>ok_l = Num (1 / 2), ok_c = Num (1 / 10), ok_h = Num 200\<rparr> oc (JString ''oklch'')
     JUndefined \<lparr>ok_l = Num (97 / 100), ok_c = Num (3 / 200), ok_h = Num 200\<rparr>
     \<lparr>ok_l = Num (7 / 50), ok_c = Num (9 / 200), ok_h = Num 200\<rparr> (Num (1 / 10)) (Suc 0) 100 =
   formatOklch (Num (219 / 250)) (Num (51 / 1600)) (Num 200)"
  by (simp add: enhanced_shade_def lerp_def quadBezier_def normalizeHue_200 findMaxChroma_Num
      Let_def)

lemma format_sample_enhanced:
  "formatOklch (Num (219 / 250)) (Num (51 / 1600)) (Num 200) = ''oklch(87.6% 0.0319 200.0)''"
  by code_simp

text \<open>
  Claim C1 says that a mode outside \<^verbatim>\<open>fixed\<close>, \<^verbatim>\<open>natural\<close>, \<^verbatim>\<open>vivid\<close> gives the ramp of
  the fixed mode. The source falls back to the \<^emph>\<open>configuration\<close> of the fixed mode but
  tests \<^verbatim>\<open>mode === 'fixed'\<close> on the mode as given, so such a mode runs the enhanced
  algorithm: at \<^verbatim>\<open>oklch(0.5 0.1 200)\<close> level 100 is interpolated to lightness 87.6%, where
  the fixed mode redistributes to 92.5%.
\<close>

theorem unrecognized_mode_not_fixed:
  "\<exists>fallback fixed.
     generateShades (JString ''oklch(0.5 0.1 200)'') [(''mode'', JString ''bogus'')] = Inr fallback \<and>
     generateShades (JString ''oklch(0.5 0.1 200)'') [(''mode'', JString ''fixed'')] = Inr fixed \<and>
     fallback 100 = Some ''oklch(87.6% 0.0319 200.0)'' \<and>
     fixed 100 = Some ''oklch(92.5% 0.0249 200.0)''"
proof -
  let ?base = "\<lparr>ok_l = Num (1 / 2), ok_c = Num (1 / 10), ok_h = Num 200\<rparr>"
  have pair: "(1, 100) \<in> set (zip [0..<length SHADE_LEVELS] SHADE_LEVELS)"
    by (simp add: level_pairs)
  obtain fallback where fb:
    "generateEnhancedShades ?base ''oklch(0.5 0.1 200)'' (JString ''oklch'') (ModeConfig config_fixed)
       JUndefined = Inr fallback"
    "fallback 100 = Some ''oklch(87.6% 0.0319 200.0)''"
    using generateEnhancedShades_at [OF pair, of ?base "''oklch(0.5 0.1 200)''" "JString ''oklch''"
        config_fixed JUndefined]
    by (auto simp: config_fixed_def LIGHTNESS_MAP_def isWarmColor_def normalizeHue_200
        enhanced_sample_100 format_sample_enhanced)
  have 1: "generateShades (JString ''oklch(0.5 0.1 200)'') [(''mode'', JString ''bogus'')] = Inr fallback"
    using fb(1)
    by (simp add: generateShades_def parseColor_oklch_sample lookup_prop_def with_default_def
        mode_entry_of_def MODE_CONFIG_def Object_prototype_members_def string_of_def)
  have 2: "generateShades (JString ''oklch(0.5 0.1 200)'') [(''mode'', JString ''fixed'')] =
             Inr (generateFixedShades ?base ''oklch(0.5 0.1 200)'' (JString ''oklch'') JUndefined)"
    by (simp add: generateShades_def parseColor_oklch_sample lookup_prop_def with_default_def
        string_of_def)
  have 3: "generateFixedShades ?base ''oklch(0.5 0.1 200)'' (JString ''oklch'') JUndefined 100 =
             Some ''oklch(92.5% 0.0249 200.0)''"
    by (simp add: generateFixedShades_at level_100 fixed_sample_100 format_sample_fixed)
  show ?thesis
    using 1 2 3 fb(2) by blast
qed


lemma parseColor_near_white:
  "parseColor (JString ''oklch(0.99 0.01 100)'') =
     Inr \<lparr>ok_l = Num (99 / 100), ok_c = Num (1 / 100), ok_h = Num 100\<rparr>"
  by (simp add: parseColor_def parseOklch_def string_eval regex_eval number_eval)

lemma near_white_50:
  "fixed_shade \<lparr>ok_l = Num (99 / 100), ok_c = Num (1 / 100), ok_h = Num 100\<rparr> oc (JString ''oklch'')
     True 50 = formatOklch (Num (97 / 100)) (Num (153 / 102400)) (Num 100)"
  by (simp add: fixed_shade_def fixed_targetL_def RELATIVE_POSITION_def LIGHTNESS_MAP_def
      CHROMA_SCALE_def LIGHT_HALF_RANGE_def SHADE_LEVELS_def findMaxChroma_Num Let_def)

lemma near_white_100:
  "fixed_shade \<lparr>ok_l = Num (99 / 100), ok_c = Num (1 / 100), ok_h = Num 100\<rparr> oc (JString ''oklch'')
     True 100 = formatOklch (Num (2041 / 2100)) (Num (51 / 20480)) (Num 100)"
  by (simp add: fixed_shade_def fixed_targetL_def RELATIVE_POSITION_def LIGHTNESS_MAP_def
      CHROMA_SCALE_def LIGHT_HALF_RANGE_def SHADE_LEVELS_def findMaxChroma_Num Let_def)

lemma near_white_500:
  "fixed_shade \<lparr>ok_l = Num (99 / 100), ok_c = Num (1 / 100), ok_h = Num 100\<rparr> oc (JString ''oklch'')
     True 500 = formatOklch (Num (99 / 100)) (Num (1 / 100)) (Num 100)"
  by (simp add: fixed_shade_def)

lemma format_near_white_50:
  "formatOklch (Num (97 / 100)) (Num (153 / 102400)) (Num 100) = ''oklch(97.0% 0.0015 100.0)''"
  by code_simp

lemma format_near_white_100:
  "formatOklch (Num (2041 / 2100)) (Num (51 / 20480)) (Num 100) = ''oklch(97.2% 0.0025 100.0)''"
  by code_simp

lemma format_near_white_500:
  "formatOklch (Num (99 / 100)) (Num (1 / 100)) (Num 100) = ''oklch(99.0% 0.0100 100.0)''"
  by code_simp

text \<open>
  Claim C2 says that in fixed mode the lightness does not increase from level 50 to level
  950 for an input lightness strictly between 0 and 1. The redistribution puts level 50
  at the table's 0.97 and level 950 at 0.14 whatever the input is: for the input
  lightness 0.99 the ramp starts at 97.0%, rises to 97.2% at level 100 and reaches 99.0%
  at level 500.
\<close>

theorem fixed_ramp_lightness_rises:
  "\<exists>ramp. generateShades (JString ''oklch(0.99 0.01 100)'') [] = Inr ramp \<and>
      ramp 50 = Some ''oklch(97.0% 0.0015 100.0)'' \<and>
      ramp 100 = Some ''oklch(97.2% 0.0025 100.0)'' \<and>
      ramp 500 = Some ''oklch(99.0% 0.0100 100.0)''"
proof -
  let ?base = "\<lparr>ok_l = Num (99 / 100), ok_c = Num (1 / 100), ok_h = Num 100\<rparr>"
  have "generateShades (JString ''oklch(0.99 0.01 100)'') [] =
          Inr (generateFixedShades ?base ''oklch(0.99 0.01 100)'' (JString ''oklch'') JUndefined)"
    by (simp add: generateShades_def parseColor_near_white lookup_prop_def with_default_def
        string_of_def)
  moreover have
    "generateFixedShades ?base ''oklch(0.99 0.01 100)'' (JString ''oklch'') JUndefined 50 =
       Some ''oklch(97.0% 0.0015 100.0)''"
    by (simp add: generateFixedShades_at near_white_50 format_near_white_50)
       (simp add: SHADE_LEVELS_def)
  moreover have
    "generateFixedShades ?base ''oklch(0.99 0.01 100)'' (JString ''oklch'') JUndefined 100 =
       Some ''oklch(97.2% 0.0025 100.0)''"
    by (simp add: generateFixedShades_at near_white_100 format_near_white_100)
       (simp add: SHADE_LEVELS_def)
  moreover have
    "generateFixedShades ?base ''oklch(0.99 0.01 100)'' (JString ''oklch'') JUndefined 500 =
       Some ''oklch(99.0% 0.0100 100.0)''"
    by (simp add: generateFixedShades_at near_white_500 format_near_white_500)
       (simp add: SHADE_LEVELS_def)
  ultimately show ?thesis by blast
qed

section \<open>Palettes: entries that are left out\<close>

lemma palette_entry_other:
  assumes "palette_entry options (k, v) acc = Inr acc'" and "n \<noteq> k"
  shows "acc' n = acc n"
  using assms by (auto simp: palette_entry_def split: if_splits sum.splits)

lemma palettes_loop_other:
  assumes "palettes_loop options es acc = Inr res" and "n \<notin> fst ` set es"
  shows "res n = acc n"
  using assms
proof (induction es arbitrary: acc)
  case Nil
  then show ?case by simp
next
  case (Cons e es)
  obtain k v where e: "e = (k, v)" by (cases e)
  from Cons.prems(1) obtain acc' where
    step: "palette_entry options e acc = Inr acc'" and rest: "palettes_loop options es acc' = Inr res"
    by (auto split: sum.splits)
  have "res n = acc' n"
    using Cons.IH [OF rest] Cons.prems(2) by simp
  moreover have "acc' n = acc n"
    using palette_entry_other [of options k v acc acc' n] step e Cons.prems(2) by auto
  ultimately show ?case by simp
qed

lemma palette_entry_omitted:
  assumes "\<not> is_string v" and "\<not> (is_object v \<and> truthy (get_prop v ''base''))"
    and "\<not> has_numeric_key v"
  shows "palette_entry options (name, v) acc = Inr acc"
  using assms by (auto simp: palette_entry_def)

lemma palette_entry_pass_through:
  assumes "\<not> truthy (lookup_prop ps ''base'')" and "parseInt k 0 \<noteq> NaN" and "k \<in> fst ` set ps"
  shows "palette_entry options (name, JObject ps) acc = Inr (acc(name \<mapsto> PassThrough (JObject ps)))"
  using assms by (auto simp: palette_entry_def has_numeric_key_def list_ex_iff)

lemma palettes_loop_omitted:
  assumes "palettes_loop options es acc = Inr res" and "(name, v) \<in> set es"
    and "distinct (map fst es)" and "acc name = None"
    and "\<not> is_string v" and "\<not> (is_object v \<and> truthy (get_prop v ''base''))"
    and "\<not> has_numeric_key v"
  shows "res name = None"
  using assms(1-4)
proof (induction es arbitrary: acc)
  case Nil
  then show ?case by simp
next
  case (Cons e es)
  from Cons.prems(1) obtain acc' where
    step: "palette_entry options e acc = Inr acc'" and rest: "palettes_loop options es acc' = Inr res"
    by (auto split: sum.splits)
  show ?case
  proof (cases "e = (name, v)")
    case True
    then have "acc' = acc"
      using step palette_entry_omitted [OF assms(5-7), of options name acc] by simp
    moreover have "name \<notin> fst ` set es"
      using Cons.prems(3) True by simp
    ultimately show ?thesis
      using palettes_loop_other [OF rest] Cons.prems(4) by simp
  next
    case False
    obtain k w where e: "e = (k, w)" by (cases e)
    have "k \<noteq> name"
      using Cons.prems(2,3) False e by (auto simp: image_iff)
    then have "acc' name = None"
      using palette_entry_other [of options k w acc acc' name] step e Cons.prems(4) by simp
    moreover have "(name, v) \<in> set es" "distinct (map fst es)"
      using Cons.prems(2,3) False by auto
    ultimately show ?thesis
      using Cons.IH [OF rest] by simp
  qed
qed

text \<open>
  Claim C10. A value that is not a string, not an object with a truthy \<^verbatim>\<open>base\<close> and not
  an object with a key that \<^verbatim>\<open>parseInt\<close> reads as a number (a number, \<^verbatim>\<open>null\<close>, an object
  of non-numeric keys only) leaves the palettes as they are and raises nothing, so its
  name is absent from the result of \<^verbatim>\<open>generatePalettes\<close>. An object without a truthy
  \<^verbatim>\<open>base\<close> is passed through as soon as one of its keys reads as a number, whatever its
  other keys are.
\<close>

theorem generatePalettes_omits:
  assumes "\<not> is_string v" and "\<not> (is_object v \<and> truthy (get_prop v ''base''))"
    and "\<not> has_numeric_key v"
  shows "palette_entry options (name, v) acc = Inr acc \<and>
         (generatePalettes colors options = Inr palettes \<and> (name, v) \<in> set colors \<and>
            distinct (map fst colors) \<longrightarrow> palettes name = None) \<and>
         (\<not> truthy (lookup_prop ps ''base'') \<and> k \<in> fst ` set ps \<and> parseInt k 0 \<noteq> NaN \<longrightarrow>
            palette_entry options (name', JObject ps) acc =
              Inr (acc(name' \<mapsto> PassThrough (JObject ps))))"
proof (intro conjI impI)
  show "palette_entry options (name, v) acc = Inr acc"
    using assms by (rule palette_entry_omitted)
  show "palettes name = None"
    if "generatePalettes colors options = Inr palettes \<and> (name, v) \<in> set colors \<and>
        distinct (map fst colors)"
    using that assms palettes_loop_omitted [of options colors Map.empty palettes name v]
    by (simp add: generatePalettes_def)
  show "palette_entry options (name', JObject ps) acc = Inr (acc(name' \<mapsto> PassThrough (JObject ps)))"
    if "\<not> truthy (lookup_prop ps ''base'') \<and> k \<in> fst ` set ps \<and> parseInt k 0 \<noteq> NaN"
    using that palette_entry_pass_through [of ps k options name' acc] by blast
qed

lemma parseInt_50: "parseInt ''50'' 0 = Num 50"
  by (simp add: parseInt_def trimStart_def white_space_def startsWith_def toLowerCase_def
      lower_char_def upper_case_def lower_case_def digit_value_def digits36_def digits_value_def
      Let_def)

lemma parseInt_foo: "parseInt ''foo'' 0 = NaN"
  by (simp add: parseInt_def trimStart_def white_space_def startsWith_def toLowerCase_def
      lower_char_def upper_case_def lower_case_def digit_value_def digits36_def digits_value_def
      Let_def)

theorem generatePalettes_omits_witness:
  "\<not> is_string (JNumber (Num 5)) \<and>
   \<not> (is_object (JNumber (Num 5)) \<and> truthy (get_prop (JNumber (Num 5)) ''base'')) \<and>
   \<not> has_numeric_key (JNumber (Num 5)) \<and>
   palette_entry [] (''a'', JNumber (Num 5)) Map.empty = Inr Map.empty \<and>
   generatePalettes
     [(''a'', JNumber (Num 5)),
      (''b'', JObject [(''50'', JString ''#fff''), (''foo'', JString ''bar'')])] [] =
     Inr [''b'' \<mapsto> PassThrough (JObject [(''50'', JString ''#fff''), (''foo'', JString ''bar'')])] \<and>
   [''b'' \<mapsto> PassThrough (JObject [(''50'', JString ''#fff''), (''foo'', JString ''bar'')])] ''a'' = None \<and>
   parseInt ''50'' 0 \<noteq> NaN \<and> parseInt ''foo'' 0 = NaN \<and>
   palette_entry [] (''b'', JObject [(''50'', JString ''#fff''), (''foo'', JString ''bar'')]) Map.empty =
     Inr [''b'' \<mapsto> PassThrough (JObject [(''50'', JString ''#fff''), (''foo'', JString ''bar'')])]"
proof -
  let ?obj = "JObject [(''50'', JString ''#fff''), (''foo'', JString ''bar'')]"
  let ?colors = "[(''a'', JNumber (Num 5)), (''b'', ?obj)]"
  have h1: "\<not> is_string (JNumber (Num 5))" by simp
  have h2: "\<not> (is_object (JNumber (Num 5)) \<and> truthy (get_prop (JNumber (Num 5)) ''base''))" by simp
  have h3: "\<not> has_numeric_key (JNumber (Num 5))" by (simp add: has_numeric_key_def)
  note inst = generatePalettes_omits [OF h1 h2 h3, of "[]" "''a''" Map.empty ?colors
      "[''b'' \<mapsto> PassThrough ?obj]" "[(''50'', JString ''#fff''), (''foo'', JString ''bar'')]"
      "''50''" "''b''"]
  have b: "\<not> truthy (lookup_prop [(''50'', JString ''#fff''), (''foo'', JString ''bar'')] ''base'')"
    by (simp add: lookup_prop_def)
  have entry_b: "palette_entry [] (''b'', ?obj) Map.empty = Inr [''b'' \<mapsto> PassThrough ?obj]"
    using inst b by (simp add: parseInt_50)
  have entry_a: "palette_entry [] (''a'', JNumber (Num 5)) Map.empty = Inr Map.empty"
    using inst by simp
  have run: "generatePalettes ?colors [] = Inr [''b'' \<mapsto> PassThrough ?obj]"
    by (simp add: generatePalettes_def entry_a entry_b)
  have "[''b'' \<mapsto> PassThrough ?obj] ''a'' = None"
    using inst run by simp
  then show ?thesis
    using h1 h2 h3 entry_a entry_b run by (simp add: parseInt_50 parseInt_foo)
qed

section \<open>What the parser accepts\<close>

lemma length_takeWhile_all:
  "length (takeWhile P s) = length s \<longleftrightarrow> list_all P s"
proof (induction s)
  case Nil
  then show ?case by simp
next
  case (Cons c cs)
  have "length (takeWhile P cs) \<le> length cs"
    by (rule length_takeWhile_le)
  with Cons show ?case by auto
qed

lemma matches_re_hex:
  "matches re_hex (i, s) \<noteq> [] \<longleftrightarrow> i = 0 \<and> hex_digits_3_to_8 s"
proof -
  let ?n = "length (takeWhile (\<lambda>c. c \<in> set cls_hex_i) s)"
  have all: "?n = length s \<longleftrightarrow> list_all (\<lambda>c. c \<in> set cls_hex_i) s"
    by (rule length_takeWhile_all)
  have le: "?n \<le> length s"
    by (rule length_takeWhile_le)
  show ?thesis
    using le all unfolding hex_digits_3_to_8_def
    by (auto simp: re_hex_def Let_def)
qed

lemma search_from_re_hex_later: "0 < i \<Longrightarrow> search_from re_hex i s = None"
proof (induction s arbitrary: i)
  case Nil
  then show ?case
    using matches_re_hex [of i "[]"] by (cases "matches re_hex (i, [])") auto
next
  case (Cons c cs)
  then show ?case
    using matches_re_hex [of i "c # cs"] by (cases "matches re_hex (i, c # cs)") auto
qed

lemma regex_test_re_hex: "regex_test re_hex s = hex_digits_3_to_8 s"
proof (cases s)
  case Nil
  then show ?thesis
    using matches_re_hex [of 0 "[]"]
    by (cases "matches re_hex (0, [])") (auto simp: regex_test_def regex_match_def)
next
  case (Cons c cs)
  then show ?thesis
    using matches_re_hex [of 0 "c # cs"] search_from_re_hex_later [of "Suc 0" cs]
    by (cases "matches re_hex (0, c # cs)") (auto simp: regex_test_def regex_match_def)
qed


lemma startsWith_iff: "startsWith t p \<longleftrightarrow> (\<exists>r. t = p @ r)"
  unfolding startsWith_def
  by (metis append_eq_conv_conj append_take_drop_id)

lemma hex_digits_first:
  assumes "hex_digits_3_to_8 t"
  shows "\<not> startsWith t ''oklch(''" "\<not> startsWith t ''#''" "\<not> startsWith t ''rgb''"
    "\<not> startsWith t ''hsl''"
  using assms
  by (auto simp: hex_digits_3_to_8_def startsWith_iff cls_hex_i_def)

text \<open>
  What the source does: \<^verbatim>\<open>parseColor\<close> signals an error exactly when its argument is not a
  non-empty string or the trimmed, lower-cased text passes none of its tests, which are: the
  text begins with \<^verbatim>\<open>#\<close> (what follows is not looked at), it is three to eight hexadecimal
  digits, it begins with \<^verbatim>\<open>rgb\<close> or \<^verbatim>\<open>hsl\<close> and holds a match of that pattern, or it
  begins with \<^verbatim>\<open>oklch(\<close> and holds a match of the oklch pattern.
\<close>

theorem parseColor_error_iff:
  "(\<exists>e. parseColor v = Inl e) \<longleftrightarrow>
     \<not> (\<exists>text. v = JString text \<and> text \<noteq> [] \<and>
          (startsWith (toLowerCase (trim text)) ''#'' \<or>
           hex_digits_3_to_8 (toLowerCase (trim text)) \<or>
           (startsWith (toLowerCase (trim text)) ''rgb'' \<and>
              regex_match re_rgb (toLowerCase (trim text)) \<noteq> None) \<or>
           (startsWith (toLowerCase (trim text)) ''hsl'' \<and>
              regex_match re_hsl (toLowerCase (trim text)) \<noteq> None) \<or>
           (startsWith (toLowerCase (trim text)) ''oklch('' \<and>
              regex_match re_oklch (toLowerCase (trim text)) \<noteq> None)))"
proof (cases v)
  case (JString s)
  define t where "t = toLowerCase (trim s)"
  have excl: "\<not> (startsWith t ''oklch('' \<and> startsWith t ''#'')"
    "\<not> (startsWith t ''oklch('' \<and> startsWith t ''rgb'')"
    "\<not> (startsWith t ''oklch('' \<and> startsWith t ''hsl'')"
    "\<not> (startsWith t ''#'' \<and> startsWith t ''rgb'')"
    "\<not> (startsWith t ''#'' \<and> startsWith t ''hsl'')"
    "\<not> (startsWith t ''rgb'' \<and> startsWith t ''hsl'')"
    by (auto simp: startsWith_iff)
  show ?thesis
    using excl hex_digits_first [of t]
    by (auto simp: JString parseColor_def Let_def t_def [symmetric] parseOklch_def rgbToOklch_def
        hslToOklch_def regex_test_re_hex split: option.splits)
qed (simp_all add: parseColor_def)


theorem parseColor_error_iff_witness:
  "(\<exists>e. parseColor (JString ''12'') = Inl e) \<and> \<not> (\<exists>e. parseColor (JString ''#12345'') = Inl e) \<and>
   \<not> (\<exists>e. parseColor (JString ''1234567'') = Inl e)"
  using parseColor_error_iff [of "JString ''12''"] parseColor_error_iff [of "JString ''#12345''"]
    parseColor_error_iff [of "JString ''1234567''"]
  by (simp add: string_eval hex_digits_3_to_8_def cls_hex_i_def)

text \<open>
  Claim C4 fails on a text that begins with \<^verbatim>\<open>#\<close>. The claim has \<^verbatim>\<open>parseColor\<close> signal an
  error for every text outside the listed notations, and every other branch of the source
  does: three letters that are no hex digits are rejected without \<^verbatim>\<open>#\<close>, and a body that
  fails the pattern is rejected after \<^verbatim>\<open>rgb\<close>, \<^verbatim>\<open>hsl\<close> and \<^verbatim>\<open>oklch(\<close>. After \<^verbatim>\<open>#\<close> nothing is
  checked: for \<^verbatim>\<open>#xyz\<close> \<^verbatim>\<open>parseInt\<close> gives \<open>NaN\<close>, the shifts turn it into the channels
  0, 0, 0, and \<^verbatim>\<open>parseColor\<close> returns black.
\<close>

theorem parseColor_hash_unvalidated:
  "\<not> spec_recognized ''#xyz'' \<and>
   parseInt ''xxyyzz'' 16 = NaN \<and>
   hexToRgb ''#xyz'' = \<lparr>rgb_r = Num 0, rgb_g = Num 0, rgb_b = Num 0\<rparr> \<and>
   parseColor (JString ''#xyz'') = Inr \<lparr>ok_l = Num 0, ok_c = Num 0, ok_h = Num 0\<rparr> \<and>
   parseColor (JString ''xyz'') = Inl UnsupportedFormat \<and>
   parseColor (JString ''rgb(xyz)'') = Inl InvalidRgb \<and>
   parseColor (JString ''hsl(xyz)'') = Inl InvalidHsl \<and>
   parseColor (JString ''oklch(xyz)'') = Inl InvalidOklch"
proof -
  have 1: "\<not> spec_recognized ''#xyz''"
    by (simp add: spec_recognized_def spec_hex_text_def string_eval cls_hex_i_def)
  have 2: "parseInt ''xxyyzz'' 16 = NaN"
    by (simp add: parseInt_def string_eval number_eval)
  have 3: "hexToRgb ''#xyz'' = \<lparr>rgb_r = Num 0, rgb_g = Num 0, rgb_b = Num 0\<rparr>"
    by (simp add: hexToRgb_def 2 toInt32_def shift_and_255_def Let_def)
  have "rgbValuesToOklch (Num 0) (Num 0) (Num 0) = \<lparr>ok_l = Num 0, ok_c = Num 0, ok_h = Num 0\<rparr>"
    by (simp add: rgbValuesToOklch_def srgbToLinear_def Math_cbrt_def Math_sqrt_def Math_atan2_def
        atan2_real_def Math_PI_def Let_def)
  then have 4: "parseColor (JString ''#xyz'') = Inr \<lparr>ok_l = Num 0, ok_c = Num 0, ok_h = Num 0\<rparr>"
    by (simp add: parseColor_def hexToOklch_def 3 string_eval)
  have 5: "parseColor (JString ''xyz'') = Inl UnsupportedFormat"
    by (simp add: parseColor_def string_eval regex_test_re_hex hex_digits_3_to_8_def cls_hex_i_def)
  have 6: "parseColor (JString ''rgb(xyz)'') = Inl InvalidRgb"
    by (simp add: parseColor_def rgbToOklch_def string_eval regex_eval)
  have 7: "parseColor (JString ''hsl(xyz)'') = Inl InvalidHsl"
    by (simp add: parseColor_def hslToOklch_def string_eval regex_eval)
  have 8: "parseColor (JString ''oklch(xyz)'') = Inl InvalidOklch"
    by (simp add: parseColor_def parseOklch_def string_eval regex_eval)
  show ?thesis
    using 1 2 3 4 5 6 7 8 by blast
qed

theorem parseColor_hash_unvalidated_witness:
  "isValidColor (JString ''#xyz'') \<and> \<not> isValidColor (JString ''xyz'')"
  using parseColor_hash_unvalidated by (simp add: isValidColor_def)

section \<open>The hue of a parsed colour\<close>

lemma atan2_real_range: "- pi < atan2_real y x \<and> atan2_real y x \<le> pi"
proof -
  have lb: "- (pi / 2) < arctan (y / x)" and ub: "arctan (y / x) < pi / 2"
    by (rule arctan_lbound, rule arctan_ubound)
  have "arctan (y / x) \<le> 0" if "x < 0" "0 \<le> y"
  proof -
    have "y / x \<le> 0" using that by (simp add: divide_nonneg_neg)
    then have "arctan (y / x) \<le> arctan 0" by (simp only: arctan_le_iff)
    then show ?thesis by simp
  qed
  moreover have "0 < arctan (y / x)" if "x < 0" "y < 0"
  proof -
    have "0 < y / x" using that by (simp add: divide_neg_neg)
    then have "arctan 0 < arctan (y / x)" by (simp only: arctan_less_iff)
    then show ?thesis by simp
  qed
  ultimately show ?thesis
    using lb ub pi_gt_zero unfolding atan2_real_def
    by (auto simp: not_less not_le) (linarith+)?
qed

lemma normalized_degrees:
  assumes "- pi < t" and "t \<le> pi"
  shows "(if t * (180 / pi) < 0 then 0 \<le> t * (180 / pi) + 360 \<and> t * (180 / pi) + 360 < 360
          else 0 \<le> t * (180 / pi) \<and> t * (180 / pi) < 360)"
proof -
  define u where "u = t / pi"
  have eq: "t * (180 / pi) = 180 * u"
    by (simp add: u_def)
  have "- 1 < u" "u \<le> 1"
    using assms pi_gt_zero by (simp_all add: u_def field_simps)
  then show ?thesis
    unfolding eq by auto
qed

lemma hue_of_atan2:
  "(let H0 = Math_atan2 b a * (Num 180 / Math_PI)
    in if H0 < Num 0 then H0 + Num 360 else H0) = h \<Longrightarrow>
   h = NaN \<or> (Num 0 \<le> h \<and> h < Num 360)"
proof (cases "a = NaN \<or> b = NaN")
  case True
  assume "(let H0 = Math_atan2 b a * (Num 180 / Math_PI)
           in if H0 < Num 0 then H0 + Num 360 else H0) = h"
  with True show ?thesis
    by (auto simp: Math_atan2_def Let_def split: jsnum.splits)
next
  case False
  assume h: "(let H0 = Math_atan2 b a * (Num 180 / Math_PI)
              in if H0 < Num 0 then H0 + Num 360 else H0) = h"
  from False obtain x y where xy: "a = Num x" "b = Num y"
    by (cases a; cases b) auto
  have "Math_atan2 b a * (Num 180 / Math_PI) = Num (atan2_real y x * (180 / pi))"
    by (simp add: xy Math_atan2_def Math_PI_def)
  with h have "h = Num (if atan2_real y x * (180 / pi) < 0 then atan2_real y x * (180 / pi) + 360
                        else atan2_real y x * (180 / pi))"
    by (auto simp: Let_def)
  then show ?thesis
    using normalized_degrees [of "atan2_real y x"] atan2_real_range [of y x]
    by (auto split: if_splits)
qed

lemma rgbValuesToOklch_hue:
  "ok_h (rgbValuesToOklch r g b) = NaN \<or>
   (Num 0 \<le> ok_h (rgbValuesToOklch r g b) \<and> ok_h (rgbValuesToOklch r g b) < Num 360)"
  by (rule hue_of_atan2) (simp add: rgbValuesToOklch_def Let_def)


lemma srgbToLinear_Num: "\<exists>y. srgbToLinear (Num x) = Num y"
proof (cases "x \<le> 0.04045")
  case True
  then have "srgbToLinear (Num x) = Num (x / 12.92)"
    by (simp add: srgbToLinear_def)
  then show ?thesis by blast
next
  case False
  then have "\<not> (x + 0.055) / 1.055 < 0"
    by (simp add: field_simps)
  then have "srgbToLinear (Num x) = Num (((x + 0.055) / 1.055) powr 2.4)"
    using False by (simp add: srgbToLinear_def Math_pow_def)
  then show ?thesis by blast
qed

lemma rgbValuesToOklch_Num:
  "\<exists>L C H. rgbValuesToOklch (Num r) (Num g) (Num b) = \<lparr>ok_l = Num L, ok_c = Num C, ok_h = Num H\<rparr>"
proof -
  obtain r' where r': "srgbToLinear (Num (r / 255)) = Num r'"
    using srgbToLinear_Num by blast
  obtain g' where g': "srgbToLinear (Num (g / 255)) = Num g'"
    using srgbToLinear_Num by blast
  obtain b' where b': "srgbToLinear (Num (b / 255)) = Num b'"
    using srgbToLinear_Num by blast
  show ?thesis
    by (simp add: rgbValuesToOklch_def r' g' b' Math_cbrt_def Math_sqrt_def Math_atan2_def
        Math_PI_def Let_def not_less)
qed

lemma hexToOklch_Num:
  "\<exists>L C H. hexToOklch s = \<lparr>ok_l = Num L, ok_c = Num C, ok_h = Num H\<rparr>"
  using rgbValuesToOklch_Num by (simp add: hexToOklch_def hexToRgb_def shift_and_255_def Let_def)

lemma parseColor_oklch_400:
  "parseColor (JString ''oklch(0.5 0.1 400)'') =
     Inr \<lparr>ok_l = Num (1 / 2), ok_c = Num (1 / 10), ok_h = Num 400\<rparr>"
  by (simp add: parseColor_def parseOklch_def string_eval regex_eval number_eval)

lemma parseColor_oklch_40:
  "parseColor (JString ''oklch(0.5 0.1 40)'') =
     Inr \<lparr>ok_l = Num (1 / 2), ok_c = Num (1 / 10), ok_h = Num 40\<rparr>"
  by (simp add: parseColor_def parseOklch_def string_eval regex_eval number_eval)

lemma normalizeHue_samples:
  "normalizeHue (Num 400) = Num 40" "normalizeHue (Num 405) = Num 45"
  "normalizeHue (Num 385) = Num 25" "normalizeHue (Num 45) = Num 45"
  "normalizeHue (Num 25) = Num 25" "normalizeHue (Num 116) = Num 116"
  "normalizeHue (Num 44) = Num 44"
  by (simp_all add: normalizeHue_def js_rem_def Let_def)

lemma natural_sample_400:
  "enhanced_shade \<lparr>ok_l = Num (1 / 2), ok_c = Num (1 / 10), ok_h = Num 400\<rparr> oc (JString ''oklch'')
     JUndefined \<lparr>ok_l = Num (97 / 100), ok_c = Num (1 / 50), ok_h = Num 45\<rparr>
     \<lparr>ok_l = Num (7 / 50), ok_c = Num (1 / 25), ok_h = Num 25\<rparr> (Num (11 / 100)) (Suc 0) 100 =
   formatOklch (Num (219 / 250)) (Num (969 / 25600)) (Num 116)"
  by (simp add: enhanced_shade_def lerp_def quadBezier_def normalizeHue_samples findMaxChroma_Num
      Let_def)

lemma natural_sample_40:
  "enhanced_shade \<lparr>ok_l = Num (1 / 2), ok_c = Num (1 / 10), ok_h = Num 40\<rparr> oc (JString ''oklch'')
     JUndefined \<lparr>ok_l = Num (97 / 100), ok_c = Num (1 / 50), ok_h = Num 45\<rparr>
     \<lparr>ok_l = Num (7 / 50), ok_c = Num (1 / 25), ok_h = Num 25\<rparr> (Num (11 / 100)) (Suc 0) 100 =
   formatOklch (Num (219 / 250)) (Num (969 / 25600)) (Num 44)"
  by (simp add: enhanced_shade_def lerp_def quadBezier_def normalizeHue_samples findMaxChroma_Num
      Let_def)

lemma format_natural_400:
  "formatOklch (Num (219 / 250)) (Num (969 / 25600)) (Num 116) = ''oklch(87.6% 0.0379 116.0)''"
  by code_simp

lemma format_natural_40:
  "formatOklch (Num (219 / 250)) (Num (969 / 25600)) (Num 44) = ''oklch(87.6% 0.0379 44.0)''"
  by code_simp

text \<open>
  Claim C5 fails on native oklch text: \<^verbatim>\<open>parseOklch\<close> returns the hue as it is written, and
  \<^verbatim>\<open>oklch(0.5 0.1 400)\<close> parses to hue 400, outside \<open>[0, 360)\<close>, where \<^verbatim>\<open>normalizeHue\<close> gives
  40. The generator relies on the range: \<^verbatim>\<open>generateEnhancedShades\<close> interpolates the hue of
  the input against end points it has normalized, so in the natural mode the same colour
  written with hue 400 and with hue 40 gets hue 116 and hue 44 at level 100.
\<close>

theorem oklch_hue_not_normalized:
  "parseColor (JString ''oklch(0.5 0.1 400)'') =
     Inr \<lparr>ok_l = Num (1 / 2), ok_c = Num (1 / 10), ok_h = Num 400\<rparr> \<and>
   \<not> Num 400 < Num 360 \<and>
   parseColor (JString ''oklch(0.5 0.1 40)'') =
     Inr \<lparr>ok_l = Num (1 / 2), ok_c = Num (1 / 10), ok_h = Num 40\<rparr> \<and>
   normalizeHue (Num 400) = Num 40 \<and>
   (\<exists>wide narrow.
      generateShades (JString ''oklch(0.5 0.1 400)'') [(''mode'', JString ''natural'')] = Inr wide \<and>
      generateShades (JString ''oklch(0.5 0.1 40)'') [(''mode'', JString ''natural'')] = Inr narrow \<and>
      wide 100 = Some ''oklch(87.6% 0.0379 116.0)'' \<and>
      narrow 100 = Some ''oklch(87.6% 0.0379 44.0)'')"
proof -
  let ?b400 = "\<lparr>ok_l = Num (1 / 2), ok_c = Num (1 / 10), ok_h = Num 400\<rparr>"
  let ?b40 = "\<lparr>ok_l = Num (1 / 2), ok_c = Num (1 / 10), ok_h = Num 40\<rparr>"
  have pair: "(1, 100) \<in> set (zip [0..<length SHADE_LEVELS] SHADE_LEVELS)"
    by (simp add: level_pairs)
  obtain wide where wide:
    "generateEnhancedShades ?b400 ''oklch(0.5 0.1 400)'' (JString ''oklch'')
       (ModeConfig config_natural) JUndefined = Inr wide"
    "wide 100 = Some ''oklch(87.6% 0.0379 116.0)''"
    using generateEnhancedShades_at [OF pair, of ?b400 "''oklch(0.5 0.1 400)''" "JString ''oklch''"
        config_natural JUndefined]
    by (auto simp: config_natural_def LIGHTNESS_MAP_def isWarmColor_def normalizeHue_samples
        natural_sample_400 format_natural_400)
  obtain narrow where narrow:
    "generateEnhancedShades ?b40 ''oklch(0.5 0.1 40)'' (JString ''oklch'')
       (ModeConfig config_natural) JUndefined = Inr narrow"
    "narrow 100 = Some ''oklch(87.6% 0.0379 44.0)''"
    using generateEnhancedShades_at [OF pair, of ?b40 "''oklch(0.5 0.1 40)''" "JString ''oklch''"
        config_natural JUndefined]
    by (auto simp: config_natural_def LIGHTNESS_MAP_def isWarmColor_def normalizeHue_samples
        natural_sample_40 format_natural_40)
  have 1: "generateShades (JString ''oklch(0.5 0.1 400)'') [(''mode'', JString ''natural'')] = Inr wide"
    using wide(1)
    by (simp add: generateShades_def parseColor_oklch_400 lookup_prop_def with_default_def
        mode_entry_of_def MODE_CONFIG_def string_of_def)
  have 2: "generateShades (JString ''oklch(0.5 0.1 40)'') [(''mode'', JString ''natural'')] = Inr narrow"
    using narrow(1)
    by (simp add: generateShades_def parseColor_oklch_40 lookup_prop_def with_default_def
        mode_entry_of_def MODE_CONFIG_def string_of_def)
  have 3: "\<not> Num 400 < Num 360"
    by simp
  show ?thesis
    using parseColor_oklch_400 parseColor_oklch_40 normalizeHue_samples(1) 1 2 3 wide(2) narrow(2)
    by blast
qed

theorem oklch_hue_not_normalized_witness:
  "\<exists>col. parseColor (JString ''oklch(0.5 0.1 400)'') = Inr col \<and> ok_h col = Num 400 \<and>
     normalizeHue (ok_h col) = Num 40"
  using oklch_hue_not_normalized by simp

section \<open>The triple of a hex colour\<close>

text \<open>
  The channels of a hex colour are integers from 0 to 255, so its lightness lies in
  \<open>[0, 2]\<close>, its chroma in \<open>[0, 4]\<close> and its hue in \<open>[0, 360)\<close>.
\<close>

lemma srgbToLinear_unit:
  assumes "0 \<le> x" and "x \<le> 1"
  shows "\<exists>y. srgbToLinear (Num x) = Num y \<and> 0 \<le> y \<and> y \<le> 1"
proof (cases "x \<le> 0.04045")
  case True
  then have "srgbToLinear (Num x) = Num (x / 12.92)"
    by (simp add: srgbToLinear_def)
  moreover have "0 \<le> x / 12.92" "x / 12.92 \<le> 1"
    using assms by simp_all
  ultimately show ?thesis by blast
next
  case False
  define u where "u = (x + 0.055) / 1.055"
  have u: "0 \<le> u" "u \<le> 1"
    using assms by (simp_all add: u_def)
  have "srgbToLinear (Num x) = Num (u powr 2.4)"
    using False u(1) by (simp add: srgbToLinear_def Math_pow_def u_def not_less)
  moreover have "0 \<le> u powr 2.4"
    by simp
  moreover have "u powr 2.4 \<le> 1 powr 2.4"
    using u by (intro powr_mono2) simp_all
  ultimately show ?thesis by auto
qed

lemma root3_unit:
  assumes "0 \<le> x" and "x \<le> 1"
  shows "0 \<le> root 3 x" and "root 3 x \<le> 1"
proof -
  show "0 \<le> root 3 x"
    using assms(1) by simp
  have "root 3 x \<le> root 3 1"
    using assms(2) by (simp only: real_root_le_iff [of 3])
  then show "root 3 x \<le> 1"
    by simp
qed

lemma root3_times_8: "root 3 (8 * x) = 2 * root 3 x"
proof -
  have "root 3 (2 ^ 3) = (2::real)"
    by (rule real_root_pos2) simp_all
  then have "root 3 8 = (2::real)"
    by simp
  then show ?thesis
    by (simp add: real_root_mult)
qed

lemma rgbValuesToOklch_range:
  assumes "0 \<le> r" "r \<le> 255" "0 \<le> g" "g \<le> 255" "0 \<le> b" "b \<le> 255"
  shows "\<exists>L C H. rgbValuesToOklch (Num r) (Num g) (Num b) =
             \<lparr>ok_l = Num L, ok_c = Num C, ok_h = Num H\<rparr> \<and>
           0 \<le> L \<and> L \<le> 2 \<and> 0 \<le> C \<and> C \<le> 4 \<and> 0 \<le> H \<and> H < 360"
proof -
  obtain R where R: "srgbToLinear (Num (r / 255)) = Num R" "0 \<le> R" "R \<le> 1"
    using srgbToLinear_unit [of "r / 255"] assms(1,2) by auto
  obtain G where G: "srgbToLinear (Num (g / 255)) = Num G" "0 \<le> G" "G \<le> 1"
    using srgbToLinear_unit [of "g / 255"] assms(3,4) by auto
  obtain B where B: "srgbToLinear (Num (b / 255)) = Num B" "0 \<le> B" "B \<le> 1"
    using srgbToLinear_unit [of "b / 255"] assms(5,6) by auto
  define ll where "ll = 0.4122214708 * R + 0.5363325363 * G + 0.0514459929 * B"
  define mm where "mm = 0.2119034982 * R + 0.6806995451 * G + 0.1073969566 * B"
  define ss where "ss = 0.0883024619 * R + 0.2817188376 * G + 0.6299787005 * B"
  have lms: "0 \<le> ll" "ll \<le> 1" "0 \<le> mm" "mm \<le> 1" "0 \<le> ss" "ss \<le> 1" "ss \<le> 8 * mm"
    using R(2,3) G(2,3) B(2,3) unfolding ll_def mm_def ss_def by (simp_all; linarith)+
  define l where "l = root 3 ll"
  define m where "m = root 3 mm"
  define s where "s = root 3 ss"
  have l: "0 \<le> l" "l \<le> 1"
    unfolding l_def using root3_unit [OF lms(1,2)] by simp_all
  have m: "0 \<le> m" "m \<le> 1"
    unfolding m_def using root3_unit [OF lms(3,4)] by simp_all
  have s: "0 \<le> s" "s \<le> 1"
    unfolding s_def using root3_unit [OF lms(5,6)] by simp_all
  have "root 3 ss \<le> root 3 (8 * mm)"
    using lms(7) by (simp only: real_root_le_iff [of 3])
  then have sm: "s \<le> 2 * m"
    by (simp add: s_def m_def root3_times_8)
  define L where "L = 0.2104542553 * l + 0.7936177850 * m - 0.0040720468 * s"
  define a where "a = 1.9779984951 * l - 2.4285922050 * m + 0.4505937099 * s"
  define bb where "bb = 0.0259040371 * l + 0.7827717662 * m - 0.8086757660 * s"
  have Lr: "0 \<le> L" "L \<le> 2"
    using l m s sm unfolding L_def by (simp_all; linarith)+
  have ar: "\<bar>a\<bar> \<le> 3" "\<bar>bb\<bar> \<le> 1"
    using l m s unfolding a_def bb_def by (simp_all; linarith)+
  have "a * a = \<bar>a\<bar> * \<bar>a\<bar>" "bb * bb = \<bar>bb\<bar> * \<bar>bb\<bar>"
    by simp_all
  moreover have "\<bar>a\<bar> * \<bar>a\<bar> \<le> 3 * 3"
    using ar(1) by (intro mult_mono) simp_all
  moreover have "\<bar>bb\<bar> * \<bar>bb\<bar> \<le> 1 * 1"
    using ar(2) by (intro mult_mono) simp_all
  ultimately have sq: "0 \<le> a * a + bb * bb" "a * a + bb * bb \<le> 16"
    by simp_all
  have "sqrt (a * a + bb * bb) \<le> sqrt 16"
    using sq(2) by (simp only: real_sqrt_le_iff)
  moreover have "sqrt 16 = (4::real)"
    using real_sqrt_abs2 [of 4] by simp
  ultimately have Cr: "0 \<le> sqrt (a * a + bb * bb)" "sqrt (a * a + bb * bb) \<le> 4"
    using sq(1) by simp_all
  obtain L' C' H where eq: "rgbValuesToOklch (Num r) (Num g) (Num b) =
      \<lparr>ok_l = Num L', ok_c = Num C', ok_h = Num H\<rparr>"
    using rgbValuesToOklch_Num by blast
  have "ok_l (rgbValuesToOklch (Num r) (Num g) (Num b)) = Num L"
    by (simp add: rgbValuesToOklch_def R G B Math_cbrt_def Let_def L_def l_def m_def s_def
        ll_def mm_def ss_def)
  then have L': "L' = L"
    using eq by simp
  have "ok_c (rgbValuesToOklch (Num r) (Num g) (Num b)) = Num (sqrt (a * a + bb * bb))"
    using sq(1)
    by (simp add: rgbValuesToOklch_def R G B Math_cbrt_def Math_sqrt_def Let_def a_def bb_def
        l_def m_def s_def ll_def mm_def ss_def not_less)
  then have C': "C' = sqrt (a * a + bb * bb)"
    using eq by simp
  have "Num 0 \<le> Num H \<and> Num H < Num 360"
    using rgbValuesToOklch_hue [of "Num r" "Num g" "Num b"] eq by simp
  then have "0 \<le> H" "H < 360"
    by simp_all
  then show ?thesis
    using eq Lr Cr L' C' by blast
qed

lemma hexToOklch_range:
  "\<exists>L C H. hexToOklch s = \<lparr>ok_l = Num L, ok_c = Num C, ok_h = Num H\<rparr> \<and>
     0 \<le> L \<and> L \<le> 2 \<and> 0 \<le> C \<and> C \<le> 4 \<and> 0 \<le> H \<and> H < 360"
proof -
  have byte: "0 \<le> (of_int (k mod 256) :: real) \<and> (of_int (k mod 256) :: real) \<le> 255" for k :: int
  proof -
    have "0 \<le> k mod 256" "k mod 256 < 256"
      by simp_all
    then have "0 \<le> k mod 256" "k mod 256 \<le> 255"
      by linarith+
    then show ?thesis
      by (metis of_int_0_le_iff of_int_le_iff of_int_numeral)
  qed
  show ?thesis
    unfolding hexToOklch_def hexToRgb_def shift_and_255_def Let_def rgb.simps
    using byte by (intro rgbValuesToOklch_range) simp_all
qed

text \<open>
  Every text that \<^verbatim>\<open>parseColor\<close> accepts on its hex paths (a text that begins with \<^verbatim>\<open>#\<close>,
  or three to eight hex digits) parses to a triple of numbers with the lightness in
  \<open>[0, 2]\<close>, the chroma in \<open>[0, 4]\<close> and the hue in \<open>[0, 360)\<close>.
\<close>

theorem hex_colour_range:
  assumes "parseColor (JString s) = Inr col"
    and "startsWith (toLowerCase (trim s)) ''#'' \<or> hex_digits_3_to_8 (toLowerCase (trim s))"
  shows "\<exists>L C H. col = \<lparr>ok_l = Num L, ok_c = Num C, ok_h = Num H\<rparr> \<and>
           0 \<le> L \<and> L \<le> 2 \<and> 0 \<le> C \<and> C \<le> 4 \<and> 0 \<le> H \<and> H < 360"
proof -
  define t where "t = toLowerCase (trim s)"
  have excl: "\<not> (startsWith t ''oklch('' \<and> startsWith t ''#'')"
    by (auto simp: startsWith_iff)
  have "col = hexToOklch t \<or> col = hexToOklch (''#'' @ t)"
    using assms excl hex_digits_first [of t]
    by (auto simp: parseColor_def Let_def t_def [symmetric] regex_test_re_hex split: if_splits)
  then show ?thesis
    using hexToOklch_range [of t] hexToOklch_range [of "''#'' @ t"] by auto
qed

theorem hex_colour_range_witness:
  "parseColor (JString ''#3b82f6'') = Inr (hexToOklch ''#3b82f6'') \<and>
   startsWith (toLowerCase (trim ''#3b82f6'')) ''#'' \<and>
   (\<exists>L C H. hexToOklch ''#3b82f6'' = \<lparr>ok_l = Num L, ok_c = Num C, ok_h = Num H\<rparr> \<and>
      0 \<le> L \<and> L \<le> 2 \<and> 0 \<le> C \<and> C \<le> 4 \<and> 0 \<le> H \<and> H < 360)"
proof -
  have hash: "startsWith (toLowerCase (trim ''#3b82f6'')) ''#''"
    by (simp add: string_eval)
  then have "startsWith (toLowerCase (trim ''#3b82f6'')) ''#'' \<or>
      hex_digits_3_to_8 (toLowerCase (trim ''#3b82f6''))"
    by blast
  from hex_colour_range [OF parseColor_hash this] parseColor_hash hash show ?thesis
    by blast
qed

section \<open>The hex output format\<close>

text \<open>
  A channel that \<^verbatim>\<open>oklchToRgb\<close> returns for numeric arguments is an integer from 0 to 255,
  which \<^verbatim>\<open>toString(16)\<close> and \<^verbatim>\<open>padStart\<close> render as two lower-case hex digits.
\<close>

lemma not_NaN_Num: "a \<noteq> NaN \<Longrightarrow> \<exists>x. a = Num x"
  by (cases a) auto

lemma hex_digit_char: "k < 16 \<Longrightarrow> digits36 ! k \<in> set ''0123456789abcdef''"
proof -
  assume "k < 16"
  then have "k = 0 \<or> k = 1 \<or> k = 2 \<or> k = 3 \<or> k = 4 \<or> k = 5 \<or> k = 6 \<or> k = 7 \<or> k = 8 \<or>
      k = 9 \<or> k = 10 \<or> k = 11 \<or> k = 12 \<or> k = 13 \<or> k = 14 \<or> k = 15"
    by arith
  then show ?thesis
    by (auto simp: digits36_def)
qed

lemma toHex_byte:
  assumes "n \<le> 255"
  shows "\<exists>a b. toHex (Num (real n)) = [a, b] \<and> a \<in> set ''0123456789abcdef'' \<and>
           b \<in> set ''0123456789abcdef''"
proof (cases "n < 16")
  case True
  then have "nat_digits 16 n = [digits36 ! n]"
    by (simp add: nat_digits.simps)
  then have "toHex (Num (real n)) = [CHR ''0'', digits36 ! n]"
    by (simp add: toHex_def toString16_def padStart_def)
  then show ?thesis
    using hex_digit_char [OF True] by simp
next
  case False
  have hi: "n div 16 < 16"
    using assms by simp
  have lo: "n mod 16 < 16"
    by simp
  have "nat_digits 16 n = [digits36 ! (n div 16), digits36 ! (n mod 16)]"
    using False hi by (simp add: nat_digits.simps [of 16 n] nat_digits.simps [of 16 "n div 16"])
  then have "toHex (Num (real n)) = [digits36 ! (n div 16), digits36 ! (n mod 16)]"
    by (simp add: toHex_def toString16_def padStart_def)
  then show ?thesis
    using hex_digit_char [OF hi] hex_digit_char [OF lo] by simp
qed

lemma formatHex_bytes:
  assumes "r \<le> 255" "g \<le> 255" "b \<le> 255"
  shows "is_hex6 (formatHex (Num (real r)) (Num (real g)) (Num (real b)))"
proof -
  obtain r1 r2 where r: "toHex (Num (real r)) = [r1, r2]"
    "r1 \<in> set ''0123456789abcdef''" "r2 \<in> set ''0123456789abcdef''"
    using toHex_byte [OF assms(1)] by blast
  obtain g1 g2 where g: "toHex (Num (real g)) = [g1, g2]"
    "g1 \<in> set ''0123456789abcdef''" "g2 \<in> set ''0123456789abcdef''"
    using toHex_byte [OF assms(2)] by blast
  obtain b1 b2 where b: "toHex (Num (real b)) = [b1, b2]"
    "b1 \<in> set ''0123456789abcdef''" "b2 \<in> set ''0123456789abcdef''"
    using toHex_byte [OF assms(3)] by blast
  show ?thesis
    using r(2,3) g(2,3) b(2,3) by (simp add: formatHex_def is_hex6_def r(1) g(1) b(1))
qed

lemma formatHex_oklchToRgb:
  "is_hex6 (formatHex (rgb_r (oklchToRgb (Num l) (Num c) (Num h)))
      (rgb_g (oklchToRgb (Num l) (Num c) (Num h))) (rgb_b (oklchToRgb (Num l) (Num c) (Num h))))"
proof -
  obtain r g b where
    "oklchToRgb (Num l) (Num c) (Num h) =
       \<lparr>rgb_r = Num (real r), rgb_g = Num (real g), rgb_b = Num (real b)\<rparr>"
    "r \<le> 255" "g \<le> 255" "b \<le> 255"
    using oklchToRgb_Num by blast
  then show ?thesis
    by (simp add: formatHex_bytes)
qed

lemma fixed_targetL_Num:
  assumes "level \<in> set SHADE_LEVELS" and "\<not> (smart \<and> level = 500)"
  shows "fixed_targetL smart \<lparr>ok_l = Num L, ok_c = Num C, ok_h = Num H\<rparr> level \<noteq> NaN"
  using assms
  by (auto simp: SHADE_LEVELS_def fixed_targetL_def RELATIVE_POSITION_def LIGHTNESS_MAP_def
      LIGHT_HALF_RANGE_def DARK_HALF_RANGE_def)

lemma CHROMA_SCALE_Num:
  assumes "level \<in> set SHADE_LEVELS"
  shows "CHROMA_SCALE level \<noteq> NaN"
  using assms by (auto simp: SHADE_LEVELS_def CHROMA_SCALE_def)

lemma fixed_shade_hex:
  assumes "level \<in> set SHADE_LEVELS"
  shows "(smart \<and> level = 500 \<and> startsWith oc ''#'' \<longrightarrow>
            fixed_shade \<lparr>ok_l = Num L, ok_c = Num C, ok_h = Num H\<rparr> oc (JString ''hex'') smart level =
              oc) \<and>
         (\<not> (smart \<and> level = 500 \<and> startsWith oc ''#'') \<longrightarrow>
            is_hex6 (fixed_shade \<lparr>ok_l = Num L, ok_c = Num C, ok_h = Num H\<rparr> oc (JString ''hex'')
              smart level))"
proof (cases "smart \<and> level = 500")
  case True
  then show ?thesis
    by (simp add: fixed_shade_def formatHexFromOklch_def Let_def formatHex_oklchToRgb)
next
  case False
  obtain x where x: "fixed_targetL smart \<lparr>ok_l = Num L, ok_c = Num C, ok_h = Num H\<rparr> level = Num x"
    using not_NaN_Num [OF fixed_targetL_Num [OF assms False]] by blast
  obtain y where y: "CHROMA_SCALE level = Num y"
    using not_NaN_Num [OF CHROMA_SCALE_Num [OF assms]] by blast
  show ?thesis
    using False by (auto simp: fixed_shade_def Let_def x y findMaxChroma_Num formatHex_oklchToRgb)
qed


lemma normalizeHue_Num:
  "normalizeHue (Num x) =
     Num (if x - 360 * (sgn (x / 360) * of_int \<lfloor>\<bar>x / 360\<bar>\<rfloor>) < 0
          then x - 360 * (sgn (x / 360) * of_int \<lfloor>\<bar>x / 360\<bar>\<rfloor>) + 360
          else x - 360 * (sgn (x / 360) * of_int \<lfloor>\<bar>x / 360\<bar>\<rfloor>))"
  by (simp add: normalizeHue_def js_rem_def Let_def)

lemma enhanced_shade_hex:
  "(exactMatch \<noteq> JBool False \<and> level = 500 \<and> startsWith oc ''#'' \<longrightarrow>
      enhanced_shade \<lparr>ok_l = Num L, ok_c = Num C, ok_h = Num H\<rparr> oc (JString ''hex'') exactMatch
        \<lparr>ok_l = Num l1, ok_c = Num c1, ok_h = Num h1\<rparr> \<lparr>ok_l = Num l2, ok_c = Num c2, ok_h = Num h2\<rparr>
        (Num p) i level = oc) \<and>
   (\<not> (exactMatch \<noteq> JBool False \<and> level = 500 \<and> startsWith oc ''#'') \<longrightarrow>
      is_hex6 (enhanced_shade \<lparr>ok_l = Num L, ok_c = Num C, ok_h = Num H\<rparr> oc (JString ''hex'')
        exactMatch \<lparr>ok_l = Num l1, ok_c = Num c1, ok_h = Num h1\<rparr>
        \<lparr>ok_l = Num l2, ok_c = Num c2, ok_h = Num h2\<rparr> (Num p) i level))"
  by (simp add: enhanced_shade_def Let_def lerp_def quadBezier_def normalizeHue_Num
      findMaxChroma_Num formatHex_oklchToRgb formatHexFromOklch_def)

lemma configured_modes:
  assumes "(case mode_entry_of mode of Some e \<Rightarrow> e | None \<Rightarrow> ModeConfig config_fixed) = ModeConfig cfg"
  shows "cfg = config_fixed \<or> cfg = config_natural \<or> cfg = config_vivid"
  using assms
  by (auto simp: mode_entry_of_def MODE_CONFIG_def split: jsval.splits option.splits if_splits)

lemma level_has_index:
  assumes "level \<in> set SHADE_LEVELS"
  shows "\<exists>i. (i, level) \<in> set (zip [0..<length SHADE_LEVELS] SHADE_LEVELS)"
proof -
  from assms obtain i where i: "i < length SHADE_LEVELS" "SHADE_LEVELS ! i = level"
    by (auto simp: in_set_conv_nth)
  then have "(i, level) \<in> set (zip [0..<length SHADE_LEVELS] SHADE_LEVELS)"
    by (auto simp: set_zip intro!: exI [of _ i])
  then show ?thesis ..
qed

lemma enhanced_ends_Num:
  assumes "cfg = config_fixed \<or> cfg = config_natural \<or> cfg = config_vivid"
  shows "LIGHTNESS_MAP 50 \<noteq> NaN" "LIGHTNESS_MAP 950 \<noteq> NaN"
    "Num C * lightEndChroma cfg \<noteq> NaN" "Num C * darkEndChroma cfg \<noteq> NaN"
    "Num C * chromaBoost cfg \<noteq> NaN"
    "normalizeHue (Num H + (if w then hueShift_light cfg else - hueShift_light cfg)) \<noteq> NaN"
    "normalizeHue (Num H + (if w then hueShift_dark cfg else - hueShift_dark cfg)) \<noteq> NaN"
  using assms
  by (auto simp: config_fixed_def config_natural_def config_vivid_def LIGHTNESS_MAP_def
      normalizeHue_Num)

text \<open>
  Claim C6, as amended. Let the input parse to a triple of numbers of magnitude at most
  \<open>10\<^sup>2\<^sup>1\<close> (no \<open>NaN\<close>, and far from the range where a double overflows) and the format be
  \<^verbatim>\<open>hex\<close>. In every ramp that \<^verbatim>\<open>generateShades\<close> returns (any mode, any \<^verbatim>\<open>exactMatch\<close>),
  every value is \<^verbatim>\<open>#\<close> and six lower-case hex digits, except the level-500 value when
  \<^verbatim>\<open>exactMatch\<close> is not \<^verbatim>\<open>false\<close> and the input text begins with \<^verbatim>\<open>#\<close>: that value is the
  input text itself, as it was written.
\<close>

theorem hex_output_format:
  assumes "parseColor (JString s) = Inr \<lparr>ok_l = Num L, ok_c = Num C, ok_h = Num H\<rparr>"
    and "\<bar>L\<bar> \<le> 10 ^ 21" and "\<bar>C\<bar> \<le> 10 ^ 21" and "\<bar>H\<bar> \<le> 10 ^ 21"
    and "lookup_prop options ''format'' = JString ''hex''"
    and "generateShades (JString s) options = Inr ramp"
    and "level \<in> set SHADE_LEVELS"
  shows "(level = 500 \<and> lookup_prop options ''exactMatch'' \<noteq> JBool False \<and> startsWith s ''#'' \<longrightarrow>
            ramp level = Some s) \<and>
         (\<not> (level = 500 \<and> lookup_prop options ''exactMatch'' \<noteq> JBool False \<and> startsWith s ''#'') \<longrightarrow>
            (\<exists>v. ramp level = Some v \<and> is_hex6 v))"
proof -
  define base where "base = \<lparr>ok_l = Num L, ok_c = Num C, ok_h = Num H\<rparr>"
  note base = base_def
  have parsed: "parseColor (JString s) = Inr base"
    using assms(1) by (simp add: base)
  define mode where "mode = with_default (lookup_prop options ''mode'') (JString ''fixed'')"
  define em where "em = lookup_prop options ''exactMatch''"
  have fmt: "with_default (lookup_prop options ''format'') (JString ''oklch'') = JString ''hex''"
    by (simp add: assms(5) with_default_def)
  show ?thesis
  proof (cases "mode = JString ''fixed''")
    case True
    then have "ramp = generateFixedShades base s (JString ''hex'') em"
      using parsed assms(6)
      by (simp add: generateShades_def Let_def fmt mode_def em_def string_of_def)
    then have "ramp level = Some (fixed_shade base s (JString ''hex'') (em \<noteq> JBool False) level)"
      using assms(7) by (simp add: generateFixedShades_at)
    then show ?thesis
      using fixed_shade_hex [OF assms(7), where L = L and C = C and H = H and oc = s
          and smart = "em \<noteq> JBool False"]
      by (auto simp: base em_def)
  next
    case False
    define config where
      "config = (case mode_entry_of mode of Some e \<Rightarrow> e | None \<Rightarrow> ModeConfig config_fixed)"
    have run: "generateEnhancedShades base s (JString ''hex'') config em = Inr ramp"
      using parsed assms(6) False
      by (simp add: generateShades_def Let_def fmt mode_def em_def string_of_def config_def)
    then obtain cfg where cfg: "config = ModeConfig cfg"
      by (cases config) (auto simp: generateEnhancedShades_Inherited)
    then have three: "cfg = config_fixed \<or> cfg = config_natural \<or> cfg = config_vivid"
      using configured_modes [of mode cfg] by (simp add: config_def)
    obtain i where i: "(i, level) \<in> set (zip [0..<length SHADE_LEVELS] SHADE_LEVELS)"
      using level_has_index [OF assms(7)] by blast
    note nn = enhanced_ends_Num [OF three]
    obtain l1 where l1: "LIGHTNESS_MAP 50 = Num l1"
      using not_NaN_Num [OF nn(1)] by blast
    obtain l2 where l2: "LIGHTNESS_MAP 950 = Num l2"
      using not_NaN_Num [OF nn(2)] by blast
    obtain c1 where c1: "Num C * lightEndChroma cfg = Num c1"
      using not_NaN_Num [OF nn(3)] by blast
    obtain c2 where c2: "Num C * darkEndChroma cfg = Num c2"
      using not_NaN_Num [OF nn(4)] by blast
    obtain p where p: "Num C * chromaBoost cfg = Num p"
      using not_NaN_Num [OF nn(5)] by blast
    obtain h1 where h1:
      "normalizeHue (Num H +
         (if isWarmColor (Num H) then hueShift_light cfg else - hueShift_light cfg)) = Num h1"
      using not_NaN_Num [OF nn(6)] by blast
    obtain h2 where h2:
      "normalizeHue (Num H +
         (if isWarmColor (Num H) then hueShift_dark cfg else - hueShift_dark cfg)) = Num h2"
      using not_NaN_Num [OF nn(7)] by blast
    have "ramp level = Some (enhanced_shade base s (JString ''hex'') em
        \<lparr>ok_l = Num l1, ok_c = Num c1, ok_h = Num h1\<rparr> \<lparr>ok_l = Num l2, ok_c = Num c2, ok_h = Num h2\<rparr>
        (Num p) i level)"
      using generateEnhancedShades_at [OF i, of base s "JString ''hex''" cfg em] run
      by (simp add: cfg base l1 l2 c1 c2 p h1 h2)
    then show ?thesis
      using enhanced_shade_hex [where exactMatch = em and level = level and oc = s and L = L
          and C = C and H = H and ?l1.0 = l1 and ?c1.0 = c1 and ?h1.0 = h1 and ?l2.0 = l2
          and ?c2.0 = c2 and ?h2.0 = h2 and p = p and i = i]
      by (auto simp: base em_def)
  qed
qed


theorem hex_output_format_witness:
  "\<exists>L C H ramp v.
     parseColor (JString ''#3b82f6'') = Inr \<lparr>ok_l = Num L, ok_c = Num C, ok_h = Num H\<rparr> \<and>
     \<bar>L\<bar> \<le> 10 ^ 21 \<and> \<bar>C\<bar> \<le> 10 ^ 21 \<and> \<bar>H\<bar> \<le> 10 ^ 21 \<and>
     lookup_prop [(''format'', JString ''hex'')] ''format'' = JString ''hex'' \<and>
     500 \<in> set SHADE_LEVELS \<and> 50 \<in> set SHADE_LEVELS \<and>
     generateShades (JString ''#3b82f6'') [(''format'', JString ''hex'')] = Inr ramp \<and>
     ramp 500 = Some ''#3b82f6'' \<and> ramp 50 = Some v \<and> is_hex6 v"
proof -
  let ?opts = "[(''format'', JString ''hex'')]"
  obtain L C H where triple:
    "hexToOklch ''#3b82f6'' = \<lparr>ok_l = Num L, ok_c = Num C, ok_h = Num H\<rparr>"
    "0 \<le> L" "L \<le> 2" "0 \<le> C" "C \<le> 4" "0 \<le> H" "H < 360"
    using hexToOklch_range [of "''#3b82f6''"] by blast
  have parsed: "parseColor (JString ''#3b82f6'') = Inr \<lparr>ok_l = Num L, ok_c = Num C, ok_h = Num H\<rparr>"
    using parseColor_hash triple(1) by simp
  have rng: "\<bar>L\<bar> \<le> 10 ^ 21" "\<bar>C\<bar> \<le> 10 ^ 21" "\<bar>H\<bar> \<le> 10 ^ 21"
    using triple(2-7) by simp_all
  have fmt: "lookup_prop ?opts ''format'' = JString ''hex''"
    by (simp add: lookup_prop_def)
  have levels: "500 \<in> set SHADE_LEVELS" "50 \<in> set SHADE_LEVELS"
    by (simp_all add: SHADE_LEVELS_def)
  obtain ramp where ramp: "generateShades (JString ''#3b82f6'') ?opts = Inr ramp"
    by (simp add: generateShades_def parseColor_hash lookup_prop_def with_default_def)
  have at_500: "ramp 500 = Some ''#3b82f6''"
    using hex_output_format [OF parsed rng fmt ramp levels(1)]
    by (simp add: lookup_prop_def startsWith_def)
  have "\<exists>v. ramp 50 = Some v \<and> is_hex6 v"
    using hex_output_format [OF parsed rng fmt ramp levels(2)] by simp
  then show ?thesis
    using parsed rng fmt levels ramp at_500 by blast
qed

text \<open>
  The claim as stated fails on \<^verbatim>\<open>#FFF\<close>: level 500 is \<^verbatim>\<open>#FFF\<close>, three upper-case
  digits.
\<close>

theorem hex_output_echoes_input:
  "\<exists>ramp. generateShades (JString ''#FFF'') [(''format'', JString ''hex'')] = Inr ramp \<and>
     ramp 500 = Some ''#FFF'' \<and> \<not> is_hex6 ''#FFF''"
proof -
  have "parseColor (JString ''#FFF'') = Inr (hexToOklch ''#fff'')"
    by (simp add: parseColor_def string_eval)
  then have "generateShades (JString ''#FFF'') [(''format'', JString ''hex'')] =
      Inr (generateFixedShades (hexToOklch ''#fff'') ''#FFF'' (JString ''hex'') JUndefined)"
    by (simp add: generateShades_def lookup_prop_def with_default_def string_of_def)
  moreover have
    "generateFixedShades (hexToOklch ''#fff'') ''#FFF'' (JString ''hex'') JUndefined 500 = Some ''#FFF''"
    by (simp add: generateFixedShades_at SHADE_LEVELS_def fixed_shade_def startsWith_def)
  moreover have "\<not> is_hex6 ''#FFF''"
    by (simp add: is_hex6_def)
  ultimately show ?thesis by blast
qed

section \<open>Matching the oklch pattern on formatted text\<close>

text \<open>
  The first match of a sequence is made of the first matches of its parts, when each part
  has one where the part before it stopped. On the text \<^verbatim>\<open>formatOklch\<close> prints, every
  repetition takes its longest run and the matcher never backtracks.
\<close>

lemma first_match_Lit:
  "first_match (Lit p) (i, p @ s) = Some ([], (i + length p, s))"
  by (simp add: first_match_def startsWith_def)

lemma first_match_Lit_fail:
  "\<not> startsWith s p \<Longrightarrow> first_match (Lit p) (i, s) = None"
  by (simp add: first_match_def)

lemma takeWhile_run:
  assumes "list_all P ds" and "s = [] \<or> \<not> P (hd s)"
  shows "takeWhile P (ds @ s) = ds"
proof -
  have "takeWhile P s = []"
    using assms(2) by (cases s) auto
  then show ?thesis
    using assms(1) by (simp add: list_all_iff)
qed

lemma first_match_Rep:
  assumes "list_all (\<lambda>c. c \<in> set cls) ds" and "s = [] \<or> hd s \<notin> set cls" and "lo \<le> length ds"
  shows "first_match (Rep cls lo None) (i, ds @ s) = Some ([], (i + length ds, s))"
proof -
  have run: "takeWhile (\<lambda>c. c \<in> set cls) (ds @ s) = ds"
    using assms(1,2) by (rule takeWhile_run)
  have "filter (\<lambda>k. lo \<le> k) (rev [0..<Suc (length ds)]) =
          length ds # filter (\<lambda>k. lo \<le> k) (rev [0..<length ds])"
    using assms(3) by simp
  then show ?thesis
    by (simp add: first_match_def run Let_def)
qed

lemma first_match_Grp:
  assumes "first_match r (i, s) = Some (caps, (j, rest))"
  shows "first_match (Grp r) (i, s) = Some (Some (take (j - i) s) # caps, (j, rest))"
  using assms by (auto simp: first_match_def split: list.splits)

lemma first_match_Opt_some:
  assumes "first_match r st = Some m"
  shows "first_match (Opt r) st = Some m"
  using assms by (auto simp: first_match_def split: list.splits)

lemma first_match_Opt_none:
  assumes "first_match r st = None"
  shows "first_match (Opt r) st = Some (replicate (groups r) None, st)"
  using assms by (auto simp: first_match_def split: list.splits)

lemma first_match_Cat:
  assumes "first_match r1 st = Some (caps1, st1)" and "first_match r2 st1 = Some (caps2, st2)"
  shows "first_match (Cat r1 r2) st = Some (caps1 @ caps2, st2)"
  using assms by (auto simp: first_match_def split: list.splits)

lemma regex_match_first:
  assumes "first_match re (0, s) = Some (caps, st)"
  shows "regex_match re s = Some caps"
  using assms by (cases s) (auto simp: regex_match_def first_match_def split: list.splits)


lemma first_match_num_group:
  assumes "A \<noteq> []" and "list_all (\<lambda>c. c \<in> set cls_num) A" and "s = [] \<or> hd s \<notin> set cls_num"
  shows "first_match (Grp (plus cls_num)) (i, A @ s) = Some ([Some A], (i + length A, s))"
proof -
  have "1 \<le> length A"
    using assms(1) by (cases A) auto
  then have "first_match (plus cls_num) (i, A @ s) = Some ([], (i + length A, s))"
    unfolding plus_def using assms(2,3) by (intro first_match_Rep) auto
  then show ?thesis
    using first_match_Grp [of "plus cls_num" i "A @ s" "[]" "i + length A" s] by simp
qed

lemma first_match_one_space:
  assumes "s = [] \<or> hd s \<notin> set cls_space"
  shows "first_match (plus cls_space) (i, '' '' @ s) = Some ([], (Suc i, s))"
proof -
  have "first_match (Rep cls_space 1 None) (i, '' '' @ s) = Some ([], (i + length '' '', s))"
    using assms by (intro first_match_Rep) (auto simp: cls_space_def white_space_def)
  then show ?thesis
    by (simp add: plus_def)
qed

lemma first_match_no_space:
  assumes "s = [] \<or> hd s \<notin> set cls_space"
  shows "first_match (star cls_space) (i, s) = Some ([], (i, s))"
  using first_match_Rep [of cls_space "[]" s 0 i] assms by (simp add: star_def)

lemma num_not_space: "c \<in> set cls_num \<Longrightarrow> c \<notin> set cls_space"
  by (auto simp: cls_num_def cls_space_def white_space_def)

lemma re_oklch_match:
  assumes A: "A \<noteq> []" "list_all (\<lambda>c. c \<in> set cls_num) A"
    and B: "B \<noteq> []" "list_all (\<lambda>c. c \<in> set cls_num) B"
    and C: "C \<noteq> []" "list_all (\<lambda>c. c \<in> set cls_num) C"
  shows "regex_match re_oklch (''oklch('' @ A @ ''% '' @ B @ '' '' @ C @ '')'') =
           Some [Some A, Some ''%'', Some B, Some C, None]"
proof -
  let ?r11 = "Lit '')''"
  let ?r10 = "Cat (star cls_space) ?r11"
  let ?r9 = "Cat (Opt (Grp (Lit ''deg''))) ?r10"
  let ?r8 = "Cat (Grp (plus cls_num)) ?r9"
  let ?r7 = "Cat (plus cls_space) ?r8"
  let ?r6 = "Cat (Grp (plus cls_num)) ?r7"
  let ?r5 = "Cat (plus cls_space) ?r6"
  let ?r4 = "Cat (Grp (Opt (Lit ''%''))) ?r5"
  let ?r3 = "Cat (Grp (plus cls_num)) ?r4"
  let ?r2 = "Cat (star cls_space) ?r3"
  let ?r1 = "Cat (Lit ''oklch('') ?r2"
  have hdA: "hd (A @ s) \<notin> set cls_space" for s
    using A num_not_space by (cases A) auto
  have hdB: "hd (B @ s) \<notin> set cls_space" for s
    using B num_not_space by (cases B) auto
  have hdC: "hd (C @ s) \<notin> set cls_space" for s
    using C num_not_space by (cases C) auto
  have f11: "first_match ?r11 (i, '')'') = Some ([], (Suc i, []))" for i
    using first_match_Lit [of "'')''" i "[]"] by simp
  have s10: "first_match (star cls_space) (i, '')'') = Some ([], (i, '')''))" for i
    by (rule first_match_no_space) (simp add: cls_space_def white_space_def)
  have f10: "first_match ?r10 (i, '')'') = Some ([] @ [], (Suc i, []))" for i
    by (rule first_match_Cat [OF s10 f11])
  have "first_match (Grp (Lit ''deg'')) (i, '')'') = None" for i
    by (simp add: first_match_def startsWith_def)
  then have o9: "first_match (Opt (Grp (Lit ''deg''))) (i, '')'') = Some ([None], (i, '')''))" for i
    using first_match_Opt_none [of "Grp (Lit ''deg'')" "(i, '')'')"] by simp
  have f9: "first_match ?r9 (i, '')'') = Some ([None] @ ([] @ []), (Suc i, []))" for i
    by (rule first_match_Cat [OF o9 f10])
  have g8: "first_match (Grp (plus cls_num)) (i, C @ '')'') = Some ([Some C], (i + length C, '')''))"
    for i
    using C by (intro first_match_num_group) (auto simp: cls_num_def)
  have f8: "first_match ?r8 (i, C @ '')'') = Some ([Some C] @ [None] @ ([] @ []), (Suc (i + length C), []))"
    for i
    by (rule first_match_Cat [OF g8 f9])
  have s7: "first_match (plus cls_space) (i, '' '' @ C @ '')'') = Some ([], (Suc i, C @ '')''))" for i
    using hdC by (intro first_match_one_space) simp
  have f7: "first_match ?r7 (i, '' '' @ C @ '')'') =
      Some ([] @ [Some C] @ [None] @ ([] @ []), (Suc (Suc i + length C), []))" for i
    by (rule first_match_Cat [OF s7 f8])
  have g6: "first_match (Grp (plus cls_num)) (i, B @ '' '' @ C @ '')'') =
      Some ([Some B], (i + length B, '' '' @ C @ '')''))" for i
    using B by (intro first_match_num_group) (auto simp: cls_num_def)
  have f6: "first_match ?r6 (i, B @ '' '' @ C @ '')'') =
      Some ([Some B] @ [] @ [Some C] @ [None] @ ([] @ []),
            (Suc (Suc (i + length B) + length C), []))" for i
    by (rule first_match_Cat [OF g6 f7])
  have s5: "first_match (plus cls_space) (i, '' '' @ B @ '' '' @ C @ '')'') =
      Some ([], (Suc i, B @ '' '' @ C @ '')''))" for i
    using hdB by (intro first_match_one_space) simp
  have f5: "first_match ?r5 (i, '' '' @ B @ '' '' @ C @ '')'') =
      Some ([] @ [Some B] @ [] @ [Some C] @ [None] @ ([] @ []),
            (Suc (Suc (Suc i + length B) + length C), []))" for i
    by (rule first_match_Cat [OF s5 f6])
  have "first_match (Lit ''%'') (i, ''%'' @ '' '' @ B @ '' '' @ C @ '')'') =
      Some ([], (i + length ''%'', '' '' @ B @ '' '' @ C @ '')''))" for i
    by (rule first_match_Lit)
  then have "first_match (Opt (Lit ''%'')) (i, ''% '' @ B @ '' '' @ C @ '')'') =
      Some ([], (Suc i, '' '' @ B @ '' '' @ C @ '')''))" for i
    using first_match_Opt_some [of "Lit ''%''" "(i, ''% '' @ B @ '' '' @ C @ '')'')"] by simp
  then have g4: "first_match (Grp (Opt (Lit ''%''))) (i, ''% '' @ B @ '' '' @ C @ '')'') =
      Some ([Some ''%''], (Suc i, '' '' @ B @ '' '' @ C @ '')''))" for i
    using first_match_Grp [of "Opt (Lit ''%'')" i "''% '' @ B @ '' '' @ C @ '')''" "[]" "Suc i"]
    by simp
  have f4: "first_match ?r4 (i, ''% '' @ B @ '' '' @ C @ '')'') =
      Some ([Some ''%''] @ [] @ [Some B] @ [] @ [Some C] @ [None] @ ([] @ []),
            (Suc (Suc (Suc (Suc i) + length B) + length C), []))" for i
    by (rule first_match_Cat [OF g4 f5])
  have g3: "first_match (Grp (plus cls_num)) (i, A @ ''% '' @ B @ '' '' @ C @ '')'') =
      Some ([Some A], (i + length A, ''% '' @ B @ '' '' @ C @ '')''))" for i
    using A by (intro first_match_num_group) (auto simp: cls_num_def)
  have f3: "first_match ?r3 (i, A @ ''% '' @ B @ '' '' @ C @ '')'') =
      Some ([Some A] @ [Some ''%''] @ [] @ [Some B] @ [] @ [Some C] @ [None] @ ([] @ []),
            (Suc (Suc (Suc (Suc (i + length A)) + length B) + length C), []))" for i
    by (rule first_match_Cat [OF g3 f4])
  have s2: "first_match (star cls_space) (i, A @ ''% '' @ B @ '' '' @ C @ '')'') =
      Some ([], (i, A @ ''% '' @ B @ '' '' @ C @ '')''))" for i
    using hdA by (intro first_match_no_space) simp
  have f2: "first_match ?r2 (i, A @ ''% '' @ B @ '' '' @ C @ '')'') =
      Some ([] @ [Some A] @ [Some ''%''] @ [] @ [Some B] @ [] @ [Some C] @ [None] @ ([] @ []),
            (Suc (Suc (Suc (Suc (i + length A)) + length B) + length C), []))" for i
    by (rule first_match_Cat [OF s2 f3])
  have l1: "first_match (Lit ''oklch('') (0, ''oklch('' @ A @ ''% '' @ B @ '' '' @ C @ '')'') =
      Some ([], (0 + length ''oklch('', A @ ''% '' @ B @ '' '' @ C @ '')''))"
    by (rule first_match_Lit)
  have "first_match ?r1 (0, ''oklch('' @ A @ ''% '' @ B @ '' '' @ C @ '')'') =
      Some ([] @ [] @ [Some A] @ [Some ''%''] @ [] @ [Some B] @ [] @ [Some C] @ [None] @ ([] @ []),
            (Suc (Suc (Suc (Suc (0 + length ''oklch('' + length A)) + length B) + length C), []))"
    by (rule first_match_Cat [OF l1 f2])
  then show ?thesis
    using regex_match_first [of ?r1] by (simp add: re_oklch_def)
qed


section \<open>Reading back what toFixed prints\<close>

text \<open>
  For \<open>x \<ge> 0\<close> and \<open>d > 0\<close> digits, \<^verbatim>\<open>toFixed\<close> prints the integer \<open>\<lfloor>x 10\<^sup>d + 1/2\<rfloor>\<close> with a
  dot before its last \<open>d\<close> digits, and \<^verbatim>\<open>parseFloat\<close> reads that integer divided by
  \<open>10\<^sup>d\<close> back: the error is at most half a unit of the last digit.
\<close>

lemma digit_value_digit: "m < 10 \<Longrightarrow> digit_value 10 (digits36 ! m) = Some m"
proof -
  assume "m < 10"
  then have "m = 0 \<or> m = 1 \<or> m = 2 \<or> m = 3 \<or> m = 4 \<or> m = 5 \<or> m = 6 \<or> m = 7 \<or> m = 8 \<or> m = 9"
    by arith
  then show ?thesis
    by (elim disjE; hypsubst; code_simp)
qed

lemma digit_char: "m < 10 \<Longrightarrow> digits36 ! m \<in> set digits10"
proof -
  assume "m < 10"
  then have "m = 0 \<or> m = 1 \<or> m = 2 \<or> m = 3 \<or> m = 4 \<or> m = 5 \<or> m = 6 \<or> m = 7 \<or> m = 8 \<or> m = 9"
    by arith
  then show ?thesis
    by (elim disjE; hypsubst; code_simp)
qed

lemma digit_value_in_digits10:
  "c \<in> set digits10 \<Longrightarrow> \<exists>v. digit_value 10 c = Some v"
proof -
  assume "c \<in> set digits10"
  then have "c = CHR ''0'' \<or> c = CHR ''1'' \<or> c = CHR ''2'' \<or> c = CHR ''3'' \<or> c = CHR ''4'' \<or>
      c = CHR ''5'' \<or> c = CHR ''6'' \<or> c = CHR ''7'' \<or> c = CHR ''8'' \<or> c = CHR ''9''"
    by (simp add: digits10_def)
  moreover have "digit_value 10 CHR ''0'' = Some 0" "digit_value 10 CHR ''1'' = Some 1"
    "digit_value 10 CHR ''2'' = Some 2" "digit_value 10 CHR ''3'' = Some 3"
    "digit_value 10 CHR ''4'' = Some 4" "digit_value 10 CHR ''5'' = Some 5"
    "digit_value 10 CHR ''6'' = Some 6" "digit_value 10 CHR ''7'' = Some 7"
    "digit_value 10 CHR ''8'' = Some 8" "digit_value 10 CHR ''9'' = Some 9"
    by code_simp+
  ultimately show ?thesis by auto
qed

lemma nat_digits_10_chars:
  "nat_digits 10 n \<noteq> [] \<and> list_all (\<lambda>c. c \<in> set digits10) (nat_digits 10 n)"
proof (induction "10::nat" n rule: nat_digits.induct)
  case (1 n)
  show ?case
  proof (cases "n < 10")
    case True
    then show ?thesis
      using digit_char [of n] by (simp add: nat_digits.simps [of 10 n])
  next
    case False
    then show ?thesis
      using 1 digit_char [of "n mod 10"] by (simp add: nat_digits.simps [of 10 n])
  qed
qed

lemma leading_digits_run:
  assumes "list_all (\<lambda>c. c \<in> set digits10) ds" and "s = [] \<or> digit_value 10 (hd s) = None"
  shows "leading_digits 10 (ds @ s) = dec ds"
  using assms(1)
proof (induction ds)
  case Nil
  then show ?case
    using assms(2) by (cases s) (auto simp: dec_def)
next
  case (Cons c cs)
  then obtain v where "digit_value 10 c = Some v"
    using digit_value_in_digits10 [of c] by auto
  with Cons show ?case
    by (simp add: dec_def)
qed

lemma digits_value_snoc: "digits_value r (vs @ [v]) = digits_value r vs * r + v"
  by (simp add: digits_value_def)

lemma digits_value_append:
  "digits_value r (a @ b) = digits_value r a * r ^ length b + digits_value r b"
proof (induction b rule: rev_induct)
  case Nil
  then show ?case by (simp add: digits_value_def)
next
  case (snoc v b)
  have "digits_value r (a @ b @ [v]) = digits_value r (a @ b) * r + v"
    using digits_value_snoc [of r "a @ b" v] by simp
  then show ?case
    by (simp add: snoc digits_value_snoc algebra_simps)
qed

lemma dec_nat_digits: "digits_value 10 (dec (nat_digits 10 n)) = n"
proof (induction "10::nat" n rule: nat_digits.induct)
  case (1 n)
  show ?case
  proof (cases "n < 10")
    case True
    then show ?thesis
      using digit_value_digit [of n]
      by (simp add: nat_digits.simps [of 10 n] dec_def digits_value_def)
  next
    case False
    have "dec (nat_digits 10 n) = dec (nat_digits 10 (n div 10)) @ [n mod 10]"
      using False digit_value_digit [of "n mod 10"]
      by (simp add: nat_digits.simps [of 10 n] dec_def)
    then show ?thesis
      using 1 False by (simp add: digits_value_snoc)
  qed
qed

lemma dec_zeros: "digits_value 10 (dec (replicate z CHR ''0'' @ ds)) = digits_value 10 (dec ds)"
proof (induction z)
  case 0
  then show ?case by simp
next
  case (Suc z)
  have zero: "the (digit_value 10 CHR ''0'') = 0"
    by (simp add: digit_value_def digits36_def lower_char_def upper_case_def lower_case_def)
  have "dec (replicate (Suc z) CHR ''0'' @ ds) = [0] @ dec (replicate z CHR ''0'' @ ds)"
    by (simp add: dec_def zero)
  then show ?case
    using Suc digits_value_append [of 10 "[0]" "dec (replicate z CHR ''0'' @ ds)"]
    by (simp add: digits_value_def)
qed


lemma dec_append: "dec (a @ b) = dec a @ dec b"
  by (simp add: dec_def)

lemma length_dec: "length (dec a) = length a"
  by (simp add: dec_def)

lemma toFixed_parts:
  assumes "0 \<le> x" and "0 < d" and "x < 10 ^ 21"
  shows "\<exists>ip fp. toFixed (Num x) d = ip @ ''.'' @ fp \<and> ip \<noteq> [] \<and> length fp = d \<and>
           list_all (\<lambda>c. c \<in> set digits10) ip \<and> list_all (\<lambda>c. c \<in> set digits10) fp \<and>
           digits_value 10 (dec ip) * 10 ^ d + digits_value 10 (dec fp) =
             nat \<lfloor>x * 10 ^ d + 1 / 2\<rfloor>"
proof -
  define n where "n = nat \<lfloor>x * 10 ^ d + 1 / 2\<rfloor>"
  define ds where "ds = padStart (d + 1) CHR ''0'' (nat_digits 10 n)"
  define k where "k = length ds - d"
  have nd: "nat_digits 10 n \<noteq> []" "list_all (\<lambda>c. c \<in> set digits10) (nat_digits 10 n)"
    using nat_digits_10_chars [of n] by simp_all
  have len: "d + 1 \<le> length ds"
    by (simp add: ds_def padStart_def)
  have zero: "CHR ''0'' \<in> set digits10"
    by (simp add: digits10_def)
  have digits: "list_all (\<lambda>c. c \<in> set digits10) ds"
    using nd(2) zero unfolding ds_def padStart_def list_all_iff by auto
  have val: "digits_value 10 (dec ds) = n"
    by (simp add: ds_def padStart_def dec_zeros dec_nat_digits)
  have k: "1 \<le> k" "k \<le> length ds" "length ds - k = d"
    using len by (simp_all add: k_def)
  have split: "ds = take k ds @ drop k ds"
    by simp
  have "digits_value 10 (dec (take k ds @ drop k ds)) =
          digits_value 10 (dec (take k ds)) * 10 ^ length (dec (drop k ds)) +
          digits_value 10 (dec (drop k ds))"
    unfolding dec_append by (rule digits_value_append)
  then have sum: "digits_value 10 (dec (take k ds)) * 10 ^ d + digits_value 10 (dec (drop k ds)) = n"
    using val k(3) by (simp add: length_dec)
  have small: "\<not> 10 ^ 21 \<le> \<bar>x\<bar>"
    using assms(1,3) by simp
  have "toFixed (Num x) d = take k ds @ ''.'' @ drop k ds"
    using assms(1,2) small by (simp add: toFixed_def Let_def n_def ds_def k_def)
  moreover have "take k ds \<noteq> []"
    using k len by (cases ds) auto
  moreover have "length (drop k ds) = d"
    using k(3) by simp
  moreover have "list_all (\<lambda>c. c \<in> set digits10) (take k ds)"
    "list_all (\<lambda>c. c \<in> set digits10) (drop k ds)"
    using digits by (auto simp: list_all_iff dest: in_set_takeD in_set_dropD)
  ultimately show ?thesis
    using sum unfolding n_def by blast
qed

lemma parseFloat_parts:
  assumes "ip \<noteq> []" and "list_all (\<lambda>c. c \<in> set digits10) ip"
    and "list_all (\<lambda>c. c \<in> set digits10) fp"
  shows "parseFloat (ip @ ''.'' @ fp) =
           Num (real (digits_value 10 (dec ip)) + real (digits_value 10 (dec fp)) / 10 ^ length fp)"
proof -
  have dot: "digit_value 10 CHR ''.'' = None"
    by code_simp
  have lead: "leading_digits 10 (ip @ ''.'' @ fp) = dec ip"
    using assms(2) by (rule leading_digits_run) (simp add: dot)
  have frac: "leading_digits 10 fp = dec fp"
    using leading_digits_run [OF assms(3), of "[]"] by simp
  have nonempty: "dec ip \<noteq> []"
    using assms(1) by (simp add: dec_def)
  have rest: "drop (length (dec ip)) (ip @ ''.'' @ fp) = ''.'' @ fp"
    by (simp add: length_dec)
  have dotted: "startsWith (''.'' @ fp) ''.''"
    by (simp add: startsWith_def)
  have tail: "tl (''.'' @ fp) = fp"
    by simp
  show ?thesis
    unfolding parseFloat_def Let_def lead rest tail frac
    using nonempty dotted by (simp only: if_True if_False simp_thms length_dec)
qed

lemma parseFloat_toFixed:
  assumes "0 \<le> x" and "0 < d" and "x < 10 ^ 21"
  shows "parseFloat (toFixed (Num x) d) = Num (real (nat \<lfloor>x * 10 ^ d + 1 / 2\<rfloor>) / 10 ^ d)"
proof -
  obtain ip fp where parts: "toFixed (Num x) d = ip @ ''.'' @ fp" "ip \<noteq> []" "length fp = d"
    "list_all (\<lambda>c. c \<in> set digits10) ip" "list_all (\<lambda>c. c \<in> set digits10) fp"
    "digits_value 10 (dec ip) * 10 ^ d + digits_value 10 (dec fp) = nat \<lfloor>x * 10 ^ d + 1 / 2\<rfloor>"
    using toFixed_parts [OF assms] by blast
  have "real (digits_value 10 (dec ip)) + real (digits_value 10 (dec fp)) / 10 ^ d =
          real (digits_value 10 (dec ip) * 10 ^ d + digits_value 10 (dec fp)) / 10 ^ d"
    by (simp add: field_simps)
  then show ?thesis
    using parseFloat_parts [OF parts(2,4,5)] parts(1,3,6) by simp
qed

lemma toFixed_numeric:
  assumes "0 \<le> x" and "0 < d" and "x < 10 ^ 21"
  shows "toFixed (Num x) d \<noteq> []" "list_all (\<lambda>c. c \<in> set cls_num) (toFixed (Num x) d)"
proof -
  obtain ip fp where parts: "toFixed (Num x) d = ip @ ''.'' @ fp" "ip \<noteq> []"
    "list_all (\<lambda>c. c \<in> set digits10) ip" "list_all (\<lambda>c. c \<in> set digits10) fp"
    using toFixed_parts [OF assms] by blast
  show "toFixed (Num x) d \<noteq> []"
    using parts(1,2) by simp
  have "set digits10 \<subseteq> set cls_num"
    by (simp add: digits10_def cls_num_def)
  then have sub: "c \<in> set cls_num" if "c \<in> set digits10" for c
    using that by blast
  have ip: "list_all (\<lambda>c. c \<in> set cls_num) ip"
    using parts(3) sub unfolding list_all_iff by blast
  have fp: "list_all (\<lambda>c. c \<in> set cls_num) fp"
    using parts(4) sub unfolding list_all_iff by blast
  have dot: "CHR ''.'' \<in> set cls_num"
    by (simp add: cls_num_def)
  show "list_all (\<lambda>c. c \<in> set cls_num) (toFixed (Num x) d)"
    unfolding parts(1) using ip fp dot by simp
qed


lemma trim_unchanged:
  assumes "s \<noteq> []" and "hd s \<notin> set white_space" and "last s \<notin> set white_space"
  shows "trim s = s"
proof -
  have 1: "trimStart s = s"
    using assms(1,2) by (cases s) (auto simp: trimStart_def)
  have "rev s \<noteq> []" "hd (rev s) \<notin> set white_space"
    using assms(1,3) by (simp_all add: hd_rev)
  then have 2: "trimStart (rev s) = rev s"
    by (cases "rev s") (auto simp: trimStart_def)
  show ?thesis
    by (simp add: trim_def 1 2)
qed

lemma lower_char_plain: "list_all (\<lambda>c. lower_char c = c) ''oklch(%) .0123456789''"
  by code_simp

lemma toLowerCase_unchanged:
  assumes "list_all (\<lambda>c. c \<in> set ''oklch(%) .0123456789'') s"
  shows "toLowerCase s = s"
proof -
  have "lower_char c = c" if "c \<in> set s" for c
    using that assms lower_char_plain unfolding list_all_iff by blast
  then show ?thesis
    unfolding toLowerCase_def by (simp add: map_idI)
qed

lemma numeric_plain:
  assumes "list_all (\<lambda>c. c \<in> set cls_num) s"
  shows "list_all (\<lambda>c. c \<in> set ''oklch(%) .0123456789'') s"
proof -
  have "set cls_num \<subseteq> set ''oklch(%) .0123456789''"
    by (simp add: cls_num_def)
  then show ?thesis
    using assms unfolding list_all_iff by blast
qed

lemma rounding_error:
  assumes "0 \<le> x"
  shows "\<bar>real (nat \<lfloor>x * 10 ^ d + 1 / 2\<rfloor>) / 10 ^ d - x\<bar> \<le> 1 / (2 * 10 ^ d)"
proof -
  define y where "y = x * 10 ^ d"
  have y: "0 \<le> y"
    using assms by (simp add: y_def)
  then have "0 \<le> \<lfloor>y + 1 / 2\<rfloor>"
    by simp
  then have n: "real (nat \<lfloor>y + 1 / 2\<rfloor>) = of_int \<lfloor>y + 1 / 2\<rfloor>"
    by simp
  have "of_int \<lfloor>y + 1 / 2\<rfloor> \<le> y + 1 / 2" "y + 1 / 2 < of_int \<lfloor>y + 1 / 2\<rfloor> + 1"
    by linarith+
  then have "\<bar>real (nat \<lfloor>y + 1 / 2\<rfloor>) - y\<bar> \<le> 1 / 2"
    unfolding n by linarith
  then have "\<bar>real (nat \<lfloor>y + 1 / 2\<rfloor>) - y\<bar> / 10 ^ d \<le> (1 / 2) / 10 ^ d"
    by (rule divide_right_mono) simp
  moreover have "real (nat \<lfloor>y + 1 / 2\<rfloor>) / 10 ^ d - x = (real (nat \<lfloor>y + 1 / 2\<rfloor>) - y) / 10 ^ d"
    by (simp add: y_def diff_divide_distrib)
  then have "\<bar>real (nat \<lfloor>y + 1 / 2\<rfloor>) / 10 ^ d - x\<bar> = \<bar>real (nat \<lfloor>y + 1 / 2\<rfloor>) - y\<bar> / 10 ^ d"
    by (simp only: abs_divide) simp
  ultimately show ?thesis
    by (simp add: y_def)
qed

lemma parseColor_formatOklch:
  assumes "0 \<le> l" and "0 \<le> c" and "0 \<le> h"
    and "l * 100 < 10 ^ 21" and "c < 10 ^ 21" and "h < 10 ^ 21"
  shows "parseColor (JString (formatOklch (Num l) (Num c) (Num h))) =
           Inr \<lparr>ok_l = Num (real (nat \<lfloor>l * 100 * 10 ^ 1 + 1 / 2\<rfloor>) / 10 ^ 1 / 100),
                ok_c = Num (real (nat \<lfloor>c * 10 ^ 4 + 1 / 2\<rfloor>) / 10 ^ 4),
                ok_h = Num (real (nat \<lfloor>h * 10 ^ 1 + 1 / 2\<rfloor>) / 10 ^ 1)\<rparr>"
proof -
  define A where "A = toFixed (Num (l * 100)) 1"
  define B where "B = toFixed (Num c) 4"
  define C where "C = toFixed (Num h) 1"
  define F where "F = ''oklch('' @ A @ ''% '' @ B @ '' '' @ C @ '')''"
  have l100: "0 \<le> l * 100"
    using assms(1) by simp
  have A: "A \<noteq> []" "list_all (\<lambda>c. c \<in> set cls_num) A"
    unfolding A_def using toFixed_numeric [OF l100 _ assms(4), of 1] by simp_all
  have B: "B \<noteq> []" "list_all (\<lambda>c. c \<in> set cls_num) B"
    unfolding B_def using toFixed_numeric [OF assms(2) _ assms(5), of 4] by simp_all
  have C: "C \<noteq> []" "list_all (\<lambda>c. c \<in> set cls_num) C"
    unfolding C_def using toFixed_numeric [OF assms(3) _ assms(6), of 1] by simp_all
  have F: "formatOklch (Num l) (Num c) (Num h) = F"
    by (simp add: formatOklch_def F_def A_def B_def C_def)
  have plain: "list_all (\<lambda>c. c \<in> set ''oklch(%) .0123456789'') F"
    using numeric_plain [OF A(2)] numeric_plain [OF B(2)] numeric_plain [OF C(2)]
    by (simp add: F_def)
  have "trim F = F"
    by (rule trim_unchanged) (simp_all add: F_def white_space_def)
  then have trimmed: "toLowerCase (trim F) = F"
    using toLowerCase_unchanged [OF plain] by simp
  have prefix: "startsWith F ''oklch(''"
    by (simp add: F_def startsWith_def)
  have m: "regex_match re_oklch F = Some [Some A, Some ''%'', Some B, Some C, None]"
    unfolding F_def by (rule re_oklch_match [OF A B C])
  have pA: "parseFloat A = Num (real (nat \<lfloor>l * 100 * 10 ^ 1 + 1 / 2\<rfloor>) / 10 ^ 1)"
    unfolding A_def using parseFloat_toFixed [OF l100 _ assms(4), of 1] by simp
  have pB: "parseFloat B = Num (real (nat \<lfloor>c * 10 ^ 4 + 1 / 2\<rfloor>) / 10 ^ 4)"
    unfolding B_def using parseFloat_toFixed [OF assms(2) _ assms(5), of 4] by simp
  have pC: "parseFloat C = Num (real (nat \<lfloor>h * 10 ^ 1 + 1 / 2\<rfloor>) / 10 ^ 1)"
    unfolding C_def using parseFloat_toFixed [OF assms(3) _ assms(6), of 1] by simp
  have "parseOklch F =
      Inr \<lparr>ok_l = parseFloat A / Num 100, ok_c = parseFloat B, ok_h = parseFloat C\<rparr>"
    by (simp add: parseOklch_def m capture_def capture_text_def Let_def)
  moreover have "F \<noteq> []"
    by (simp add: F_def)
  ultimately have "parseColor (JString F) =
      Inr \<lparr>ok_l = parseFloat A / Num 100, ok_c = parseFloat B, ok_h = parseFloat C\<rparr>"
    by (simp add: parseColor_def trimmed prefix Let_def)
  then show ?thesis
    unfolding F pA pB pC by simp
qed


section \<open>The level-500 entry\<close>

lemma exact_500_hex:
  assumes "parseColor (JString s) = Inr base"
  shows "\<exists>ramp. generateShades (JString s) [(''format'', JString ''hex'')] = Inr ramp \<and>
           ramp 500 = Some (if startsWith s ''#'' then s else formatHexFromOklch base)"
proof -
  have "generateShades (JString s) [(''format'', JString ''hex'')] =
      Inr (generateFixedShades base s (JString ''hex'') JUndefined)"
    using assms by (simp add: generateShades_def lookup_prop_def with_default_def string_of_def)
  moreover have "generateFixedShades base s (JString ''hex'') JUndefined 500 =
      Some (if startsWith s ''#'' then s else formatHexFromOklch base)"
    by (simp add: generateFixedShades_at SHADE_LEVELS_def fixed_shade_def)
  ultimately show ?thesis by simp
qed

lemma exact_500_text:
  assumes "parseColor (JString s) = Inr base"
  shows "\<exists>ramp. generateShades (JString s) [] = Inr ramp \<and>
           ramp 500 = Some (formatOklch (ok_l base) (ok_c base) (ok_h base))"
proof -
  have "generateShades (JString s) [] = Inr (generateFixedShades base s (JString ''oklch'') JUndefined)"
    using assms by (simp add: generateShades_def lookup_prop_def with_default_def string_of_def)
  moreover have "generateFixedShades base s (JString ''oklch'') JUndefined 500 =
      Some (formatOklch (ok_l base) (ok_c base) (ok_h base))"
    by (simp add: generateFixedShades_at SHADE_LEVELS_def fixed_shade_def)
  ultimately show ?thesis by simp
qed

text \<open>
  Claim C3, as amended. Let the input parse to a triple of numbers from 0 to \<open>10\<^sup>6\<close> (every
  hex colour does). In fixed mode with \<^verbatim>\<open>exactMatch\<close> unset, the level-500 entry of the
  hex ramp is the input text itself when the text begins with \<^verbatim>\<open>#\<close>, and the recomputed
  \<^verbatim>\<open>#rrggbb\<close> otherwise. The level-500 entry of the perceptual-text ramp is \<^verbatim>\<open>formatOklch\<close>
  of the parsed triple, and parsing it back gives the lightness within 0.001, the chroma
  within 0.0001 and the hue within 0.1 of the input triple: each is printed with a fixed
  number of decimals, the hue with one.
\<close>

theorem level_500_round_trip:
  assumes "parseColor (JString s) = Inr \<lparr>ok_l = Num l, ok_c = Num c, ok_h = Num h\<rparr>"
    and "0 \<le> l" and "l \<le> 10 ^ 6" and "0 \<le> c" and "c \<le> 10 ^ 6" and "0 \<le> h" and "h \<le> 10 ^ 6"
  shows "\<exists>hexRamp textRamp l' c' h'.
           generateShades (JString s) [(''format'', JString ''hex'')] = Inr hexRamp \<and>
           hexRamp 500 =
             Some (if startsWith s ''#'' then s
                   else formatHexFromOklch \<lparr>ok_l = Num l, ok_c = Num c, ok_h = Num h\<rparr>) \<and>
           generateShades (JString s) [] = Inr textRamp \<and>
           textRamp 500 = Some (formatOklch (Num l) (Num c) (Num h)) \<and>
           parseColor (JString (formatOklch (Num l) (Num c) (Num h))) =
             Inr \<lparr>ok_l = Num l', ok_c = Num c', ok_h = Num h'\<rparr> \<and>
           \<bar>l' - l\<bar> \<le> 1 / 1000 \<and> \<bar>c' - c\<bar> \<le> 1 / 10000 \<and> \<bar>h' - h\<bar> \<le> 1 / 10"
proof -
  obtain hexRamp where hexRamp:
    "generateShades (JString s) [(''format'', JString ''hex'')] = Inr hexRamp"
    "hexRamp 500 =
       Some (if startsWith s ''#'' then s
             else formatHexFromOklch \<lparr>ok_l = Num l, ok_c = Num c, ok_h = Num h\<rparr>)"
    using exact_500_hex [OF assms(1)] by blast
  obtain textRamp where textRamp:
    "generateShades (JString s) [] = Inr textRamp"
    "textRamp 500 = Some (formatOklch (Num l) (Num c) (Num h))"
    using exact_500_text [OF assms(1)] by auto
  define l' where "l' = real (nat \<lfloor>l * 100 * 10 ^ 1 + 1 / 2\<rfloor>) / 10 ^ 1 / 100"
  define c' where "c' = real (nat \<lfloor>c * 10 ^ 4 + 1 / 2\<rfloor>) / 10 ^ 4"
  define h' where "h' = real (nat \<lfloor>h * 10 ^ 1 + 1 / 2\<rfloor>) / 10 ^ 1"
  have small: "l * 100 < 10 ^ 21" "c < 10 ^ 21" "h < 10 ^ 21"
    using assms(3,5,7) by simp_all
  have reparse: "parseColor (JString (formatOklch (Num l) (Num c) (Num h))) =
      Inr \<lparr>ok_l = Num l', ok_c = Num c', ok_h = Num h'\<rparr>"
    unfolding l'_def c'_def h'_def
    by (rule parseColor_formatOklch [OF assms(2,4,6) small])
  have "0 \<le> l * 100"
    using assms(2) by simp
  then have "\<bar>real (nat \<lfloor>l * 100 * 10 ^ 1 + 1 / 2\<rfloor>) / 10 ^ 1 - l * 100\<bar> \<le> 1 / (2 * 10 ^ 1)"
    by (rule rounding_error)
  then have "\<bar>l' - l\<bar> \<le> 1 / 2000"
    unfolding l'_def by (simp add: abs_le_iff field_simps)
  then have el: "\<bar>l' - l\<bar> \<le> 1 / 1000"
    by linarith
  have "\<bar>c' - c\<bar> \<le> 1 / 20000"
    unfolding c'_def using rounding_error [OF assms(4), of 4] by simp
  then have ec: "\<bar>c' - c\<bar> \<le> 1 / 10000"
    by linarith
  have "\<bar>h' - h\<bar> \<le> 1 / 20"
    unfolding h'_def using rounding_error [OF assms(6), of 1] by simp
  then have eh: "\<bar>h' - h\<bar> \<le> 1 / 10"
    by linarith
  show ?thesis
    using hexRamp textRamp reparse el ec eh by blast
qed

lemma parseColor_oklch_round:
  "parseColor (JString ''oklch(0.5 0.1 200.04)'') =
     Inr \<lparr>ok_l = Num (1 / 2), ok_c = Num (1 / 10), ok_h = Num (5001 / 25)\<rparr>"
  by (simp add: parseColor_def parseOklch_def string_eval regex_eval number_eval)

lemma parseColor_oklch_printed:
  "parseColor (JString ''oklch(50.0% 0.1000 200.0)'') =
     Inr \<lparr>ok_l = Num (1 / 2), ok_c = Num (1 / 10), ok_h = Num 200\<rparr>"
  by (simp add: parseColor_def parseOklch_def string_eval regex_eval number_eval)

lemma format_oklch_round:
  "formatOklch (Num (1 / 2)) (Num (1 / 10)) (Num (5001 / 25)) = ''oklch(50.0% 0.1000 200.0)''"
  by code_simp

theorem level_500_round_trip_witness:
  "(\<exists>l c h l' c' h' hexRamp textRamp.
      parseColor (JString ''#3b82f6'') = Inr \<lparr>ok_l = Num l, ok_c = Num c, ok_h = Num h\<rparr> \<and>
      0 \<le> l \<and> l \<le> 10 ^ 6 \<and> 0 \<le> c \<and> c \<le> 10 ^ 6 \<and> 0 \<le> h \<and> h \<le> 10 ^ 6 \<and>
      generateShades (JString ''#3b82f6'') [(''format'', JString ''hex'')] = Inr hexRamp \<and>
      hexRamp 500 = Some ''#3b82f6'' \<and>
      generateShades (JString ''#3b82f6'') [] = Inr textRamp \<and>
      textRamp 500 = Some (formatOklch (Num l) (Num c) (Num h)) \<and>
      parseColor (JString (formatOklch (Num l) (Num c) (Num h))) =
        Inr \<lparr>ok_l = Num l', ok_c = Num c', ok_h = Num h'\<rparr> \<and>
      \<bar>l' - l\<bar> \<le> 1 / 1000 \<and> \<bar>c' - c\<bar> \<le> 1 / 10000 \<and> \<bar>h' - h\<bar> \<le> 1 / 10) \<and>
   (\<exists>l' c' h' hexRamp textRamp.
      parseColor (JString ''oklch(0.5 0.1 200.04)'') =
        Inr \<lparr>ok_l = Num (1 / 2), ok_c = Num (1 / 10), ok_h = Num (5001 / 25)\<rparr> \<and>
      generateShades (JString ''oklch(0.5 0.1 200.04)'') [(''format'', JString ''hex'')] = Inr hexRamp \<and>
      hexRamp 500 = Some (formatHexFromOklch
        \<lparr>ok_l = Num (1 / 2), ok_c = Num (1 / 10), ok_h = Num (5001 / 25)\<rparr>) \<and>
      generateShades (JString ''oklch(0.5 0.1 200.04)'') [] = Inr textRamp \<and>
      textRamp 500 = Some ''oklch(50.0% 0.1000 200.0)'' \<and>
      parseColor (JString ''oklch(50.0% 0.1000 200.0)'') =
        Inr \<lparr>ok_l = Num l', ok_c = Num c', ok_h = Num h'\<rparr> \<and>
      \<bar>l' - 1 / 2\<bar> \<le> 1 / 1000 \<and> \<bar>c' - 1 / 10\<bar> \<le> 1 / 10000 \<and> \<bar>h' - 5001 / 25\<bar> \<le> 1 / 10)"
proof
  obtain l c h where triple:
    "hexToOklch ''#3b82f6'' = \<lparr>ok_l = Num l, ok_c = Num c, ok_h = Num h\<rparr>"
    "0 \<le> l" "l \<le> 2" "0 \<le> c" "c \<le> 4" "0 \<le> h" "h < 360"
    using hexToOklch_range [of "''#3b82f6''"] by blast
  have parsed: "parseColor (JString ''#3b82f6'') = Inr \<lparr>ok_l = Num l, ok_c = Num c, ok_h = Num h\<rparr>"
    using parseColor_hash triple(1) by simp
  have rng: "0 \<le> l" "l \<le> 10 ^ 6" "0 \<le> c" "c \<le> 10 ^ 6" "0 \<le> h" "h \<le> 10 ^ 6"
    using triple(2-7) by simp_all
  have hash: "startsWith ''#3b82f6'' ''#''"
    by (simp add: startsWith_def)
  show "\<exists>l c h l' c' h' hexRamp textRamp.
      parseColor (JString ''#3b82f6'') = Inr \<lparr>ok_l = Num l, ok_c = Num c, ok_h = Num h\<rparr> \<and>
      0 \<le> l \<and> l \<le> 10 ^ 6 \<and> 0 \<le> c \<and> c \<le> 10 ^ 6 \<and> 0 \<le> h \<and> h \<le> 10 ^ 6 \<and>
      generateShades (JString ''#3b82f6'') [(''format'', JString ''hex'')] = Inr hexRamp \<and>
      hexRamp 500 = Some ''#3b82f6'' \<and>
      generateShades (JString ''#3b82f6'') [] = Inr textRamp \<and>
      textRamp 500 = Some (formatOklch (Num l) (Num c) (Num h)) \<and>
      parseColor (JString (formatOklch (Num l) (Num c) (Num h))) =
        Inr \<lparr>ok_l = Num l', ok_c = Num c', ok_h = Num h'\<rparr> \<and>
      \<bar>l' - l\<bar> \<le> 1 / 1000 \<and> \<bar>c' - c\<bar> \<le> 1 / 10000 \<and> \<bar>h' - h\<bar> \<le> 1 / 10"
    using level_500_round_trip [OF parsed rng] parsed rng hash by (simp only: if_True) blast
next
  let ?base = "\<lparr>ok_l = Num (1 / 2), ok_c = Num (1 / 10), ok_h = Num (5001 / 25)\<rparr>"
  have rng: "(0::real) \<le> 1 / 2" "(1 / 2 :: real) \<le> 10 ^ 6" "(0::real) \<le> 1 / 10"
    "(1 / 10 :: real) \<le> 10 ^ 6" "(0::real) \<le> 5001 / 25" "(5001 / 25 :: real) \<le> 10 ^ 6"
    by simp_all
  have hash: "\<not> startsWith ''oklch(0.5 0.1 200.04)'' ''#''"
    by (simp add: startsWith_def)
  show "\<exists>l' c' h' hexRamp textRamp.
      parseColor (JString ''oklch(0.5 0.1 200.04)'') =
        Inr \<lparr>ok_l = Num (1 / 2), ok_c = Num (1 / 10), ok_h = Num (5001 / 25)\<rparr> \<and>
      generateShades (JString ''oklch(0.5 0.1 200.04)'') [(''format'', JString ''hex'')] = Inr hexRamp \<and>
      hexRamp 500 = Some (formatHexFromOklch
        \<lparr>ok_l = Num (1 / 2), ok_c = Num (1 / 10), ok_h = Num (5001 / 25)\<rparr>) \<and>
      generateShades (JString ''oklch(0.5 0.1 200.04)'') [] = Inr textRamp \<and>
      textRamp 500 = Some ''oklch(50.0% 0.1000 200.0)'' \<and>
      parseColor (JString ''oklch(50.0% 0.1000 200.0)'') =
        Inr \<lparr>ok_l = Num l', ok_c = Num c', ok_h = Num h'\<rparr> \<and>
      \<bar>l' - 1 / 2\<bar> \<le> 1 / 1000 \<and> \<bar>c' - 1 / 10\<bar> \<le> 1 / 10000 \<and> \<bar>h' - 5001 / 25\<bar> \<le> 1 / 10"
    using level_500_round_trip [OF parseColor_oklch_round rng] parseColor_oklch_round hash
    by (simp add: format_oklch_round) blast
qed

lemma parseColor_oklch_large:
  "parseColor (JString ''oklch(0.5 0.1 1000000000000000000000)'') =
     Inr \<lparr>ok_l = Num (1 / 2), ok_c = Num (1 / 10), ok_h = Num 1000000000000000000000\<rparr>"
  by (simp add: parseColor_def parseOklch_def string_eval regex_eval number_eval)

lemma exponent_text_large: "exponent_text 1000000000000000000000 = ''1e+21''"
  by (simp add: exponent_text_def Let_def nat_digits.simps digits36_def)

lemma toFixed_large: "toFixed (Num 1000000000000000000000) 1 = ''1e+21''"
  by (simp add: toFixed_def exponent_text_large)

lemma toFixed_half: "toFixed (Num (1 / 2) * Num 100) 1 = ''50.0''"
  by code_simp

lemma toFixed_tenth: "toFixed (Num (1 / 10)) 4 = ''0.1000''"
  by code_simp

lemma format_oklch_large:
  "formatOklch (Num (1 / 2)) (Num (1 / 10)) (Num 1000000000000000000000) =
     ''oklch(50.0% 0.1000 1e+21)''"
  unfolding formatOklch_def toFixed_half toFixed_tenth toFixed_large by simp

lemma parseColor_exponent:
  "parseColor (JString ''oklch(50.0% 0.1000 1e+21)'') = Inl InvalidOklch"
  by (simp add: parseColor_def parseOklch_def string_eval regex_eval number_eval)

text \<open>
  The claim as stated fails three times. For the hex text \<^verbatim>\<open>abc\<close>, without \<^verbatim>\<open>#\<close>, the
  level-500 entry is a recomputed text that begins with \<^verbatim>\<open>#\<close> and so differs from the input
  even when case is ignored. The hue is printed with one decimal: for a triple of hue
  200.04 the level-500 text parses back to hue 200, which is 0.04 away, more than 0.001.
  And from \<open>10\<^sup>2\<^sup>1\<close> on \<^verbatim>\<open>toFixed\<close> prints an exponent, which the pattern of \<^verbatim>\<open>parseOklch\<close>
  does not admit: for a triple of hue \<open>10\<^sup>2\<^sup>1\<close> the level-500 text does not parse back.
\<close>

theorem level_500_not_reproduced:
  "(\<exists>ramp v. generateShades (JString ''abc'') [(''format'', JString ''hex'')] = Inr ramp \<and>
      ramp 500 = Some v \<and> toLowerCase v \<noteq> toLowerCase ''abc'') \<and>
   (\<exists>ramp. generateShades (JString ''oklch(0.5 0.1 200.04)'') [] = Inr ramp \<and>
      ramp 500 = Some ''oklch(50.0% 0.1000 200.0)'' \<and>
      parseColor (JString ''oklch(0.5 0.1 200.04)'') =
        Inr \<lparr>ok_l = Num (1 / 2), ok_c = Num (1 / 10), ok_h = Num (5001 / 25)\<rparr> \<and>
      parseColor (JString ''oklch(50.0% 0.1000 200.0)'') =
        Inr \<lparr>ok_l = Num (1 / 2), ok_c = Num (1 / 10), ok_h = Num 200\<rparr> \<and>
      (1 / 1000 :: real) < \<bar>200 - 5001 / 25\<bar>) \<and>
   (\<exists>ramp. generateShades (JString ''oklch(0.5 0.1 1000000000000000000000)'') [] = Inr ramp \<and>
      ramp 500 = Some ''oklch(50.0% 0.1000 1e+21)'' \<and>
      parseColor (JString ''oklch(50.0% 0.1000 1e+21)'') = Inl InvalidOklch)"
proof (intro conjI)
  have p: "parseColor (JString ''abc'') = Inr (hexToOklch ''#abc'')"
    by (simp add: parseColor_def string_eval regex_test_re_hex hex_digits_3_to_8_def cls_hex_i_def)
  obtain ramp where ramp: "generateShades (JString ''abc'') [(''format'', JString ''hex'')] = Inr ramp"
    "ramp 500 = Some (formatHexFromOklch (hexToOklch ''#abc''))"
    using exact_500_hex [OF p] by (auto simp: startsWith_def)
  have "toLowerCase (formatHexFromOklch (hexToOklch ''#abc'')) \<noteq> toLowerCase ''abc''"
    by (simp add: formatHexFromOklch_def formatHex_def Let_def toLowerCase_def lower_char_def
        upper_case_def lower_case_def)
  with ramp show "\<exists>ramp v. generateShades (JString ''abc'') [(''format'', JString ''hex'')] = Inr ramp \<and>
      ramp 500 = Some v \<and> toLowerCase v \<noteq> toLowerCase ''abc''"
    by blast
next
  obtain ramp where "generateShades (JString ''oklch(0.5 0.1 200.04)'') [] = Inr ramp"
    "ramp 500 = Some ''oklch(50.0% 0.1000 200.0)''"
    using exact_500_text [OF parseColor_oklch_round] by (auto simp: format_oklch_round)
  then show "\<exists>ramp. generateShades (JString ''oklch(0.5 0.1 200.04)'') [] = Inr ramp \<and>
      ramp 500 = Some ''oklch(50.0% 0.1000 200.0)'' \<and>
      parseColor (JString ''oklch(0.5 0.1 200.04)'') =
        Inr \<lparr>ok_l = Num (1 / 2), ok_c = Num (1 / 10), ok_h = Num (5001 / 25)\<rparr> \<and>
      parseColor (JString ''oklch(50.0% 0.1000 200.0)'') =
        Inr \<lparr>ok_l = Num (1 / 2), ok_c = Num (1 / 10), ok_h = Num 200\<rparr> \<and>
      (1 / 1000 :: real) < \<bar>200 - 5001 / 25\<bar>"
    using parseColor_oklch_round parseColor_oklch_printed by simp
next
  obtain ramp where "generateShades (JString ''oklch(0.5 0.1 1000000000000000000000)'') [] = Inr ramp"
    "ramp 500 = Some ''oklch(50.0% 0.1000 1e+21)''"
    using exact_500_text [OF parseColor_oklch_large] by (auto simp: format_oklch_large)
  then show "\<exists>ramp. generateShades (JString ''oklch(0.5 0.1 1000000000000000000000)'') [] = Inr ramp \<and>
      ramp 500 = Some ''oklch(50.0% 0.1000 1e+21)'' \<and>
      parseColor (JString ''oklch(50.0% 0.1000 1e+21)'') = Inl InvalidOklch"
    using parseColor_exponent by simp
qed

section \<open>Lightness along a fixed ramp\<close>

lemma fixed_shade_lightness:
  assumes "format \<noteq> JString ''hex''"
  shows "\<exists>c. fixed_shade base oc format True level =
           formatOklch (shade_lightness base level) c (ok_h base)"
  using assms by (auto simp: fixed_shade_def shade_lightness_def Let_def)

lemma level_steps:
  "zip SHADE_LEVELS (tl SHADE_LEVELS) =
     [(50, 100), (100, 200), (200, 300), (300, 400), (400, 500), (500, 600), (600, 700),
      (700, 800), (800, 900), (900, 950)]"
  by (simp add: SHADE_LEVELS_def)

text \<open>
  For an input whose lightness lies between the two ends of the reference table (0.14 and 0.97),
  every entry of a fixed ramp in the oklch format is the formatting of \<^const>\<open>shade_lightness\<close> at
  its level, and that lightness never increases from one level of \<^const>\<open>SHADE_LEVELS\<close> to the
  next.
\<close>

theorem fixed_ramp_monotone:
  assumes "ok_l base = Num L" and "14 / 100 \<le> L" and "L \<le> 97 / 100"
  shows "list_all (\<lambda>level. \<exists>c. fixed_shade base oc (JString ''oklch'') True level =
                     formatOklch (shade_lightness base level) c (ok_h base)) SHADE_LEVELS \<and>
         list_all (\<lambda>(lighter, darker). shade_lightness base darker \<le> shade_lightness base lighter)
           (zip SHADE_LEVELS (tl SHADE_LEVELS))"
proof
  show "list_all (\<lambda>level. \<exists>c. fixed_shade base oc (JString ''oklch'') True level =
          formatOklch (shade_lightness base level) c (ok_h base)) SHADE_LEVELS"
    using fixed_shade_lightness [of "JString ''oklch''" base oc] by (simp add: list_all_iff)
next
  have RP: "RELATIVE_POSITION 50 = Num 1" "RELATIVE_POSITION 100 = Num (19 / 21)"
    "RELATIVE_POSITION 200 = Num (16 / 21)" "RELATIVE_POSITION 300 = Num (23 / 42)"
    "RELATIVE_POSITION 400 = Num (13 / 42)" "RELATIVE_POSITION 600 = Num (7 / 41)"
    "RELATIVE_POSITION 700 = Num (15 / 41)" "RELATIVE_POSITION 800 = Num (23 / 41)"
    "RELATIVE_POSITION 900 = Num (31 / 41)" "RELATIVE_POSITION 950 = Num 1"
    by (simp_all add: RELATIVE_POSITION_def SHADE_LEVELS_def LIGHTNESS_MAP_def
        LIGHT_HALF_RANGE_def DARK_HALF_RANGE_def)
  have ends: "LIGHTNESS_MAP 50 = Num (97 / 100)" "LIGHTNESS_MAP 950 = Num (14 / 100)"
    by (simp_all add: LIGHTNESS_MAP_def)
  show "list_all (\<lambda>(lighter, darker). shade_lightness base darker \<le> shade_lightness base lighter)
      (zip SHADE_LEVELS (tl SHADE_LEVELS))"
    unfolding level_steps using assms(2,3)
    by (simp add: shade_lightness_def fixed_targetL_def assms(1) RP ends) (simp add: field_simps)
qed

theorem fixed_ramp_monotone_witness:
  "ok_l \<lparr>ok_l = Num (1 / 2), ok_c = Num (1 / 10), ok_h = Num 200\<rparr> = Num (1 / 2) \<and>
   (14 / 100 :: real) \<le> 1 / 2 \<and> (1 / 2 :: real) \<le> 97 / 100 \<and>
   list_all (\<lambda>(lighter, darker).
       shade_lightness \<lparr>ok_l = Num (1 / 2), ok_c = Num (1 / 10), ok_h = Num 200\<rparr> darker
         \<le> shade_lightness \<lparr>ok_l = Num (1 / 2), ok_c = Num (1 / 10), ok_h = Num 200\<rparr> lighter)
     (zip SHADE_LEVELS (tl SHADE_LEVELS))"
proof -
  let ?base = "\<lparr>ok_l = Num (1 / 2), ok_c = Num (1 / 10), ok_h = Num 200\<rparr>"
  have a: "ok_l ?base = Num (1 / 2)" by simp
  have b: "(14 / 100 :: real) \<le> 1 / 2" by simp
  have c: "(1 / 2 :: real) \<le> 97 / 100" by simp
  show ?thesis
    using fixed_ramp_monotone [OF a b c] a b c by blast
qed

end
